(* ===== verification/Py_Exc.thy ===== *)
theory Py_Exc
  imports Py_Base
begin

text \<open>
  Python exceptions as values. An exception is its class and its message
  (\<open>str(e)\<close>); a computation that may raise returns \<open>exc + 'a\<close>, \<open>Inl\<close> the
  exception. \<open>except C\<close> tests \<open>isinstance(e, C)\<close>, which is membership of \<open>C\<close> in
  the method resolution order of the exception's class: the classes below are the
  builtins and the \<open>requests.exceptions\<close> classes the program can meet, with their
  \<open>__mro__\<close> as CPython and requests define it. \<open>py_repr\<close> is \<open>repr\<close> of a
  \<open>str\<close>, used in CPython's error messages. The declared bases \<open>exc_bases\<close> and
  their closure \<open>subclass_of\<close> are the reference the method resolution orders are
  checked against.
\<close>

section \<open>Classes and exceptions\<close>

datatype exc_class =
    Exception | ArithmeticError | OverflowError | LookupError | KeyError
  | ValueError
  | RuntimeError | TypeError | AttributeError | OSError
  | RequestException | ReqConnectionError | Timeout | ConnectTimeout | ReadTimeout
  | HTTPError | InvalidURL | InvalidJSONError | JSONDecodeError

text \<open>
  \<open>ReqConnectionError\<close> is \<open>requests.exceptions.ConnectionError\<close>, not the builtin of
  the same name. \<open>Exception\<close> is the root: the classes that derive from
  \<open>BaseException\<close> only (\<open>SystemExit\<close>, \<open>KeyboardInterrupt\<close>) are raised by nothing
  the program calls, and \<open>BaseException\<close> is left out of the method resolution orders.
\<close>

fun exc_mro :: "exc_class \<Rightarrow> exc_class list" where
  "exc_mro Exception = [Exception]"
| "exc_mro ArithmeticError = [ArithmeticError, Exception]"
| "exc_mro OverflowError = [OverflowError, ArithmeticError, Exception]"
| "exc_mro LookupError = [LookupError, Exception]"
| "exc_mro KeyError = [KeyError, LookupError, Exception]"
| "exc_mro ValueError = [ValueError, Exception]"
| "exc_mro RuntimeError = [RuntimeError, Exception]"
| "exc_mro TypeError = [TypeError, Exception]"
| "exc_mro AttributeError = [AttributeError, Exception]"
| "exc_mro OSError = [OSError, Exception]"
| "exc_mro RequestException = [RequestException, OSError, Exception]"
| "exc_mro ReqConnectionError =
     [ReqConnectionError, RequestException, OSError, Exception]"
| "exc_mro Timeout = [Timeout, RequestException, OSError, Exception]"
| "exc_mro ConnectTimeout =
     [ConnectTimeout, ReqConnectionError, Timeout, RequestException, OSError, Exception]"
| "exc_mro ReadTimeout =
     [ReadTimeout, Timeout, RequestException, OSError, Exception]"
| "exc_mro HTTPError = [HTTPError, RequestException, OSError, Exception]"
| "exc_mro InvalidURL =
     [InvalidURL, RequestException, OSError, ValueError, Exception]"
| "exc_mro InvalidJSONError =
     [InvalidJSONError, RequestException, OSError, Exception]"
| "exc_mro JSONDecodeError =
     [JSONDecodeError, InvalidJSONError, RequestException, OSError, ValueError, Exception]"

datatype exc = Exc (exc_type: exc_class) (exc_str: string)

type_synonym 'a pyres = "exc + 'a"

definition isinstance :: "exc \<Rightarrow> exc_class \<Rightarrow> bool" where
  "isinstance e c \<longleftrightarrow> c \<in> set (exc_mro (exc_type e))"

text \<open>The transport failures \<open>requests.get\<close> reports: instances of
  \<open>RequestException\<close>.\<close>

definition is_request_exc :: "exc \<Rightarrow> bool" where
  "is_request_exc e \<longleftrightarrow> isinstance e RequestException"

section \<open>\<open>repr\<close> of a string\<close>

definition hex_digit :: "nat \<Rightarrow> char" where
  "hex_digit d = (if d < 10 then digit_char d else char_of (87 + d))"

text \<open>Printable code points below 256 in the sense of \<open>str.isprintable\<close>: not a
  control character, not U+00A0 (a space separator other than the space) and not the
  soft hyphen U+00AD.\<close>

definition py_printable :: "char \<Rightarrow> bool" where
  "py_printable c \<longleftrightarrow> (let n = (of_char c :: nat) in
     (32 \<le> n \<and> n < 127) \<or> (160 < n \<and> n \<noteq> 173))"

definition repr_char :: "char \<Rightarrow> char \<Rightarrow> string" where
  "repr_char quote c = (let n = (of_char c :: nat) in
     if c = quote \<or> c = CHR 0x5C then [CHR 0x5C, c]
     else if c = CHR 0x09 then [CHR 0x5C, CHR ''t'']
     else if c = CHR 0x0A then [CHR 0x5C, CHR ''n'']
     else if c = CHR 0x0D then [CHR 0x5C, CHR ''r'']
     else if py_printable c then [c]
     else [CHR 0x5C, CHR ''x'', hex_digit (n div 16), hex_digit (n mod 16)])"

text \<open>The quote is \<open>'\<close> unless the string holds a \<open>'\<close> and no \<open>"\<close>.\<close>

definition py_repr :: "string \<Rightarrow> string" where
  "py_repr s = (let quote = (if CHR 0x27 \<in> set s \<and> CHR 0x22 \<notin> set s then CHR 0x22 else CHR 0x27)
                in quote # concat (map (repr_char quote) s) @ [quote])"

section \<open>The declared class hierarchy\<close>

text \<open>The direct base classes as the class statements of CPython's builtins and of
  \<open>requests/exceptions.py\<close> declare them: \<open>RequestException(IOError)\<close>, where \<open>IOError\<close>
  is \<open>OSError\<close>; \<open>ConnectTimeout(ConnectionError, Timeout)\<close>;
  \<open>InvalidURL(RequestException, ValueError)\<close>; \<open>JSONDecodeError(InvalidJSONError,
  json.JSONDecodeError)\<close>, where \<open>json.JSONDecodeError\<close>, itself a \<open>ValueError\<close>, is
  folded into its base. \<open>subclass_of c d\<close> is \<open>issubclass(c, d)\<close> from these
  declarations alone.\<close>

fun exc_bases :: "exc_class \<Rightarrow> exc_class list" where
  "exc_bases Exception = []"
| "exc_bases ArithmeticError = [Exception]"
| "exc_bases OverflowError = [ArithmeticError]"
| "exc_bases LookupError = [Exception]"
| "exc_bases KeyError = [LookupError]"
| "exc_bases ValueError = [Exception]"
| "exc_bases RuntimeError = [Exception]"
| "exc_bases TypeError = [Exception]"
| "exc_bases AttributeError = [Exception]"
| "exc_bases OSError = [Exception]"
| "exc_bases RequestException = [OSError]"
| "exc_bases ReqConnectionError = [RequestException]"
| "exc_bases Timeout = [RequestException]"
| "exc_bases ConnectTimeout = [ReqConnectionError, Timeout]"
| "exc_bases ReadTimeout = [Timeout]"
| "exc_bases HTTPError = [RequestException]"
| "exc_bases InvalidURL = [RequestException, ValueError]"
| "exc_bases InvalidJSONError = [RequestException]"
| "exc_bases JSONDecodeError = [InvalidJSONError, ValueError]"

inductive subclass_of :: "exc_class \<Rightarrow> exc_class \<Rightarrow> bool" where
  self: "subclass_of c c"
| via_base: "b \<in> set (exc_bases c) \<Longrightarrow> subclass_of b d \<Longrightarrow> subclass_of c d"

section \<open>Properties\<close>

text \<open>Every class the model raises is an \<open>Exception\<close>: a handler \<open>except Exception\<close>
  catches all of them.\<close>

lemma exc_mro_Exception: "Exception \<in> set (exc_mro c)"
  by (cases c) simp_all

lemma isinstance_Exception [simp]: "isinstance e Exception"
  by (simp add: isinstance_def exc_mro_Exception)

lemma exc_mro_self: "c \<in> set (exc_mro c)"
  by (cases c) simp_all

lemma isinstance_self [simp]: "isinstance (Exc c m) c"
  by (simp add: isinstance_def exc_mro_self)

lemma exc_mro_bases: "b \<in> set (exc_bases c) \<Longrightarrow> set (exc_mro b) \<subseteq> set (exc_mro c)"
  by (cases c) auto

lemma exc_mro_cases: "d \<in> set (exc_mro c) \<Longrightarrow> d = c \<or> (\<exists>b \<in> set (exc_bases c). d \<in> set (exc_mro b))"
  by (cases c) auto

lemma exc_mro_bases_shorter: "b \<in> set (exc_bases c) \<Longrightarrow> length (exc_mro b) < length (exc_mro c)"
  by (cases c) auto

lemma subclass_of_mro: "subclass_of c d \<Longrightarrow> d \<in> set (exc_mro c)"
proof (induction rule: subclass_of.induct)
  case (self c)
  show ?case by (rule exc_mro_self)
next
  case (via_base b c d)
  then show ?case using exc_mro_bases by blast
qed

lemma mro_subclass_of: "d \<in> set (exc_mro c) \<Longrightarrow> subclass_of c d"
proof (induction "length (exc_mro c)" arbitrary: c rule: less_induct)
  case less
  from exc_mro_cases [OF less.prems] show ?case
  proof
    assume "d = c"
    then show ?thesis by (simp add: subclass_of.self)
  next
    assume "\<exists>b \<in> set (exc_bases c). d \<in> set (exc_mro b)"
    then obtain b where b: "b \<in> set (exc_bases c)" "d \<in> set (exc_mro b)" by blast
    with less.hyps [OF exc_mro_bases_shorter [OF b(1)]] show ?thesis
      by (blast intro: subclass_of.via_base)
  qed
qed

text \<open>The method resolution orders the model uses agree with the declared class
  statements: an exception is an instance of a class, and so matches an \<open>except\<close>
  clause naming it, exactly when its class derives from that class through the
  declared bases.\<close>

lemma isinstance_iff_subclass: "isinstance e d \<longleftrightarrow> subclass_of (exc_type e) d"
  unfolding isinstance_def using subclass_of_mro mro_subclass_of by blast

end
