(* ===== verification/Py_Float.thy ===== *)
theory Py_Float
  imports Py_Exc
begin

text \<open>
  Python's \<open>float\<close> as the program uses it: IEEE 754 binary64 values, the rounding
  of an exact rational to the nearest double (ties to even, overflow to an infinity,
  gradual underflow to subnormals and signed zeros), CPython's \<open>float(str)\<close>
  (line 85 of \<open>src/CurrencyConverter.py\<close>), the product \<open>amount * rate\<close> (line 99)
  and the \<open>{x:.2f}\<close> field of the result f-string (line 100). A finite double is
  kept as its exact rational value, so every rounding the hardware does is written out
  here by \<open>round_double\<close>. Its lemmas bound the rounding error, show that
  two-decimal amounts survive \<open>float()\<close> and \<open>.2f\<close>, that integers below
  \<open>2\<^sup>5\<^sup>3\<close> are read exactly, that every rounded value is a binary64 value
  (\<open>is_double\<close>) and the binary64 values are the fixed points of the rounding, and
  that rounding overflows to an infinity exactly from IEEE's threshold.
\<close>

section \<open>Values\<close>

text \<open>
  \<open>Fin q\<close> is the finite double of exact value \<open>q\<close> (\<open>Fin 0\<close> is \<open>+0.0\<close>);
  \<open>NegZero\<close> is \<open>-0.0\<close>. The sign of a NaN is not kept: nothing in the program can
  observe it (CPython prints every NaN as \<open>nan\<close>).
\<close>

datatype pyfloat = Fin rat | NegZero | PosInf | NegInf | NaN

definition signed_zero :: "bool \<Rightarrow> pyfloat" where
  "signed_zero neg = (if neg then NegZero else Fin 0)"

definition signed_inf :: "bool \<Rightarrow> pyfloat" where
  "signed_inf neg = (if neg then NegInf else PosInf)"

section \<open>Rounding to the nearest double\<close>

text \<open>\<open>flog2 a\<close> is \<open>\<lfloor>log\<^sub>2 a\<rfloor>\<close> for \<open>a > 0\<close>, computed from the bit lengths of
  numerator and denominator.\<close>

definition flog2 :: "rat \<Rightarrow> int" where
  "flog2 a = (let (p, r) = quotient_of a; e = bitlen p - bitlen r in
              if a < 2 powi e then e - 1 else e)"

text \<open>Rounding to an integer, ties to even (the IEEE default mode).\<close>

definition round_half_even :: "rat \<Rightarrow> int" where
  "round_half_even m = (let f = \<lfloor>m\<rfloor>; d = m - of_int f in
     if d < 1/2 then f else if 1/2 < d then f + 1 else if even f then f else f + 1)"

text \<open>
  The exponent of the unit in the last place of the double nearest to \<open>a\<close>: 53
  significant bits for a normal number, the fixed quantum \<open>2\<^sup>-\<^sup>1\<^sup>0\<^sup>7\<^sup>4\<close> for a
  subnormal one.
\<close>

definition ulp_exp :: "rat \<Rightarrow> int" where
  "ulp_exp a = max (flog2 a - 52) (-1074)"

definition round_mag :: "rat \<Rightarrow> rat" where
  "round_mag a = of_int (round_half_even (a / 2 powi ulp_exp a)) * 2 powi ulp_exp a"

text \<open>
  \<open>round_double neg a\<close> is the double nearest to the exact value with sign bit
  \<open>neg\<close> and magnitude \<open>a \<ge> 0\<close>: zero keeps the sign, a magnitude that rounds to
  \<open>2\<^sup>1\<^sup>0\<^sup>2\<^sup>4\<close> or beyond is an infinity.
\<close>

definition round_double :: "bool \<Rightarrow> rat \<Rightarrow> pyfloat" where
  "round_double neg a = (let v = round_mag a in
     if v = 0 then signed_zero neg
     else if 2 ^ 1024 \<le> v then signed_inf neg
     else Fin (if neg then - v else v))"

subsection \<open>Binary64 values\<close>

text \<open>The finite doubles: zero, or a magnitude below \<open>2\<^sup>1\<^sup>0\<^sup>2\<^sup>4\<close> that is an integer
  multiple of the unit in its last place, that is an integer significand (of at most
  53 bits) times a power of two not below \<open>2\<^sup>-\<^sup>1\<^sup>0\<^sup>7\<^sup>4\<close>. The other values of
  \<^typ>\<open>pyfloat\<close> are doubles by construction.\<close>

definition is_int_rat :: "rat \<Rightarrow> bool" where
  "is_int_rat q \<longleftrightarrow> of_int \<lfloor>q\<rfloor> = q"

fun is_double :: "pyfloat \<Rightarrow> bool" where
  "is_double (Fin v) \<longleftrightarrow> v = 0 \<or> (\<bar>v\<bar> < 2 ^ 1024 \<and> is_int_rat (\<bar>v\<bar> / 2 powi ulp_exp \<bar>v\<bar>))"
| "is_double _ \<longleftrightarrow> True"

section \<open>Multiplication\<close>

fun fsign :: "pyfloat \<Rightarrow> bool" where
  "fsign (Fin q) = (q < 0)"
| "fsign NegZero = True"
| "fsign PosInf = False"
| "fsign NegInf = True"
| "fsign NaN = False"

fun fmag :: "pyfloat \<Rightarrow> rat" where
  "fmag (Fin q) = \<bar>q\<bar>"
| "fmag _ = 0"

fun is_inf :: "pyfloat \<Rightarrow> bool" where
  "is_inf PosInf = True"
| "is_inf NegInf = True"
| "is_inf _ = False"

fun is_zero :: "pyfloat \<Rightarrow> bool" where
  "is_zero (Fin q) = (q = 0)"
| "is_zero NegZero = True"
| "is_zero _ = False"

text \<open>
  IEEE multiplication: NaN absorbs, an infinity times a zero is NaN, the sign is the
  exclusive or of the signs, and a finite product is the exact product rounded once.
\<close>

definition fmul :: "pyfloat \<Rightarrow> pyfloat \<Rightarrow> pyfloat" where
  "fmul x y =
    (if x = NaN \<or> y = NaN then NaN
     else let neg = (fsign x \<noteq> fsign y) in
       if is_inf x \<or> is_inf y then (if is_zero x \<or> is_zero y then NaN else signed_inf neg)
       else round_double neg (fmag x * fmag y))"

text \<open>\<open>float(i)\<close> of a Python int, before the overflow check that raises.\<close>

definition float_of_int :: "int \<Rightarrow> pyfloat" where
  "float_of_int i = round_double (i < 0) (of_int \<bar>i\<bar>)"

section \<open>\<open>float(str)\<close>\<close>

text \<open>
  CPython's \<open>PyFloat_FromString\<close>, in its order:
  \<^enum> \<open>_PyUnicode_TransformDecimalAndSpaceToASCII\<close>: an ASCII string is kept; otherwise
    every character below 127 is kept, a Unicode space becomes \<open>' '\<close>, and the first
    other character becomes \<open>'?'\<close> and ends the string (there is no decimal digit
    outside ASCII below code point 256);
  \<^enum> \<open>_Py_string_to_number_with_underscores\<close>: an underscore must follow a digit and
    precede a digit; the underscores are then removed;
  \<^enum> \<open>float_from_string_inner\<close>: the C spaces at both ends are stripped and the rest
    must be one literal of the grammar
    \<open>[sign] (digits [. [digits]] | . digits) [(e|E) [sign] digits]\<close> or
    \<open>[sign] (inf | infinity | nan)\<close> (case-insensitive), read by the correctly
    rounded \<open>_Py_dg_strtod\<close>.
  Any failure is \<open>ValueError("could not convert string to float: " + repr(s))\<close>.
\<close>

definition unicode_space :: "char \<Rightarrow> bool" where
  "unicode_space c \<longleftrightarrow> (let n = (of_char c :: nat) in
     (9 \<le> n \<and> n \<le> 13) \<or> (28 \<le> n \<and> n \<le> 32) \<or> n = 133 \<or> n = 160)"

definition c_space :: "char \<Rightarrow> bool" where
  "c_space c \<longleftrightarrow> (let n = (of_char c :: nat) in (9 \<le> n \<and> n \<le> 13) \<or> n = 32)"

fun ascii_transform :: "string \<Rightarrow> string" where
  "ascii_transform [] = []"
| "ascii_transform (c # cs) =
     (if (of_char c :: nat) < 127 then c # ascii_transform cs
      else if unicode_space c then CHR '' '' # ascii_transform cs
      else [CHR ''?''])"

definition transform_decimal_space :: "string \<Rightarrow> string" where
  "transform_decimal_space s =
     (if list_all (\<lambda>c. (of_char c :: nat) < 128) s then s else ascii_transform s)"

fun underscores_valid :: "char \<Rightarrow> string \<Rightarrow> bool" where
  "underscores_valid prev [] = (prev \<noteq> CHR ''_'')"
| "underscores_valid prev (c # cs) =
     ((if c = CHR ''_'' then is_digit prev else (if prev = CHR ''_'' then is_digit c else True))
      \<and> underscores_valid c cs)"

definition remove_underscores :: "string \<Rightarrow> string option" where
  "remove_underscores s =
     (if CHR ''_'' \<notin> set s then Some s
      else if underscores_valid (CHR 0x00) s then Some (filter (\<lambda>c. c \<noteq> CHR ''_'') s)
      else None)"

definition strip_spaces :: "string \<Rightarrow> string" where
  "strip_spaces s = rev (dropWhile c_space (rev (dropWhile c_space s)))"

definition parse_sign :: "string \<Rightarrow> bool \<times> string" where
  "parse_sign s = (case s of
       c # r \<Rightarrow> if c = CHR ''-'' then (True, r) else if c = CHR ''+'' then (False, r) else (False, s)
     | [] \<Rightarrow> (False, []))"

definition parse_exponent :: "string \<Rightarrow> int option" where
  "parse_exponent s = (let (neg, ds) = parse_sign s in
     if ds \<noteq> [] \<and> list_all is_digit ds
     then Some ((if neg then -1 else 1) * int (digits_value ds)) else None)"

text \<open>The digits of the mantissa (integer and fraction part) and the decimal exponent.\<close>

definition parse_decimal :: "string \<Rightarrow> (nat \<times> int) option" where
  "parse_decimal s =
    (let ip = takeWhile is_digit s; r1 = dropWhile is_digit s;
         (fp, r2) = (case r1 of
                       c # r \<Rightarrow> if c = CHR ''.'' then (takeWhile is_digit r, dropWhile is_digit r)
                                else ([], r1)
                     | [] \<Rightarrow> ([], []));
         m = digits_value (ip @ fp); sh = int (length fp)
     in if ip = [] \<and> fp = [] then None
        else case r2 of
               [] \<Rightarrow> Some (m, - sh)
             | c # r \<Rightarrow> if c = CHR ''e'' \<or> c = CHR ''E''
                        then map_option (\<lambda>e. (m, e - sh)) (parse_exponent r) else None)"

datatype float_literal = DecLit bool nat int | InfLit bool | NanLit

definition parse_float_literal :: "string \<Rightarrow> float_literal option" where
  "parse_float_literal s = (let (neg, r) = parse_sign s in
     case parse_decimal r of
       Some (m, e) \<Rightarrow> Some (DecLit neg m e)
     | None \<Rightarrow> (let l = map ascii_lower r in
                 if l = ''inf'' \<or> l = ''infinity'' then Some (InfLit neg)
                 else if l = ''nan'' then Some NanLit else None))"

fun literal_value :: "float_literal \<Rightarrow> pyfloat" where
  "literal_value (DecLit neg m e) = round_double neg (of_nat m * 10 powi e)"
| "literal_value (InfLit neg) = signed_inf neg"
| "literal_value NanLit = NaN"

definition float_of_string :: "string \<Rightarrow> pyfloat pyres" where
  "float_of_string s =
    (let err = Exc ValueError (''could not convert string to float: '' @ py_repr s) in
     case remove_underscores (transform_decimal_space s) of
       None \<Rightarrow> Inl err
     | Some u \<Rightarrow> (case parse_float_literal (strip_spaces u) of
                   None \<Rightarrow> Inl err
                 | Some l \<Rightarrow> Inr (literal_value l)))"

section \<open>\<open>format(x, '.2f')\<close>\<close>

text \<open>
  \<open>fixed2 N\<close> prints \<open>N\<close> hundredths as \<open>int.dd\<close>. \<open>fmt2\<close> is CPython's
  \<open>format_float_short\<close> in mode 3 with two digits: the exact value rounded half to
  even at the second decimal, a minus sign whenever the sign bit is set (also for
  \<open>-0.0\<close> and for negative values that round to zero), and \<open>inf\<close>, \<open>-inf\<close>,
  \<open>nan\<close> for the special values (the sign of a NaN is ignored).
\<close>

definition fixed2 :: "nat \<Rightarrow> string" where
  "fixed2 n = show_nat (n div 100) @ CHR ''.'' # [digit_char (n mod 100 div 10), digit_char (n mod 10)]"

fun fmt2 :: "pyfloat \<Rightarrow> string" where
  "fmt2 (Fin q) = (if q < 0 then ''-'' else []) @ fixed2 (nat (round_half_even (\<bar>q\<bar> * 100)))"
| "fmt2 NegZero = ''-0.00''"
| "fmt2 PosInf = ''inf''"
| "fmt2 NegInf = ''-inf''"
| "fmt2 NaN = ''nan''"

section \<open>Properties of the rounding\<close>

lemma round_half_even_error: "\<bar>of_int (round_half_even m) - m\<bar> \<le> 1/2"
proof -
  have f: "of_int \<lfloor>m\<rfloor> \<le> m" "m < of_int \<lfloor>m\<rfloor> + 1"
    using floor_correct [of m] by simp_all
  then show ?thesis
    unfolding round_half_even_def Let_def by (auto simp: abs_if) linarith+
qed

lemma round_half_even_nonneg: "0 \<le> m \<Longrightarrow> 0 \<le> round_half_even m"
  by (auto simp: round_half_even_def Let_def)

lemma round_half_even_near:
  assumes "\<bar>m - of_int n\<bar> < 1/2"
  shows "round_half_even m = n"
proof -
  from round_half_even_error [of m] assms
  have "\<bar>of_int (round_half_even m) - of_int n\<bar> < (1::rat)" by linarith
  then have "\<bar>round_half_even m - n\<bar> < 1"
    by (metis of_int_abs of_int_diff of_int_less_1_iff)
  then show ?thesis by linarith
qed

lemma pow2_int_nat: "0 \<le> e \<Longrightarrow> (2::rat) powi e = 2 ^ nat e"
  by (simp add: power_int_nonneg_exp)

lemma flog2_bounds:
  assumes "0 < a"
  shows "2 powi flog2 a \<le> a \<and> a < 2 powi (flog2 a + 1)"
proof -
  obtain p r where q: "quotient_of a = (p, r)" by (cases "quotient_of a")
  then have r: "0 < r" and a: "a = of_int p / of_int r"
    by (simp_all add: quotient_of_denom_pos quotient_of_div)
  with assms have p: "0 < p" by (simp add: zero_less_divide_iff)
  have bp: "2 ^ nat (bitlen p - 1) \<le> p \<and> p < 2 ^ nat (bitlen p)" by (rule bitlen_bounds [OF p])
  have br: "2 ^ nat (bitlen r - 1) \<le> r \<and> r < 2 ^ nat (bitlen r)" by (rule bitlen_bounds [OF r])
  have bp1: "1 \<le> bitlen p" and br1: "1 \<le> bitlen r"
    using p r by (auto simp: bitlen_alt_def floorlog_def)
  define e where "e = bitlen p - bitlen r"
  have P1: "2 powi (bitlen p - 1) \<le> (of_int p :: rat)"
  proof -
    have "(2::rat) powi (bitlen p - 1) = of_int (2 ^ nat (bitlen p - 1))"
      using bp1 by (simp add: pow2_int_nat)
    then show ?thesis using bp by (simp only: of_int_le_iff)
  qed
  have P2: "(of_int p :: rat) < 2 powi bitlen p"
  proof -
    have "(2::rat) powi (bitlen p) = of_int (2 ^ nat (bitlen p))"
      using bp1 by (simp add: pow2_int_nat)
    then show ?thesis using bp by (simp only: of_int_less_iff)
  qed
  have R1: "2 powi (bitlen r - 1) \<le> (of_int r :: rat)"
  proof -
    have "(2::rat) powi (bitlen r - 1) = of_int (2 ^ nat (bitlen r - 1))"
      using br1 by (simp add: pow2_int_nat)
    then show ?thesis using br by (simp only: of_int_le_iff)
  qed
  have R2: "(of_int r :: rat) < 2 powi bitlen r"
  proof -
    have "(2::rat) powi (bitlen r) = of_int (2 ^ nat (bitlen r))"
      using br1 by (simp add: pow2_int_nat)
    then show ?thesis using br by (simp only: of_int_less_iff)
  qed
  have lo: "2 powi (e - 1) < a"
  proof -
    have "(2::rat) powi (e - 1) = 2 powi (bitlen p - 1) / 2 powi bitlen r"
      by (simp add: e_def power_int_diff)
    also have "\<dots> < of_int p / of_int r"
      using P1 R2 r by (intro frac_less2) auto
    finally show ?thesis by (simp add: a)
  qed
  have hi: "a < 2 powi (e + 1)"
  proof -
    have "a = of_int p / of_int r" by (rule a)
    also have "\<dots> < 2 powi bitlen p / 2 powi (bitlen r - 1)"
      using P2 R1 p by (intro frac_less) auto
    also have "\<dots> = 2 powi (e + 1)"
      by (simp add: e_def power_int_diff power_int_add)
    finally show ?thesis .
  qed
  have fl: "flog2 a = (if a < 2 powi e then e - 1 else e)"
    by (simp add: flog2_def q e_def)
  show ?thesis
    using lo hi by (auto simp: fl less_imp_le)
qed

lemma round_mag_nonneg: "0 \<le> a \<Longrightarrow> 0 \<le> round_mag a"
  by (simp add: round_mag_def round_half_even_nonneg)

lemma round_mag_error:
  assumes "0 < a"
  shows "\<bar>round_mag a - a\<bar> \<le> max (a / 2 ^ 53) (2 powi -1075)"
proof -
  define k where "k = ulp_exp a"
  define m where "m = a / 2 powi k"
  have am: "a = m * 2 powi k" by (simp add: m_def)
  have "round_mag a - a = (of_int (round_half_even m) - m) * 2 powi k"
    by (simp add: round_mag_def k_def m_def algebra_simps)
  then have "\<bar>round_mag a - a\<bar> = \<bar>of_int (round_half_even m) - m\<bar> * 2 powi k"
    by (simp add: abs_mult)
  also have "\<dots> \<le> 1/2 * 2 powi k"
    by (rule mult_right_mono [OF round_half_even_error]) simp
  also have "\<dots> = 2 powi (k - 1)"
    by (simp add: power_int_diff)
  also have "\<dots> \<le> max (a / 2 ^ 53) (2 powi -1075)"
  proof (cases "flog2 a - 52 \<le> -1074")
    case True
    then have "k = -1074" by (simp add: k_def ulp_exp_def)
    then show ?thesis by simp
  next
    case False
    then have "k - 1 = flog2 a - 53" by (simp add: k_def ulp_exp_def)
    then have "(2::rat) powi (k - 1) = 2 powi (flog2 a - 53)"
      by (simp only:)
    also have "\<dots> = 2 powi flog2 a / 2 powi 53"
      by (rule power_int_diff) simp
    also have "\<dots> = 2 powi flog2 a / 2 ^ 53"
      by simp
    also have "\<dots> \<le> a / 2 ^ 53"
      using flog2_bounds [OF assms] by (simp add: divide_right_mono)
    finally show ?thesis by simp
  qed
  finally show ?thesis .
qed

lemma round_half_even_of_int [simp]: "round_half_even (of_int z) = z"
  by (rule round_half_even_near) simp

lemma strip_spaces_id: "\<forall>c \<in> set s. \<not> c_space c \<Longrightarrow> strip_spaces s = s"
  by (simp add: strip_spaces_def dropWhile_none)

lemma digits_not_space: "is_digit c \<Longrightarrow> \<not> c_space c"
  by (simp add: is_digit_iff c_space_def)

lemma parse_sign_digit: "is_digit c \<Longrightarrow> parse_sign (c # s) = (False, c # s)"
  by (auto simp: parse_sign_def is_digit_iff)

lemma is_digit_dot [simp]: "\<not> is_digit CHR ''.''"
  by (simp add: is_digit_iff)

lemma parse_decimal_point:
  assumes "\<forall>c \<in> set ip. is_digit c" "\<forall>c \<in> set fp. is_digit c" "ip \<noteq> []"
  shows "parse_decimal (ip @ CHR ''.'' # fp) = Some (digits_value (ip @ fp), - int (length fp))"
  using assms by (simp add: parse_decimal_def takeWhile_append2 dropWhile_append2 takeWhile_all
    dropWhile_all)

lemma hundreds: "10 * (10 * (n div 100) + n mod 100 div 10) + n mod 10 = (n::nat)"
proof -
  have a: "n mod 100 mod 10 = n mod 10" by (simp add: mod_mod_cancel)
  have b: "10 * (n mod 100 div 10) + n mod 100 mod 10 = n mod 100" by simp
  have c: "100 * (n div 100) + n mod 100 = n" by simp
  have d: "10 * (10 * (n div 100) + n mod 100 div 10) + n mod 10
      = 100 * (n div 100) + (10 * (n mod 100 div 10) + n mod 100 mod 10)"
    by (simp only: a add_mult_distrib2 mult.assoc add.assoc)
  from d b c show ?thesis by simp
qed
lemma digits_value_fixed2:
  "digits_value (show_nat (n div 100) @ [digit_char (n mod 100 div 10), digit_char (n mod 10)]) = n"
proof -
  have "digits_value (show_nat (n div 100) @ [digit_char (n mod 100 div 10), digit_char (n mod 10)])
      = 10 * (10 * (n div 100) + n mod 100 div 10) + n mod 10"
    by (simp add: digits_value_append digits_value_show_nat digit_val_digit_char)
  then show ?thesis by (simp only: hundreds)
qed
lemma set_fixed2: "\<forall>c \<in> set (fixed2 n). is_digit c \<or> c = CHR ''.''"
  using show_nat_digits [of "n div 100"] by (auto simp: fixed2_def is_digit_digit_char)

lemma float_of_string_fixed2:
  "float_of_string (fixed2 n) = Inr (round_double False (of_nat n / 100))"
proof -
  let ?s = "fixed2 n"
  have chars: "\<forall>c \<in> set ?s. is_digit c \<or> c = CHR ''.''" by (rule set_fixed2)
  have ascii: "list_all (\<lambda>c. (of_char c :: nat) < 128) ?s"
    using chars by (auto simp: list_all_iff is_digit_iff)
  have nous: "CHR ''_'' \<notin> set ?s"
    using chars by (auto simp: is_digit_iff)
  have nsp: "\<forall>c \<in> set ?s. \<not> c_space c"
    using chars by (fastforce simp: is_digit_iff c_space_def Let_def)
  obtain c cs where sn: "show_nat (n div 100) = c # cs"
    by (cases "show_nat (n div 100)") simp_all
  have c: "is_digit c" using show_nat_digits [of "n div 100"] by (simp add: sn)
  have sign: "parse_sign ?s = (False, ?s)"
    by (simp add: fixed2_def sn parse_sign_digit [OF c])
  have dec: "parse_decimal ?s = Some (n, -2)"
    unfolding fixed2_def
    by (subst parse_decimal_point) (simp_all add: show_nat_digits is_digit_digit_char digits_value_fixed2)
  have val: "(of_nat n :: rat) * 10 powi -2 = of_nat n / 100"
    by (simp add: power_int_minus_divide)
  show ?thesis
    using ascii nous nsp sign dec val
    by (simp add: float_of_string_def transform_decimal_space_def remove_underscores_def
        strip_spaces_id parse_float_literal_def)
qed
lemma round_half_even_zero [simp]: "round_half_even 0 = 0"
  using round_half_even_of_int [of 0] by simp

lemma fmt2_round_fixed2:
  assumes "n < 2 ^ 52"
  shows "fmt2 (round_double False (of_nat n / 100)) = fixed2 n"
proof (cases "n = 0")
  case True
  then show ?thesis by (simp add: round_double_def round_mag_def signed_zero_def)
next
  case False
  define a where "a = (of_nat n :: rat) / 100"
  define v where "v = round_mag a"
  have a1: "1 / 100 \<le> a" using False by (simp add: a_def)
  have a2: "a < 2 ^ 52" using assms by (simp add: a_def)
  have tiny: "(2::rat) powi -1075 \<le> a / 2 ^ 53"
  proof -
    have "(2::rat) powi -1075 \<le> (1 / 100) / 2 ^ 53"
      by (simp add: power_int_minus_divide)
    also have "\<dots> \<le> a / 2 ^ 53" using a1 by (simp add: divide_right_mono)
    finally show ?thesis .
  qed
  have err: "\<bar>v - a\<bar> \<le> a / 2 ^ 53"
    using round_mag_error [of a] a1 tiny by (simp add: v_def)
  have lo: "a - a / 2 ^ 53 \<le> v" and hi: "v \<le> a + a / 2 ^ 53"
    using err by (simp_all only: abs_le_iff) linarith+
  have small: "a / 2 ^ 53 < a" using a1 by simp
  have v0: "0 < v" using lo small by linarith
  have big: "(2::rat) ^ 52 + 2 ^ 52 \<le> 2 ^ 1024" by simp
  have v1: "v < 2 ^ 1024" using hi small a2 big by linarith
  have rd: "round_double False a = Fin v"
    using v0 v1 by (simp add: round_double_def v_def [symmetric])
  have near: "\<bar>\<bar>v\<bar> * 100 - of_int (int n)\<bar> < 1 / 2"
  proof -
    have "\<bar>v\<bar> * 100 - of_int (int n) = 100 * (v - a)"
      using v0 by (simp add: a_def algebra_simps)
    then have "\<bar>\<bar>v\<bar> * 100 - of_int (int n)\<bar> = \<bar>100 * (v - a)\<bar>"
      by (simp only:)
    also have "\<dots> = 100 * \<bar>v - a\<bar>"
      by (simp only: abs_mult abs_numeral)
    also have "\<dots> \<le> 100 * (a / 2 ^ 53)" using err by simp
    also have "\<dots> < 1 / 2" using assms by (simp add: a_def)
    finally show ?thesis .
  qed
  have "round_half_even (\<bar>v\<bar> * 100) = int n" by (rule round_half_even_near [OF near])
  then show ?thesis using v0 rd by (simp add: a_def)
qed
lemma round_double_Fin_abs:
  assumes "0 \<le> a" and "round_double neg a = Fin v"
  shows "\<bar>v\<bar> = round_mag a"
proof -
  have "0 \<le> round_mag a" using assms(1) by (rule round_mag_nonneg)
  with assms(2) show ?thesis
    by (auto simp: round_double_def Let_def signed_zero_def signed_inf_def split: if_splits)
qed

lemma parse_decimal_digits:
  "ds \<noteq> [] \<Longrightarrow> \<forall>c \<in> set ds. is_digit c \<Longrightarrow> parse_decimal ds = Some (digits_value ds, 0)"
  by (simp add: parse_decimal_def takeWhile_all dropWhile_all)

lemma float_of_string_show_nat: "float_of_string (show_nat n) = Inr (round_double False (of_nat n))"
proof -
  let ?s = "show_nat n"
  have chars: "\<forall>c \<in> set ?s. is_digit c" by (rule show_nat_digits)
  have ascii: "list_all (\<lambda>c. (of_char c :: nat) < 128) ?s"
    using chars by (auto simp: list_all_iff is_digit_iff)
  have nous: "CHR ''_'' \<notin> set ?s"
    using chars by (auto simp: is_digit_iff)
  have nsp: "\<forall>c \<in> set ?s. \<not> c_space c"
    using chars digits_not_space by blast
  obtain c cs where sn: "?s = c # cs"
    by (cases ?s) simp_all
  have c: "is_digit c" using chars by (simp add: sn)
  have sign: "parse_sign ?s = (False, ?s)"
    by (simp add: sn parse_sign_digit [OF c])
  have dec: "parse_decimal ?s = Some (n, 0)"
    using chars by (simp add: parse_decimal_digits digits_value_show_nat)
  show ?thesis
    using ascii nous nsp sign dec
    by (simp add: float_of_string_def transform_decimal_space_def remove_underscores_def
        strip_spaces_id parse_float_literal_def)
qed

lemma flog2_less:
  assumes "0 < a" and "a < 2 ^ k"
  shows "flog2 a < int k"
proof (rule ccontr)
  assume "\<not> flog2 a < int k"
  then have k: "k \<le> nat (flog2 a)" and nn: "0 \<le> flog2 a" by simp_all
  have "(2::rat) ^ k \<le> 2 ^ nat (flog2 a)" using k by (rule power_increasing) simp
  also have "\<dots> = 2 powi flog2 a" using nn by (simp add: pow2_int_nat)
  also have "\<dots> \<le> a" using flog2_bounds [OF assms(1)] by simp
  finally show False using assms(2) by simp
qed

lemma round_mag_of_nat:
  assumes "0 < n" and "n < 2 ^ 53"
  shows "round_mag (of_nat n) = of_nat n"
proof -
  let ?a = "of_nat n :: rat"
  have "?a < 2 ^ 53" using assms(2) by (simp add: of_nat_less_iff [symmetric])
  then have "flog2 ?a < 53" using flog2_less [of ?a 53] assms(1) by simp
  then have e: "ulp_exp ?a \<le> 0" by (simp add: ulp_exp_def)
  define k where "k = nat (- ulp_exp ?a)"
  have p: "(2::rat) powi ulp_exp ?a = inverse (2 ^ k)"
    using e by (simp add: k_def power_int_def power_one_over inverse_eq_divide)
  have q: "?a / 2 powi ulp_exp ?a = of_int (int n * 2 ^ k)"
    by (simp add: p divide_inverse)
  have r: "round_half_even (?a * 2 ^ k) = int n * 2 ^ k"
    using round_half_even_of_int [of "int n * 2 ^ k"] by simp
  show ?thesis unfolding round_mag_def q by (simp add: p r)
qed

lemma round_double_of_nat:
  assumes "n < 2 ^ 53"
  shows "round_double False (of_nat n) = Fin (of_nat n)"
proof (cases "n = 0")
  case True
  then show ?thesis by (simp add: round_double_def round_mag_def signed_zero_def)
next
  case False
  have "(2::nat) ^ 53 \<le> 2 ^ 1024" by (rule power_increasing) simp_all
  with assms have "n < 2 ^ 1024" by linarith
  then have "(of_nat n :: rat) < 2 ^ 1024" by (simp add: of_nat_less_iff [symmetric])
  with False assms show ?thesis by (simp add: round_double_def round_mag_of_nat)
qed

lemma pow2_le_iff: "(2::rat) powi m \<le> 2 powi n \<longleftrightarrow> m \<le> n"
  by (meson linorder_not_le one_less_numeral_iff power_int_increasing power_int_strict_increasing
      semiring_norm(76) less_le_not_le one_le_numeral)

lemma pow2_less_iff: "(2::rat) powi m < 2 powi n \<longleftrightarrow> m < n"
  using pow2_le_iff [of n m] by (simp add: not_le [symmetric])

lemma pow2_pos: "0 < (2::rat) powi k"
  by simp

lemma flog2_unique:
  assumes "2 powi k \<le> a" and "a < 2 powi (k + 1)"
  shows "flog2 a = k"
proof -
  have a0: "0 < a" using assms(1) pow2_pos [of k] by linarith
  from flog2_bounds [OF a0] have lo: "2 powi flog2 a \<le> a" and hi: "a < 2 powi (flog2 a + 1)" by simp_all
  have "\<not> flog2 a < k"
  proof
    assume "flog2 a < k"
    then have "2 powi (flog2 a + 1) \<le> (2::rat) powi k" by (simp add: pow2_le_iff)
    with hi assms(1) show False by linarith
  qed
  moreover have "\<not> k < flog2 a"
  proof
    assume "k < flog2 a"
    then have "2 powi (k + 1) \<le> (2::rat) powi flog2 a" by (simp add: pow2_le_iff)
    with lo assms(2) show False by linarith
  qed
  ultimately show ?thesis by simp
qed

lemma is_int_rat_of_int_mult: "0 \<le> k \<Longrightarrow> is_int_rat (of_int z * 2 powi k)"
proof -
  assume "0 \<le> k"
  then have e: "(2::rat) powi k = of_int (2 ^ nat k)" by (simp add: pow2_int_nat)
  show ?thesis unfolding is_int_rat_def e of_int_mult [symmetric] floor_of_int by (rule refl)
qed

lemma round_half_even_ge: "of_int n \<le> x \<Longrightarrow> n \<le> round_half_even x"
proof -
  assume "of_int n \<le> x"
  then have "n \<le> \<lfloor>x\<rfloor>" by (simp add: le_floor_iff)
  then show ?thesis unfolding round_half_even_def Let_def by auto
qed

lemma round_half_even_le: "x \<le> of_int n \<Longrightarrow> round_half_even x \<le> n"
proof -
  assume x: "x \<le> of_int n"
  show ?thesis
  proof (cases "x = of_int n")
    case True
    then show ?thesis by simp
  next
    case False
    with x have "\<lfloor>x\<rfloor> < n" by (metis floor_less_iff le_less)
    then show ?thesis unfolding round_half_even_def Let_def by auto
  qed
qed

lemma round_half_even_small: "0 \<le> x \<Longrightarrow> x < 1/2 \<Longrightarrow> round_half_even x = 0"
proof -
  assume "0 \<le> x" "x < 1/2"
  then have "\<lfloor>x\<rfloor> = 0" by (simp add: floor_eq_iff)
  with \<open>x < 1/2\<close> show ?thesis by (simp add: round_half_even_def Let_def)
qed

lemma round_mag_zero [simp]: "round_mag 0 = 0"
  by (simp add: round_mag_def)

lemma round_mag_repr:
  assumes a0: "0 < a" and nz: "round_mag a \<noteq> 0"
  shows "0 < round_mag a \<and> round_mag a \<le> 2 powi (flog2 a + 1)
    \<and> is_int_rat (round_mag a / 2 powi ulp_exp (round_mag a))"
proof -
  define f where "f = flog2 a"
  define e where "e = ulp_exp a"
  define z where "z = round_half_even (a / 2 powi e)"
  have v: "round_mag a = of_int z * 2 powi e" by (simp add: round_mag_def z_def e_def)
  have ef: "e = max (f - 52) (-1074)" by (simp add: e_def f_def ulp_exp_def)
  have lo: "2 powi f \<le> a" and hi: "a < 2 powi (f + 1)"
    using flog2_bounds [OF a0] by (simp_all add: f_def)
  have x0: "0 \<le> a / 2 powi e" using a0 by simp
  have z0: "0 \<le> z" unfolding z_def by (rule round_half_even_nonneg [OF x0])
  have zpos: "0 < z" using nz z0 v by (cases "z = 0") simp_all
  have xhi: "a / 2 powi e < 2 powi (f + 1 - e)"
    using hi by (simp add: power_int_diff divide_strict_right_mono)
  have N: "e \<le> f + 1"
  proof (rule ccontr)
    assume "\<not> e \<le> f + 1"
    then have "f + 1 - e \<le> -1" by simp
    then have le: "(2::rat) powi (f + 1 - e) \<le> 2 powi -1" by (simp only: pow2_le_iff)
    have h: "(2::rat) powi -1 = 1/2" by (simp add: power_int_minus)
    from xhi le h have "a / 2 powi e < 1/2" by linarith
    with x0 have "z = 0" unfolding z_def by (rule round_half_even_small)
    with zpos show False by simp
  qed
  have pw: "(2::rat) powi (f + 1 - e) = of_int (2 ^ nat (f + 1 - e))" using N by (simp add: pow2_int_nat)
  have zle: "z \<le> 2 ^ nat (f + 1 - e)"
  proof -
    from xhi pw have "a / 2 powi e \<le> of_int (2 ^ nat (f + 1 - e))" by simp
    then show ?thesis unfolding z_def by (rule round_half_even_le)
  qed
  have vle: "round_mag a \<le> 2 powi (f + 1)"
  proof -
    have "(of_int z :: rat) \<le> of_int (2 ^ nat (f + 1 - e))" using zle by (simp only: of_int_le_iff)
    then have "of_int z * 2 powi e \<le> of_int (2 ^ nat (f + 1 - e)) * (2::rat) powi e"
      by (rule mult_right_mono) simp
    also have "\<dots> = 2 powi (f + 1 - e) * 2 powi e" by (simp only: pw)
    also have "\<dots> = 2 powi (f + 1)" by (simp add: power_int_add [symmetric])
    finally show ?thesis by (simp add: v)
  qed
  have vge: "2 powi e \<le> round_mag a"
  proof -
    have "1 \<le> (of_int z :: rat)" using zpos by simp
    then have "1 * 2 powi e \<le> of_int z * (2::rat) powi e" by (rule mult_right_mono) simp
    then show ?thesis by (simp add: v)
  qed
  define w where "w = round_mag a"
  have w0: "0 < w" using vge pow2_pos [of e] unfolding w_def by linarith
  define fv where "fv = flog2 w"
  have wlo: "2 powi fv \<le> w" and whi: "w < 2 powi (fv + 1)"
    using flog2_bounds [OF w0] by (simp_all add: fv_def)
  have fv1: "fv \<le> f + 1"
    using wlo vle by (simp add: w_def pow2_le_iff [symmetric] f_def)
  have fve: "e < fv + 1"
    using vge whi by (simp add: w_def pow2_less_iff [symmetric])
  have ev: "ulp_exp w = max (fv - 52) (-1074)" by (simp add: ulp_exp_def fv_def)
  have "is_int_rat (w / 2 powi ulp_exp w)"
  proof (cases "fv \<le> f")
    case True
    then have le: "ulp_exp w \<le> e" using ev ef by simp
    have "w / 2 powi ulp_exp w = of_int z * 2 powi (e - ulp_exp w)"
      by (simp add: w_def v power_int_diff)
    then show ?thesis using le by (simp add: is_int_rat_of_int_mult)
  next
    case False
    with fv1 have fv: "fv = f + 1" by simp
    have w: "w = 2 powi (f + 1)" using wlo vle fv by (simp add: w_def)
    have ge: "ulp_exp w \<le> f + 1" using ev fv fve ef by simp
    have "w / 2 powi ulp_exp w = of_int 1 * 2 powi (f + 1 - ulp_exp w)"
      by (simp add: w power_int_diff)
    then show ?thesis using ge by (simp only: is_int_rat_of_int_mult)
  qed
  then show ?thesis using w0 vle by (simp add: w_def f_def)
qed

lemma round_double_is_double: "0 \<le> a \<Longrightarrow> is_double (round_double neg a)"
proof (cases "round_mag a = 0")
  case True
  then show ?thesis by (simp add: round_double_def signed_zero_def)
next
  case False
  assume "0 \<le> a"
  with False have "0 < a" by (cases "a = 0") simp_all
  from round_mag_repr [OF this False]
  have "0 < round_mag a" and "is_int_rat (round_mag a / 2 powi ulp_exp (round_mag a))" by simp_all
  then show ?thesis by (simp add: round_double_def signed_inf_def Let_def)
qed

lemma round_half_even_ge_tie: "of_int n - 1/2 \<le> x \<Longrightarrow> even n \<Longrightarrow> n \<le> round_half_even x"
proof -
  assume x: "of_int n - 1/2 \<le> x" and ev: "even n"
  have fl: "n - 1 \<le> \<lfloor>x\<rfloor>" using x by (simp add: le_floor_iff)
  show ?thesis
  proof (cases "n \<le> \<lfloor>x\<rfloor>")
    case True
    then show ?thesis unfolding round_half_even_def Let_def by auto
  next
    case False
    with fl have f: "\<lfloor>x\<rfloor> = n - 1" by simp
    with x have "1/2 \<le> x - of_int \<lfloor>x\<rfloor>" by simp
    moreover have "odd \<lfloor>x\<rfloor>" using f ev by simp
    ultimately show ?thesis unfolding round_half_even_def Let_def using f by auto
  qed
qed

lemma round_half_even_le_below_tie: "x < of_int n - 1/2 \<Longrightarrow> round_half_even x \<le> n - 1"
proof -
  assume x: "x < of_int n - 1/2"
  then have "x < of_int n" by linarith
  then have fl: "\<lfloor>x\<rfloor> \<le> n - 1" by (simp add: floor_less_iff)
  show ?thesis
  proof (cases "\<lfloor>x\<rfloor> = n - 1")
    case True
    with x have "x - of_int \<lfloor>x\<rfloor> < 1/2" by simp
    with True show ?thesis unfolding round_half_even_def Let_def by simp
  next
    case False
    with fl have "\<lfloor>x\<rfloor> \<le> n - 2" by simp
    then show ?thesis unfolding round_half_even_def Let_def by auto
  qed
qed

lemma round_mag_ge_pow:
  assumes "2 powi k \<le> a" and "-1074 \<le> k"
  shows "2 powi k \<le> round_mag a"
proof -
  have a0: "0 < a" using assms(1) pow2_pos [of k] by linarith
  define f where "f = flog2 a"
  define e where "e = ulp_exp a"
  have lo: "2 powi f \<le> a" and hi: "a < 2 powi (f + 1)" using flog2_bounds [OF a0] by (simp_all add: f_def)
  have "2 powi k < (2::rat) powi (f + 1)" using assms(1) hi by linarith
  then have kf: "k \<le> f" by (simp add: pow2_less_iff)
  have fe: "e \<le> f" and e0: "-1074 \<le> e" using kf assms(2) by (simp_all add: e_def f_def ulp_exp_def)
  have pw: "(2::rat) powi (f - e) = of_int (2 ^ nat (f - e))" using fe by (simp add: pow2_int_nat)
  have "2 powi (f - e) \<le> a / 2 powi e" using lo by (simp add: power_int_diff divide_right_mono)
  then have "2 ^ nat (f - e) \<le> round_half_even (a / 2 powi e)"
    using pw by (intro round_half_even_ge) simp
  then have "(of_int (2 ^ nat (f - e)) :: rat) \<le> of_int (round_half_even (a / 2 powi e))"
    by (simp only: of_int_le_iff)
  then have "of_int (2 ^ nat (f - e)) * 2 powi e \<le> of_int (round_half_even (a / 2 powi e)) * (2::rat) powi e"
    by (rule mult_right_mono) simp
  also have "\<dots> = round_mag a" by (simp add: round_mag_def e_def)
  finally have le: "2 ^ nat (f - e) * 2 powi e \<le> round_mag a" by simp
  have eq0: "(2::rat) powi (f - e) * 2 powi e = 2 powi f" by (simp add: power_int_add [symmetric])
  have "(2::rat) ^ nat (f - e) * 2 powi e = 2 powi f" using eq0 pw by simp
  with le have "2 powi f \<le> round_mag a" by simp
  moreover have "(2::rat) powi k \<le> 2 powi f" using kf by (simp add: pow2_le_iff)
  ultimately show ?thesis by linarith
qed

lemma flog2_1023:
  assumes "2 ^ 1023 \<le> a" and "a < 2 ^ 1024"
  shows "flog2 a = 1023" and "ulp_exp a = 971"
proof -
  show f: "flog2 a = 1023" using assms by (intro flog2_unique) simp_all
  then show "ulp_exp a = 971" by (simp add: ulp_exp_def)
qed

lemma round_mag_overflow_iff:
  assumes a0: "0 \<le> a"
  shows "2 ^ 1024 \<le> round_mag a \<longleftrightarrow> 2 ^ 1024 - 2 ^ 970 \<le> a"
proof
  assume v: "2 ^ 1024 \<le> round_mag a"
  show "2 ^ 1024 - 2 ^ 970 \<le> a"
  proof (rule ccontr)
    assume "\<not> 2 ^ 1024 - 2 ^ 970 \<le> a"
    then have aT: "a < 2 ^ 1024 - 2 ^ 970" by simp
    have "round_mag a < 2 ^ 1024"
    proof (cases "round_mag a = 0")
      case True
      then show ?thesis by simp
    next
      case nz: False
      with a0 have apos: "0 < a" by (cases "a = 0") simp_all
      from round_mag_repr [OF apos nz] have vle: "round_mag a \<le> 2 powi (flog2 a + 1)" by simp
      have "a < 2 ^ 1024" using aT by simp
      then have f: "flog2 a < 1024" using flog2_less [OF apos, of 1024] by simp
      show ?thesis
      proof (cases "flog2 a \<le> 1022")
        case True
        then have p1: "(2::rat) powi (flog2 a + 1) \<le> 2 powi 1023" by (subst pow2_le_iff) simp
        have p2: "(2::rat) powi 1023 < 2 ^ 1024" by simp
        from vle p1 p2 show ?thesis by linarith
      next
        case False
        with f have f1023: "flog2 a = 1023" by simp
        have "2 powi flog2 a \<le> a" using flog2_bounds [OF apos] by simp
        then have "2 ^ 1023 \<le> a" using f1023 by simp
        with \<open>a < 2 ^ 1024\<close> have e: "ulp_exp a = 971" by (simp add: flog2_1023(2))
        have "a / 2 ^ 971 < of_int (2 ^ 53) - 1/2" using aT by (simp add: pos_divide_less_eq)
        then have "round_half_even (a / 2 ^ 971) \<le> 2 ^ 53 - 1" by (rule round_half_even_le_below_tie)
        then have "(of_int (round_half_even (a / 2 ^ 971)) :: rat) \<le> 2 ^ 53 - 1"
          by (metis of_int_le_iff of_int_numeral of_int_power of_int_1 of_int_diff)
        then have "of_int (round_half_even (a / 2 ^ 971)) * 2 ^ 971 \<le> (2 ^ 53 - 1) * (2::rat) ^ 971"
          by (rule mult_right_mono) simp
        then show ?thesis by (simp add: round_mag_def e)
      qed
    qed
    with v show False by simp
  qed
next
  assume aT: "2 ^ 1024 - 2 ^ 970 \<le> a"
  show "2 ^ 1024 \<le> round_mag a"
  proof (cases "2 ^ 1024 \<le> a")
    case True
    then show ?thesis using round_mag_ge_pow [of 1024 a] by simp
  next
    case False
    then have hi: "a < 2 ^ 1024" by simp
    have "2 ^ 1023 \<le> a" using aT by simp
    from this hi have e: "ulp_exp a = 971" by (rule flog2_1023(2))
    have "of_int (2 ^ 53) - 1/2 \<le> a / 2 ^ 971" using aT by (simp add: pos_le_divide_eq)
    then have "2 ^ 53 \<le> round_half_even (a / 2 ^ 971)" by (rule round_half_even_ge_tie) simp
    then have "(2::rat) ^ 53 \<le> of_int (round_half_even (a / 2 ^ 971))"
      by (metis of_int_le_iff of_int_numeral of_int_power)
    then have "2 ^ 53 * (2::rat) ^ 971 \<le> of_int (round_half_even (a / 2 ^ 971)) * 2 ^ 971"
      by (rule mult_right_mono) simp
    then show ?thesis by (simp add: round_mag_def e)
  qed
qed

lemma round_mag_double:
  assumes "is_int_rat (a / 2 powi ulp_exp a)"
  shows "round_mag a = a"
proof -
  have q: "a / 2 powi ulp_exp a = of_int \<lfloor>a / 2 powi ulp_exp a\<rfloor>"
    using assms unfolding is_int_rat_def by (rule sym)
  show ?thesis unfolding round_mag_def
    by (subst q) (simp only: round_half_even_of_int, simp add: q [symmetric])
qed

lemma round_double_fixed: "is_double (Fin v) \<Longrightarrow> round_double (v < 0) \<bar>v\<bar> = Fin v"
proof (cases "v = 0")
  case True
  then show ?thesis by (simp add: round_double_def signed_zero_def)
next
  case False
  assume "is_double (Fin v)"
  with False have lt: "\<bar>v\<bar> < 2 ^ 1024" and i: "is_int_rat (\<bar>v\<bar> / 2 powi ulp_exp \<bar>v\<bar>)" by simp_all
  have "round_mag \<bar>v\<bar> = \<bar>v\<bar>" using i by (rule round_mag_double)
  with False lt show ?thesis by (simp add: round_double_def Let_def)
qed

lemma literal_value_is_double: "is_double (literal_value l)"
  by (cases l) (simp_all add: round_double_is_double signed_inf_def)

lemma fmag_nonneg: "0 \<le> fmag x"
  by (cases x) simp_all

lemma fmul_is_double: "is_double (fmul x y)"
  by (simp add: fmul_def Let_def signed_inf_def round_double_is_double fmag_nonneg)

section \<open>Rounding facts used by the window's properties\<close>

text \<open>The double nearest to a positive exact value is within half a unit in the last
  place: a relative error of at most \<open>2\<^sup>-\<^sup>5\<^sup>3\<close>, or the absolute error
  \<open>2\<^sup>-\<^sup>1\<^sup>0\<^sup>7\<^sup>5\<close> in the subnormal range.\<close>

lemma round_double_error:
  assumes "0 < a" and "round_double neg a = Fin v"
  shows "\<bar>\<bar>v\<bar> - a\<bar> \<le> max (a / 2 ^ 53) (2 powi -1075)"
  using round_mag_error [OF assms(1)] round_double_Fin_abs [OF _ assms(2)] assms(1) by simp

text \<open>Rounding overflows to an infinity exactly from IEEE's threshold
  \<open>2\<^sup>1\<^sup>0\<^sup>2\<^sup>4 - 2\<^sup>9\<^sup>7\<^sup>0\<close>, halfway between the largest double and
  \<open>2\<^sup>1\<^sup>0\<^sup>2\<^sup>4\<close>.\<close>

lemma round_double_inf_iff:
  assumes "0 \<le> a"
  shows "is_inf (round_double neg a) \<longleftrightarrow> 2 ^ 1024 - 2 ^ 970 \<le> a"
proof -
  have "is_inf (round_double neg a) \<longleftrightarrow> 2 ^ 1024 \<le> round_mag a"
    by (cases neg) (auto simp: round_double_def Let_def signed_zero_def signed_inf_def)
  with round_mag_overflow_iff [OF assms] show ?thesis by simp
qed

lemma round_double_finite:
  assumes "0 \<le> a" and "a < 2 ^ 1024 - 2 ^ 970"
  shows "\<exists>v. round_double False a = Fin v \<and> 0 \<le> v"
proof -
  have "\<not> 2 ^ 1024 \<le> round_mag a" using round_mag_overflow_iff [OF assms(1)] assms(2) by simp
  then show ?thesis
    using round_mag_nonneg [OF assms(1)]
    by (auto simp: round_double_def Let_def signed_zero_def)
qed

lemma fmul_one:
  assumes "is_double (Fin v)"
  shows "fmul (Fin v) (Fin 1) = Fin v"
  using round_double_fixed [OF assms] by (simp add: fmul_def)

end
