(* ===== verification/Py_Objects.thy ===== *)
theory Py_Objects
  imports Py_Float
begin

text \<open>
  The Python objects the program reads from the exchange-rate service: what
  \<open>response.json()\<close> returns (\<open>None\<close>, \<open>bool\<close>, \<open>int\<close>, \<open>float\<close>, \<open>str\<close>,
  \<open>list\<close>, \<open>dict\<close> with \<open>str\<close> keys), and the operations of
  \<open>src/CurrencyConverter.py\<close> on them: \<open>d.get(k, default)\<close> (lines 54, 57, 131,
  134), \<open>.keys()\<close> (line 57), \<open>k in d\<close> (line 135), \<open>d[k]\<close> (line 138) and
  \<open>amount * rate\<close> with a float on the left (line 99). Each raises what CPython
  raises when the object has another type than the code expects, with CPython's
  message. A \<open>dict\<close> is the list of its items in insertion order; a key is looked up
  at its first item, and \<open>keys()\<close> lists each key once.
\<close>

section \<open>Objects\<close>

datatype pyval =
    PyNone | PyBool bool | PyInt int | PyFloat pyfloat | PyStr string
  | PyList "pyval list" | PyDict "(string \<times> pyval) list"

fun py_typename :: "pyval \<Rightarrow> string" where
  "py_typename PyNone = ''NoneType''"
| "py_typename (PyBool _) = ''bool''"
| "py_typename (PyInt _) = ''int''"
| "py_typename (PyFloat _) = ''float''"
| "py_typename (PyStr _) = ''str''"
| "py_typename (PyList _) = ''list''"
| "py_typename (PyDict _) = ''dict''"

definition quoted :: "string \<Rightarrow> string" where
  "quoted s = CHR 0x27 # s @ [CHR 0x27]"

definition no_attribute :: "pyval \<Rightarrow> string \<Rightarrow> exc" where
  "no_attribute v a = Exc AttributeError (quoted (py_typename v) @ '' object has no attribute '' @ quoted a)"

section \<open>Dictionary operations\<close>

text \<open>\<open>v.get(k, default)\<close>.\<close>

definition py_get :: "pyval \<Rightarrow> string \<Rightarrow> pyval \<Rightarrow> pyval pyres" where
  "py_get v k dflt = (case v of
       PyDict kvs \<Rightarrow> Inr (case map_of kvs k of Some x \<Rightarrow> x | None \<Rightarrow> dflt)
     | _ \<Rightarrow> Inl (no_attribute v ''get''))"

text \<open>\<open>v.keys()\<close>, each key once, in insertion order.\<close>

definition py_keys :: "pyval \<Rightarrow> string list pyres" where
  "py_keys v = (case v of
       PyDict kvs \<Rightarrow> Inr (remdups (map fst kvs))
     | _ \<Rightarrow> Inl (no_attribute v ''keys''))"

definition is_substring :: "string \<Rightarrow> string \<Rightarrow> bool" where
  "is_substring x s \<longleftrightarrow> list_ex (\<lambda>i. take (length x) (drop i s) = x) [0..<Suc (length s)]"

text \<open>\<open>k in v\<close> for a \<open>str\<close> \<open>k\<close>: key membership for a dict, element equality for a
  list, substring for a str; the other types are not iterable.\<close>

definition py_contains :: "pyval \<Rightarrow> string \<Rightarrow> bool pyres" where
  "py_contains v k = (case v of
       PyDict kvs \<Rightarrow> Inr (k \<in> set (map fst kvs))
     | PyList xs \<Rightarrow> Inr (PyStr k \<in> set xs)
     | PyStr s \<Rightarrow> Inr (is_substring k s)
     | _ \<Rightarrow> Inl (Exc TypeError (''argument of type '' @ quoted (py_typename v) @ '' is not iterable'')))"

text \<open>\<open>v[k]\<close> for a \<open>str\<close> \<open>k\<close>.\<close>

definition py_getitem :: "pyval \<Rightarrow> string \<Rightarrow> pyval pyres" where
  "py_getitem v k = (case v of
       PyDict kvs \<Rightarrow> (case map_of kvs k of Some x \<Rightarrow> Inr x | None \<Rightarrow> Inl (Exc KeyError (py_repr k)))
     | PyList _ \<Rightarrow> Inl (Exc TypeError ''list indices must be integers or slices, not str'')
     | PyStr _ \<Rightarrow> Inl (Exc TypeError (''string indices must be integers, not '' @ quoted ''str''))
     | _ \<Rightarrow> Inl (Exc TypeError (quoted (py_typename v) @ '' object is not subscriptable'')))"

section \<open>\<open>float * object\<close>\<close>

text \<open>
  \<open>float.__mul__\<close> converts an \<open>int\<close> (a \<open>bool\<close> is one) to a float, raising
  \<open>OverflowError\<close> when it is too large; a \<open>str\<close> or \<open>list\<close> on the right is a
  sequence repeat by a float, and every other type has no product with a float.
\<close>

definition py_mul_float :: "pyfloat \<Rightarrow> pyval \<Rightarrow> pyfloat pyres" where
  "py_mul_float x v = (case v of
       PyFloat y \<Rightarrow> Inr (fmul x y)
     | PyInt i \<Rightarrow> (let y = float_of_int i in
                    if is_inf y then Inl (Exc OverflowError ''int too large to convert to float'')
                    else Inr (fmul x y))
     | PyBool b \<Rightarrow> Inr (fmul x (Fin (if b then 1 else 0)))
     | PyStr _ \<Rightarrow> Inl (Exc TypeError (''can'' @ CHR 0x27 # ''t multiply sequence by non-int of type '' @ quoted ''float''))
     | PyList _ \<Rightarrow> Inl (Exc TypeError (''can'' @ CHR 0x27 # ''t multiply sequence by non-int of type '' @ quoted ''float''))
     | _ \<Rightarrow> Inl (Exc TypeError (''unsupported operand type(s) for *: '' @ quoted ''float'' @ '' and '' @ quoted (py_typename v))))"

section \<open>Properties\<close>

lemma py_get_dict [simp]:
  "py_get (PyDict kvs) k dflt = Inr (case map_of kvs k of Some x \<Rightarrow> x | None \<Rightarrow> dflt)"
  by (simp add: py_get_def)

lemma py_contains_dict [simp]: "py_contains (PyDict kvs) k = Inr (k \<in> set (map fst kvs))"
  by (simp add: py_contains_def)

lemma py_getitem_dict_Some [simp]: "map_of kvs k = Some x \<Longrightarrow> py_getitem (PyDict kvs) k = Inr x"
  by (simp add: py_getitem_def)

lemma py_mul_float_float [simp]: "py_mul_float x (PyFloat y) = Inr (fmul x y)"
  by (simp add: py_mul_float_def)

text \<open>What each operation raises.\<close>

lemma py_get_raises: "py_get v k d = Inl e \<Longrightarrow> exc_type e = AttributeError"
  by (cases v) (auto simp: py_get_def no_attribute_def)

lemma py_keys_raises: "py_keys v = Inl e \<Longrightarrow> exc_type e = AttributeError"
  by (cases v) (auto simp: py_keys_def no_attribute_def)

lemma py_contains_raises: "py_contains v k = Inl e \<Longrightarrow> exc_type e = TypeError"
  by (cases v) (auto simp: py_contains_def)

lemma py_getitem_found_raises:
  "py_contains v k = Inr True \<Longrightarrow> py_getitem v k = Inl e \<Longrightarrow> exc_type e = TypeError"
  by (cases v) (auto simp: py_contains_def py_getitem_def map_of_eq_None_iff split: option.splits)

lemma py_mul_float_raises:
  "py_mul_float x v = Inl e \<Longrightarrow> exc_type e = TypeError \<or> exc_type e = OverflowError"
  by (cases v) (auto simp: py_mul_float_def Let_def split: if_splits)

end
