(* ===== verification/Http_Requests.thy ===== *)
theory Http_Requests
  imports Py_Objects
begin

text \<open>
  The part of the \<open>requests\<close> library the program calls: \<open>requests.get(url,
  timeout=10)\<close>, \<open>response.raise_for_status()\<close> and \<open>response.json()\<close>
  (lines 50 to 52 and 127 to 129 of \<open>src/CurrencyConverter.py\<close>). The network is a
  parameter \<open>net\<close> that answers each URL with a response or with the exception
  \<open>requests.get\<close> raises (a connection error, a timeout after the 10 seconds, ...);
  a test double of the upstream service is such a function. The body of a response
  is what \<open>json.loads\<close> makes of it, or the decoder's error message.
\<close>

section \<open>Responses\<close>

datatype json_body = JsonOk pyval | JsonBad string

record response =
  status_code :: int
  reason :: string
  resp_url :: string
  body :: json_body

datatype http_outcome = Resp response | Fail exc

type_synonym net = "string \<Rightarrow> http_outcome"

section \<open>Operations\<close>

definition requests_get :: "net \<Rightarrow> string \<Rightarrow> response pyres" where
  "requests_get net url = (case net url of Resp r \<Rightarrow> Inr r | Fail e \<Rightarrow> Inl e)"

text \<open>\<open>Response.raise_for_status\<close>: \<open>HTTPError\<close> for the status codes 400 to 599,
  with the message requests builds.\<close>

definition raise_for_status :: "response \<Rightarrow> unit pyres" where
  "raise_for_status r =
    (let sc = status_code r;
         msg = (\<lambda>kind. show_nat (nat sc) @ '' '' @ kind @ '' Error: '' @ reason r @ '' for url: '' @ resp_url r)
     in if 400 \<le> sc \<and> sc < 500 then Inl (Exc HTTPError (msg ''Client''))
        else if 500 \<le> sc \<and> sc < 600 then Inl (Exc HTTPError (msg ''Server''))
        else Inr ())"

text \<open>\<open>Response.json\<close>: a body that does not decode raises
  \<open>requests.exceptions.JSONDecodeError\<close>, both a \<open>RequestException\<close> and a
  \<open>ValueError\<close>.\<close>

definition response_json :: "response \<Rightarrow> pyval pyres" where
  "response_json r = (case body r of JsonOk v \<Rightarrow> Inr v | JsonBad msg \<Rightarrow> Inl (Exc JSONDecodeError msg))"

text \<open>A successful upstream reply: status 200 and the decoded JSON \<open>data\<close>.\<close>

definition ok_response :: "string \<Rightarrow> pyval \<Rightarrow> response" where
  "ok_response url data = \<lparr>status_code = 200, reason = ''OK'', resp_url = url, body = JsonOk data\<rparr>"

section \<open>Properties\<close>

lemma raise_for_status_ok [simp]: "status_code r < 400 \<Longrightarrow> raise_for_status r = Inr ()"
  by (simp add: raise_for_status_def Let_def)

lemma raise_for_status_ok_response [simp]: "raise_for_status (ok_response url d) = Inr ()"
  by (simp add: ok_response_def)

lemma response_json_ok_response [simp]: "response_json (ok_response url d) = Inr d"
  by (simp add: ok_response_def response_json_def)

lemma raise_for_status_raises: "raise_for_status r = Inl e \<Longrightarrow> exc_type e = HTTPError"
  by (auto simp: raise_for_status_def Let_def split: if_splits)

lemma response_json_raises: "response_json r = Inl e \<Longrightarrow> exc_type e = JSONDecodeError"
  by (auto simp: response_json_def split: json_body.splits)

end
