(* ===== verification/Rate_Provider.thy ===== *)
theory Rate_Provider
  imports Http_Requests
begin

text \<open>
  The Rate Provider: \<open>CurrencyConverterApp.get_exchange_rate\<close> (lines 120 to 143
  of \<open>src/CurrencyConverter.py\<close>). It asks the service for the rates based on the
  source currency and returns the one of the target currency. Its \<open>try\<close> body is
  \<open>get_exchange_rate_body\<close>; its two handlers turn a \<open>RequestException\<close> into
  \<open>RuntimeError("HTTP error: ...")\<close> and a \<open>ValueError\<close> into
  \<open>RuntimeError("Data error: ...")\<close>, in that order, and let every other exception
  through. The URLs requested are returned beside the result, so that a caller can
  count the requests.
\<close>

section \<open>Definitions\<close>

definition api_prefix :: string where
  "api_prefix = ''https://v6.exchangerate-api.com/v6/4b5011b8eaf105df7e245aad/latest/''"

definition rate_url :: "string \<Rightarrow> string" where
  "rate_url from_currency = api_prefix @ from_currency"

definition get_exchange_rate_body :: "net \<Rightarrow> string \<Rightarrow> string \<Rightarrow> pyval pyres" where
  "get_exchange_rate_body net from_currency to_currency =
    (case requests_get net (rate_url from_currency) of Inl e \<Rightarrow> Inl e | Inr response \<Rightarrow>
     case raise_for_status response of Inl e \<Rightarrow> Inl e | Inr _ \<Rightarrow>
     case response_json response of Inl e \<Rightarrow> Inl e | Inr data \<Rightarrow>
     case py_get data ''result'' PyNone of Inl e \<Rightarrow> Inl e | Inr result \<Rightarrow>
     if result \<noteq> PyStr ''success'' then Inl (Exc RuntimeError ''Currency not available'') else
     case py_get data ''conversion_rates'' (PyDict []) of Inl e \<Rightarrow> Inl e | Inr rates \<Rightarrow>
     case py_contains rates to_currency of Inl e \<Rightarrow> Inl e | Inr found \<Rightarrow>
     if \<not> found then Inl (Exc ValueError (''Currency '' @ to_currency @ '' not supported.''))
     else py_getitem rates to_currency)"

definition get_exchange_rate :: "net \<Rightarrow> string \<Rightarrow> string \<Rightarrow> pyval pyres \<times> string list" where
  "get_exchange_rate net from_currency to_currency =
    (let r = (case get_exchange_rate_body net from_currency to_currency of
                Inl e \<Rightarrow>
                  if isinstance e RequestException then Inl (Exc RuntimeError (''HTTP error: '' @ exc_str e))
                  else if isinstance e ValueError then Inl (Exc RuntimeError (''Data error: '' @ exc_str e))
                  else Inl e
              | Inr rate \<Rightarrow> Inr rate)
     in (r, [rate_url from_currency]))"

text \<open>The part of \<open>initialize_currencies\<close> (lines 48 to 57) that asks the service
  for the supported currencies, up to the key list of its rate table; the code uses the
  literal URL \<open>api_prefix @ ''USD''\<close>.\<close>

definition currencies_url :: string where
  "currencies_url = api_prefix @ ''USD''"

definition fetch_currencies :: "net \<Rightarrow> string list pyres" where
  "fetch_currencies net =
    (case requests_get net currencies_url of Inl e \<Rightarrow> Inl e | Inr response \<Rightarrow>
     case raise_for_status response of Inl e \<Rightarrow> Inl e | Inr _ \<Rightarrow>
     case response_json response of Inl e \<Rightarrow> Inl e | Inr data \<Rightarrow>
     case py_get data ''result'' PyNone of Inl e \<Rightarrow> Inl e | Inr result \<Rightarrow>
     if result \<noteq> PyStr ''success''
     then Inl (Exc RuntimeError ''API error: Unable to fetch currency list.'') else
     case py_get data ''conversion_rates'' (PyDict []) of Inl e \<Rightarrow> Inl e | Inr rates \<Rightarrow>
     py_keys rates)"

text \<open>The reply of a working service for base currency \<open>from\<close>: the decoded JSON
  \<open>{"result": "success", "conversion_rates": rates}\<close>.\<close>

definition rates_reply :: "(string \<times> pyval) list \<Rightarrow> pyval" where
  "rates_reply rates = PyDict [(''result'', PyStr ''success''), (''conversion_rates'', PyDict rates)]"

text \<open>A mocked service that answers every request with status 200 and the same rate
  table: the setting of the spec's end-to-end tests.\<close>

definition fixed_service :: "(string \<times> pyval) list \<Rightarrow> net" where
  "fixed_service rates = (\<lambda>u. Resp (ok_response u (rates_reply rates)))"

section \<open>Properties\<close>

lemma get_exchange_rate_requests [simp]:
  "snd (get_exchange_rate net f t) = [rate_url f]"
  by (simp add: get_exchange_rate_def Let_def)

lemma map_of_Some_key: "map_of kvs k = Some v \<Longrightarrow> k \<in> fst ` set kvs"
  by (force dest: map_of_SomeD)

text \<open>The path through the body when the service answers with a decoded JSON object.\<close>

lemma get_exchange_rate_body_dict:
  assumes "net (rate_url f) = Resp r" "status_code r < 400" "body r = JsonOk (PyDict kvs)"
  shows "get_exchange_rate_body net f t =
    (if map_of kvs ''result'' \<noteq> Some (PyStr ''success'')
     then Inl (Exc RuntimeError ''Currency not available'')
     else let rates = (case map_of kvs ''conversion_rates'' of Some x \<Rightarrow> x | None \<Rightarrow> PyDict []) in
       case py_contains rates t of Inl e \<Rightarrow> Inl e | Inr found \<Rightarrow>
       if \<not> found then Inl (Exc ValueError (''Currency '' @ t @ '' not supported.''))
       else py_getitem rates t)"
  using assms
  by (auto simp: get_exchange_rate_body_def requests_get_def response_json_def Let_def
      split: option.splits)

lemma get_exchange_rate_body_rates:
  assumes "net (rate_url f) = Resp r" "status_code r < 400" "body r = JsonOk (PyDict kvs)"
    and "map_of kvs ''result'' = Some (PyStr ''success'')"
    and "map_of kvs ''conversion_rates'' = Some (PyDict rates)"
  shows "get_exchange_rate_body net f t =
    (case map_of rates t of Some v \<Rightarrow> Inr v
     | None \<Rightarrow> Inl (Exc ValueError (''Currency '' @ t @ '' not supported.'')))"
  using assms
  by (auto simp: get_exchange_rate_body_dict map_of_Some_key map_of_eq_None_iff split: option.splits)

text \<open>An exception of the body is a transport failure, one of the service's or the
  decoder's errors, or one of the exceptions of the object operations.\<close>

lemma get_exchange_rate_body_raises:
  assumes "get_exchange_rate_body net f t = Inl e"
    and "\<And>e'. net (rate_url f) = Fail e' \<Longrightarrow> isinstance e' RequestException"
  shows "isinstance e RequestException \<or> exc_type e \<in> {HTTPError, JSONDecodeError, ValueError,
           RuntimeError, AttributeError, TypeError}"
  using assms
  by (auto simp: get_exchange_rate_body_def requests_get_def
      split: http_outcome.splits sum.splits if_splits
      dest: raise_for_status_raises response_json_raises py_get_raises py_contains_raises
            py_getitem_found_raises)

lemma isinstance_class: "isinstance e c \<longleftrightarrow> c \<in> set (exc_mro (exc_type e))"
  by (simp add: isinstance_def)

text \<open>
  C21. When the network fails only with \<open>requests\<close> exceptions, \<open>get_exchange_rate\<close>
  raises a \<open>RuntimeError\<close>, an \<open>AttributeError\<close> (the reply is not a JSON object) or
  a \<open>TypeError\<close> (the rate table is not a container, or not indexable by a
  currency code): never a \<open>ValueError\<close>, so the amount handler of
  \<open>convert_currency\<close> only ever sees the errors of \<open>float()\<close>.
\<close>

theorem get_exchange_rate_raises:
  assumes "\<And>e'. net (rate_url f) = Fail e' \<Longrightarrow> isinstance e' RequestException"
    and "fst (get_exchange_rate net f t) = Inl e"
  shows "exc_type e \<in> {RuntimeError, AttributeError, TypeError}"
proof -
  obtain e0 where body: "get_exchange_rate_body net f t = Inl e0"
    and conv: "e = (if isinstance e0 RequestException then Exc RuntimeError (''HTTP error: '' @ exc_str e0)
                 else if isinstance e0 ValueError then Exc RuntimeError (''Data error: '' @ exc_str e0)
                 else e0)"
    using assms(2) by (auto simp: get_exchange_rate_def Let_def split: sum.splits if_splits)
  have "isinstance e0 RequestException \<or> exc_type e0 \<in> {HTTPError, JSONDecodeError, ValueError,
           RuntimeError, AttributeError, TypeError}"
    by (rule get_exchange_rate_body_raises [OF body assms(1)])
  then show ?thesis
    using conv by (auto simp: isinstance_class)
qed

theorem get_exchange_rate_raises_witness:
  "fst (get_exchange_rate (\<lambda>_. Fail (Exc ReadTimeout ''timed out'')) ''USD'' ''EUR'')
     = Inl (Exc RuntimeError ''HTTP error: timed out'')
   \<and> exc_type (Exc RuntimeError ''HTTP error: timed out'') \<in> {RuntimeError, AttributeError, TypeError}"
proof -
  let ?net = "\<lambda>_::string. Fail (Exc ReadTimeout ''timed out'')"
  have h1: "\<And>e'. ?net (rate_url ''USD'') = Fail e' \<Longrightarrow> isinstance e' RequestException"
    by (auto simp: isinstance_def)
  have h2: "fst (get_exchange_rate ?net ''USD'' ''EUR'') = Inl (Exc RuntimeError ''HTTP error: timed out'')"
    by (simp add: get_exchange_rate_def get_exchange_rate_body_def requests_get_def isinstance_def)
  show ?thesis using get_exchange_rate_raises [OF h1 h2] h2 by simp
qed

text \<open>
  C22. A reply whose body is not JSON raises \<open>requests.exceptions.JSONDecodeError\<close>,
  which is both a \<open>RequestException\<close> and a \<open>ValueError\<close>: the first handler takes
  it, so the user reads \<open>HTTP error: \<close> and the decoder's message, not
  \<open>Data error\<close>.
\<close>

theorem get_exchange_rate_json_error:
  assumes "net (rate_url f) = Resp r" and "status_code r < 400" and "body r = JsonBad msg"
  shows "get_exchange_rate net f t = (Inl (Exc RuntimeError (''HTTP error: '' @ msg)), [rate_url f])"
  using assms
  by (simp add: get_exchange_rate_def get_exchange_rate_body_def requests_get_def response_json_def
      isinstance_def)

theorem get_exchange_rate_json_error_witness:
  "get_exchange_rate (\<lambda>u. Resp \<lparr>status_code = 200, reason = ''OK'', resp_url = u, body = JsonBad ''Expecting value''\<rparr>)
     ''USD'' ''EUR''
   = (Inl (Exc RuntimeError (''HTTP error: '' @ ''Expecting value'')), [rate_url ''USD''])"
  by (rule get_exchange_rate_json_error) simp+

lemma fetch_currencies_fixed_service:
  "fetch_currencies (fixed_service rates) = Inr (remdups (map fst rates))"
  by (simp add: fetch_currencies_def fixed_service_def requests_get_def ok_response_def
      response_json_def rates_reply_def py_keys_def)

lemma get_exchange_rate_fixed_service:
  "map_of rates to = Some v \<Longrightarrow> get_exchange_rate (fixed_service rates) fr to = (Inr v, [rate_url fr])"
  by (simp add: get_exchange_rate_def get_exchange_rate_body_def fixed_service_def requests_get_def
      ok_response_def response_json_def rates_reply_def Let_def map_of_Some_key)

end
