(* ===== verification/Qt_Widgets.thy ===== *)
theory Qt_Widgets
  imports Py_Base
begin

text \<open>
  The PyQt6 widgets the program drives, reduced to the state it reads and writes:
  a \<open>QComboBox\<close> is its item texts and current index (\<open>-1\<close> when none is
  current), a \<open>QLabel\<close> its text and visibility. The operations are the Qt methods
  \<open>src/CurrencyConverter.py\<close> calls: \<open>addItem\<close>, \<open>currentText\<close>,
  \<open>setCurrentIndex\<close>, \<open>setText\<close>, \<open>show\<close>, \<open>hide\<close>. A line edit and the
  results display are a plain \<^typ>\<open>string\<close> in the application state.
\<close>

section \<open>Combo boxes\<close>

record combo =
  items :: "string list"
  cur :: int

text \<open>\<open>QComboBox.addItem\<close> appends; the first item of an empty box becomes current.\<close>

definition addItem :: "string \<Rightarrow> combo \<Rightarrow> combo" where
  "addItem t c = c\<lparr>items := items c @ [t], cur := (if cur c = -1 then 0 else cur c)\<rparr>"

definition currentText :: "combo \<Rightarrow> string" where
  "currentText c = (if 0 \<le> cur c \<and> cur c < int (length (items c)) then items c ! nat (cur c) else [])"

text \<open>\<open>QComboBox.setCurrentIndex\<close>: an index out of range leaves no current item.\<close>

definition setCurrentIndex :: "int \<Rightarrow> combo \<Rightarrow> combo" where
  "setCurrentIndex i c = c\<lparr>cur := (if 0 \<le> i \<and> i < int (length (items c)) then i else -1)\<rparr>"

section \<open>Labels\<close>

record label =
  ltext :: string
  lvisible :: bool

text \<open>\<open>QLabel(self)\<close> followed by \<open>hide()\<close>, as the constructor does for each of its
  four message labels.\<close>

definition hidden_label :: label where
  "hidden_label = \<lparr>ltext = [], lvisible = False\<rparr>"

definition setText :: "string \<Rightarrow> label \<Rightarrow> label" where
  "setText t l = l\<lparr>ltext := t\<rparr>"

definition show_label :: "label \<Rightarrow> label" where
  "show_label l = l\<lparr>lvisible := True\<rparr>"

definition hide_label :: "label \<Rightarrow> label" where
  "hide_label l = l\<lparr>lvisible := False\<rparr>"

section \<open>Properties\<close>

lemma items_addItem [simp]: "items (addItem t c) = items c @ [t]"
  by (simp add: addItem_def)

lemma items_setCurrentIndex [simp]: "items (setCurrentIndex i c) = items c"
  by (simp add: setCurrentIndex_def)

lemma currentText_setCurrentIndex_0:
  "items c = t # ts \<Longrightarrow> currentText (setCurrentIndex 0 c) = t"
  by (simp add: setCurrentIndex_def currentText_def)

lemma lvisible_label_ops [simp]:
  "lvisible (setText t l) = lvisible l"
  "lvisible (show_label l) = True"
  "lvisible (hide_label l) = False"
  "ltext (setText t l) = t"
  "ltext (show_label l) = ltext l"
  "ltext (hide_label l) = ltext l"
  by (simp_all add: setText_def show_label_def hide_label_def)

end
