(* ===== verification/Converter_App.thy ===== *)
theory Converter_App
  imports Rate_Provider Qt_Widgets
begin

text \<open>
  The Conversion Service and its window: class \<open>CurrencyConverterApp\<close> of
  \<open>src/CurrencyConverter.py\<close>. The state \<open>app\<close> holds the widgets the code reads
  and writes (the amount field \<open>lineEdit\<close>, the two currency boxes, the results
  display and the four message labels made in \<open>__init__\<close>) and, as a ghost field,
  the URLs requested so far, in order. \<open>initialize_currencies\<close> (lines 44 to 66) and
  \<open>convert_currency\<close> (lines 68 to 118) are functions from a state to the next one,
  given the network's answers; a \<open>try\<close> block is a function that returns the state
  reached and the exception raised, if any, and its handlers a function of both.
\<close>

section \<open>State\<close>

record app =
  lineEdit :: string
  FromBox :: combo
  ToBox :: combo
  ResultsDisplay :: string
  amount_empty_error_label :: label
  conversion_successful :: label
  amount_invalid_error_label :: label
  currency_error_label :: label
  requested :: "string list"

text \<open>
  The window as \<open>Ui_MainWindow.setupUi\<close> leaves it (module \<open>Currency_ui\<close>, not part
  of the sources): an empty amount field, an empty display, and each currency box
  holding the placeholder item \<open>"Choose"\<close>, current.
\<close>

definition placeholder :: string where
  "placeholder = ''Choose''"

definition setupUi :: app where
  "setupUi = \<lparr>lineEdit = [], FromBox = \<lparr>items = [placeholder], cur = 0\<rparr>,
     ToBox = \<lparr>items = [placeholder], cur = 0\<rparr>, ResultsDisplay = [],
     amount_empty_error_label = hidden_label, conversion_successful = hidden_label,
     amount_invalid_error_label = hidden_label, currency_error_label = hidden_label,
     requested = []\<rparr>"

section \<open>Startup\<close>

definition add_currency :: "string \<Rightarrow> app \<Rightarrow> app" where
  "add_currency c s = s\<lparr>FromBox := addItem c (FromBox s), ToBox := addItem c (ToBox s)\<rparr>"

definition initialize_currencies :: "net \<Rightarrow> app \<Rightarrow> app" where
  "initialize_currencies net s0 =
    (let s = s0\<lparr>requested := requested s0 @ [currencies_url]\<rparr> in
     case fetch_currencies net of
       Inr currencies \<Rightarrow> fold add_currency (sort currencies) s
     | Inl e \<Rightarrow>
         if isinstance e RequestException
         then s\<lparr>ResultsDisplay := ''Error fetching currencies: '' @ exc_str e\<rparr>
         else s\<lparr>ResultsDisplay := ''Unexpected error: '' @ exc_str e\<rparr>)"

text \<open>\<open>__init__\<close> (lines 9 to 42): the four labels are made hidden, then the currencies
  are fetched. Connecting the button is the \<open>click\<close> rule of the session below.\<close>

definition init_state :: app where
  "init_state = setupUi\<lparr>amount_empty_error_label := hidden_label, conversion_successful := hidden_label,
     amount_invalid_error_label := hidden_label, currency_error_label := hidden_label\<rparr>"

definition app_init :: "net \<Rightarrow> app" where
  "app_init net = initialize_currencies net init_state"

section \<open>Conversion\<close>

definition clear_labels :: "app \<Rightarrow> app" where
  "clear_labels s = s\<lparr>amount_empty_error_label := hide_label (amount_empty_error_label s),
     amount_invalid_error_label := hide_label (amount_invalid_error_label s),
     currency_error_label := hide_label (currency_error_label s),
     conversion_successful := hide_label (conversion_successful s)\<rparr>"

definition result_html :: "pyfloat \<Rightarrow> string \<Rightarrow> string" where
  "result_html converted to_currency =
     ''<p style='' @ CHR 0x27 # ''text-align: center;'' @ CHR 0x27 # ''> '' @ fmt2 converted @ '' '' @ to_currency"

text \<open>Lines 100 to 110: show the result, reset the inputs, report success.\<close>

definition conversion_done :: "pyfloat \<Rightarrow> string \<Rightarrow> app \<Rightarrow> app" where
  "conversion_done converted to_currency s = s\<lparr>ResultsDisplay := result_html converted to_currency,
     lineEdit := [], FromBox := setCurrentIndex 0 (FromBox s), ToBox := setCurrentIndex 0 (ToBox s),
     conversion_successful := show_label (setText ''Conversion Successful!'' (conversion_successful s))\<rparr>"

text \<open>The \<open>try\<close> block, lines 85 to 110; \<open>return\<close> ends it without an exception.\<close>

definition convert_try :: "net \<Rightarrow> app \<Rightarrow> app \<times> exc option" where
  "convert_try net s =
    (case float_of_string (lineEdit s) of Inl e \<Rightarrow> (s, Some e) | Inr amount \<Rightarrow>
     let from_currency = currentText (FromBox s); to_currency = currentText (ToBox s) in
     if from_currency = placeholder \<or> to_currency = placeholder
     then (s\<lparr>currency_error_label :=
             show_label (setText ''Please select a currency.'' (currency_error_label s))\<rparr>, None)
     else
       (case get_exchange_rate net from_currency to_currency of (r, urls) \<Rightarrow>
        let s = s\<lparr>requested := requested s @ urls\<rparr> in
        case r of Inl e \<Rightarrow> (s, Some e) | Inr rate \<Rightarrow>
        case py_mul_float amount rate of Inl e \<Rightarrow> (s, Some e) | Inr converted \<Rightarrow>
        (conversion_done converted to_currency s, None)))"

text \<open>The handlers, lines 112 to 118, in their order; every exception of the model is
  an \<open>Exception\<close>, so the last handler takes all the others.\<close>

definition convert_except :: "exc \<Rightarrow> app \<Rightarrow> app" where
  "convert_except e s =
    (if isinstance e ValueError
     then s\<lparr>amount_invalid_error_label :=
            show_label (setText ''Invalid! Please enter a valid number.'' (amount_invalid_error_label s))\<rparr>
     else if isinstance e RuntimeError then s\<lparr>ResultsDisplay := exc_str e\<rparr>
     else s\<lparr>ResultsDisplay := ''Unexpected error: '' @ exc_str e\<rparr>)"

definition convert_currency :: "net \<Rightarrow> app \<Rightarrow> app" where
  "convert_currency net s0 =
    (let s = clear_labels s0 in
     if lineEdit s = []
     then s\<lparr>amount_empty_error_label :=
            show_label (setText ''Please enter an amount.'' (amount_empty_error_label s))\<rparr>
     else (case convert_try net s of
             (s', None) \<Rightarrow> s'
           | (s', Some e) \<Rightarrow> convert_except e s'))"

definition visible_messages :: "app \<Rightarrow> label list" where
  "visible_messages s = filter lvisible [amount_empty_error_label s, conversion_successful s,
     amount_invalid_error_label s, currency_error_label s]"

section \<open>Properties of the conversion\<close>

lemma clear_labels_fields [simp]:
  "lineEdit (clear_labels s) = lineEdit s"
  "FromBox (clear_labels s) = FromBox s"
  "ToBox (clear_labels s) = ToBox s"
  "ResultsDisplay (clear_labels s) = ResultsDisplay s"
  "requested (clear_labels s) = requested s"
  by (simp_all add: clear_labels_def)

lemma float_of_string_Nil: "float_of_string [] = Inl (Exc ValueError (''could not convert string to float: '' @ py_repr []))"
  by (simp add: float_of_string_def transform_decimal_space_def remove_underscores_def strip_spaces_def
      parse_float_literal_def parse_sign_def parse_decimal_def)

lemma float_of_string_raises: "float_of_string t = Inl e \<Longrightarrow> exc_type e = ValueError"
  by (auto simp: float_of_string_def Let_def split: option.splits)

lemma float_of_string_ok_nonempty: "float_of_string t = Inr a \<Longrightarrow> t \<noteq> []"
  by (auto simp: float_of_string_Nil)

lemma convert_currency_parse_error:
  assumes "lineEdit s \<noteq> []" and "float_of_string (lineEdit s) = Inl e"
  shows "convert_currency net s = convert_except e (clear_labels s)"
  using assms by (simp add: convert_currency_def convert_try_def)

lemma convert_currency_placeholder:
  assumes "float_of_string (lineEdit s) = Inr a"
    and "currentText (FromBox s) = placeholder \<or> currentText (ToBox s) = placeholder"
  shows "convert_currency net s = (clear_labels s)\<lparr>currency_error_label :=
     show_label (setText ''Please select a currency.'' (currency_error_label s))\<rparr>"
  using assms float_of_string_ok_nonempty [OF assms(1)]
  by (auto simp: convert_currency_def convert_try_def clear_labels_def)

text \<open>The path of a request: parse succeeded, both currencies are chosen.\<close>

lemma convert_currency_request:
  assumes "float_of_string (lineEdit s) = Inr a"
    and "currentText (FromBox s) = fr" "currentText (ToBox s) = to"
    and "fr \<noteq> placeholder" "to \<noteq> placeholder"
  shows "convert_currency net s =
    (let s1 = (clear_labels s)\<lparr>requested := requested s @ [rate_url fr]\<rparr> in
     case fst (get_exchange_rate net fr to) of
       Inl e \<Rightarrow> convert_except e s1
     | Inr rate \<Rightarrow> (case py_mul_float a rate of
                      Inl e \<Rightarrow> convert_except e s1
                    | Inr c \<Rightarrow> conversion_done c to s1))"
proof -
  have ne: "lineEdit s \<noteq> []" by (rule float_of_string_ok_nonempty [OF assms(1)])
  obtain r urls where g: "get_exchange_rate net fr to = (r, urls)" by (cases "get_exchange_rate net fr to")
  then have urls: "urls = [rate_url fr]" using get_exchange_rate_requests [of net fr to] by simp
  show ?thesis
    using assms ne g urls
    by (simp add: convert_currency_def convert_try_def Let_def split: sum.splits)
qed

lemma float_of_string_100: "float_of_string ''100'' = Inr (Fin 100)"
  by code_simp

lemma currentText_combo: "0 \<le> i \<Longrightarrow> i < int (length xs) \<Longrightarrow> currentText \<lparr>items = xs, cur = i\<rparr> = xs ! nat i"
  by (simp add: currentText_def)

text \<open>
  C1. A conversion with a number in the amount field, two chosen currencies and a
  service that answers with a rate table holding the target currency displays the
  amount times the rate, printed with two decimals, and the target code; it then
  resets the amount field and both boxes to their first item, shows
  "Conversion Successful!", and has made exactly one request, for the source
  currency's rates.
\<close>

theorem convert_currency_success:
  assumes "float_of_string (lineEdit s) = Inr amount"
    and "currentText (FromBox s) = fr" and "currentText (ToBox s) = to"
    and "fr \<noteq> placeholder" and "to \<noteq> placeholder"
    and "net (rate_url fr) = Resp r" and "status_code r < 400" and "body r = JsonOk (PyDict kvs)"
    and "map_of kvs ''result'' = Some (PyStr ''success'')"
    and "map_of kvs ''conversion_rates'' = Some (PyDict rates)"
    and "map_of rates to = Some (PyFloat rate)"
  shows "convert_currency net s = s\<lparr>lineEdit := [],
     FromBox := setCurrentIndex 0 (FromBox s), ToBox := setCurrentIndex 0 (ToBox s),
     ResultsDisplay := result_html (fmul amount rate) to,
     amount_empty_error_label := hide_label (amount_empty_error_label s),
     conversion_successful := show_label (setText ''Conversion Successful!'' (conversion_successful s)),
     amount_invalid_error_label := hide_label (amount_invalid_error_label s),
     currency_error_label := hide_label (currency_error_label s),
     requested := requested s @ [rate_url fr]\<rparr>"
proof -
  have "get_exchange_rate_body net fr to = Inr (PyFloat rate)"
    using get_exchange_rate_body_rates [where net = net and f = fr and r = r and kvs = kvs and
        rates = rates and t = to, OF assms(6-10)] assms(11) by simp
  then have "fst (get_exchange_rate net fr to) = Inr (PyFloat rate)"
    by (simp add: get_exchange_rate_def)
  then show ?thesis
    by (simp add: convert_currency_request [OF assms(1-5)] conversion_done_def clear_labels_def)
qed

theorem convert_currency_success_witness:
  "convert_currency (\<lambda>u. Resp (ok_response u (rates_reply [(''EUR'', PyFloat (Fin (5 / 4)))])))
     (setupUi\<lparr>lineEdit := ''100'', FromBox := \<lparr>items = [''Choose'', ''EUR'', ''USD''], cur = 2\<rparr>,
              ToBox := \<lparr>items = [''Choose'', ''EUR'', ''USD''], cur = 1\<rparr>\<rparr>)
   = (setupUi\<lparr>lineEdit := ''100'', FromBox := \<lparr>items = [''Choose'', ''EUR'', ''USD''], cur = 2\<rparr>,
              ToBox := \<lparr>items = [''Choose'', ''EUR'', ''USD''], cur = 1\<rparr>\<rparr>)\<lparr>lineEdit := [],
     FromBox := setCurrentIndex 0 (FromBox (setupUi\<lparr>lineEdit := ''100'', FromBox := \<lparr>items = [''Choose'', ''EUR'', ''USD''], cur = 2\<rparr>,
              ToBox := \<lparr>items = [''Choose'', ''EUR'', ''USD''], cur = 1\<rparr>\<rparr>)), ToBox := setCurrentIndex 0 (ToBox (setupUi\<lparr>lineEdit := ''100'', FromBox := \<lparr>items = [''Choose'', ''EUR'', ''USD''], cur = 2\<rparr>,
              ToBox := \<lparr>items = [''Choose'', ''EUR'', ''USD''], cur = 1\<rparr>\<rparr>)),
     ResultsDisplay := result_html (fmul (Fin 100) (Fin (5 / 4))) ''EUR'',
     amount_empty_error_label := hide_label (amount_empty_error_label (setupUi\<lparr>lineEdit := ''100'', FromBox := \<lparr>items = [''Choose'', ''EUR'', ''USD''], cur = 2\<rparr>,
              ToBox := \<lparr>items = [''Choose'', ''EUR'', ''USD''], cur = 1\<rparr>\<rparr>)),
     conversion_successful := show_label (setText ''Conversion Successful!'' (conversion_successful (setupUi\<lparr>lineEdit := ''100'', FromBox := \<lparr>items = [''Choose'', ''EUR'', ''USD''], cur = 2\<rparr>,
              ToBox := \<lparr>items = [''Choose'', ''EUR'', ''USD''], cur = 1\<rparr>\<rparr>))),
     amount_invalid_error_label := hide_label (amount_invalid_error_label (setupUi\<lparr>lineEdit := ''100'', FromBox := \<lparr>items = [''Choose'', ''EUR'', ''USD''], cur = 2\<rparr>,
              ToBox := \<lparr>items = [''Choose'', ''EUR'', ''USD''], cur = 1\<rparr>\<rparr>)),
     currency_error_label := hide_label (currency_error_label (setupUi\<lparr>lineEdit := ''100'', FromBox := \<lparr>items = [''Choose'', ''EUR'', ''USD''], cur = 2\<rparr>,
              ToBox := \<lparr>items = [''Choose'', ''EUR'', ''USD''], cur = 1\<rparr>\<rparr>)),
     requested := requested (setupUi\<lparr>lineEdit := ''100'', FromBox := \<lparr>items = [''Choose'', ''EUR'', ''USD''], cur = 2\<rparr>,
              ToBox := \<lparr>items = [''Choose'', ''EUR'', ''USD''], cur = 1\<rparr>\<rparr>) @ [rate_url ''USD'']\<rparr>"
  by (rule convert_currency_success [where kvs = "[(''result'', PyStr ''success''),
        (''conversion_rates'', PyDict [(''EUR'', PyFloat (Fin (5 / 4)))])]"])
     (simp add: float_of_string_100 currentText_def setupUi_def placeholder_def ok_response_def
        rates_reply_def)+

text \<open>
  C2. An empty amount field shows "Please enter an amount." and changes nothing else
  but the labels: no request is made, the display keeps its text.
\<close>

theorem convert_currency_empty_amount:
  assumes "lineEdit s = []"
  shows "convert_currency net s = (clear_labels s)\<lparr>amount_empty_error_label :=
     show_label (setText ''Please enter an amount.'' (amount_empty_error_label s))\<rparr>"
  using assms by (simp add: convert_currency_def clear_labels_def)

theorem convert_currency_empty_amount_witness:
  "convert_currency (\<lambda>_. Fail (Exc ReqConnectionError ''unreachable'')) setupUi
   = (clear_labels setupUi)\<lparr>amount_empty_error_label :=
       show_label (setText ''Please enter an amount.'' (amount_empty_error_label setupUi))\<rparr>"
  by (rule convert_currency_empty_amount) (simp add: setupUi_def)

text \<open>
  C3. A non-empty amount that \<open>float()\<close> rejects shows
  "Invalid! Please enter a valid number." and makes no request.
\<close>

theorem convert_currency_invalid_amount:
  assumes "lineEdit s \<noteq> []" and "float_of_string (lineEdit s) = Inl e"
  shows "convert_currency net s = (clear_labels s)\<lparr>amount_invalid_error_label :=
     show_label (setText ''Invalid! Please enter a valid number.'' (amount_invalid_error_label s))\<rparr>"
proof -
  have "exc_type e = ValueError" by (rule float_of_string_raises [OF assms(2)])
  then show ?thesis
    by (simp add: convert_currency_parse_error [OF assms] convert_except_def isinstance_def clear_labels_def)
qed

theorem convert_currency_invalid_amount_witness:
  "float_of_string ''abc'' = Inl (Exc ValueError (''could not convert string to float: '' @ py_repr ''abc''))
   \<and> convert_currency (\<lambda>_. Fail (Exc ReqConnectionError ''unreachable'')) (setupUi\<lparr>lineEdit := ''abc''\<rparr>)
   = (clear_labels (setupUi\<lparr>lineEdit := ''abc''\<rparr>))\<lparr>amount_invalid_error_label :=
       show_label (setText ''Invalid! Please enter a valid number.'' (amount_invalid_error_label setupUi))\<rparr>"
proof -
  have f: "float_of_string ''abc'' = Inl (Exc ValueError (''could not convert string to float: '' @ py_repr ''abc''))"
    by code_simp
  show ?thesis
    using f convert_currency_invalid_amount [of "setupUi\<lparr>lineEdit := ''abc''\<rparr>", OF _ ]
    by simp
qed

text \<open>
  C4. When the amount parses but a box still shows the placeholder "Choose",
  "Please select a currency." is shown and no request is made.
\<close>

theorem convert_currency_no_currency:
  assumes "float_of_string (lineEdit s) = Inr a"
    and "currentText (FromBox s) = placeholder \<or> currentText (ToBox s) = placeholder"
  shows "convert_currency net s = (clear_labels s)\<lparr>currency_error_label :=
     show_label (setText ''Please select a currency.'' (currency_error_label s))\<rparr>"
  by (rule convert_currency_placeholder [OF assms])

theorem convert_currency_no_currency_witness:
  "convert_currency (\<lambda>_. Fail (Exc ReqConnectionError ''unreachable'')) (setupUi\<lparr>lineEdit := ''100''\<rparr>)
   = (clear_labels (setupUi\<lparr>lineEdit := ''100''\<rparr>))\<lparr>currency_error_label :=
       show_label (setText ''Please select a currency.'' (currency_error_label setupUi))\<rparr>"
  using convert_currency_no_currency [of "setupUi\<lparr>lineEdit := ''100''\<rparr>" "Fin 100"]
  by (simp add: float_of_string_100 currentText_def setupUi_def placeholder_def)

lemma convert_except_runtime:
  "convert_except (Exc RuntimeError m) s = s\<lparr>ResultsDisplay := m\<rparr>"
  by (simp add: convert_except_def isinstance_def)

text \<open>
  C5. A transport failure of the rate request (connection refused, timeout, ...) is
  displayed as "HTTP error: " followed by the failure's message; the inputs stay as
  they were, and the one request is recorded.
\<close>

theorem convert_currency_transport_error:
  assumes "float_of_string (lineEdit s) = Inr a"
    and "currentText (FromBox s) = fr" and "currentText (ToBox s) = to"
    and "fr \<noteq> placeholder" and "to \<noteq> placeholder"
    and "net (rate_url fr) = Fail e" and "isinstance e RequestException"
  shows "convert_currency net s =
    (clear_labels s)\<lparr>requested := requested s @ [rate_url fr], ResultsDisplay := ''HTTP error: '' @ exc_str e\<rparr>"
proof -
  have "fst (get_exchange_rate net fr to) = Inl (Exc RuntimeError (''HTTP error: '' @ exc_str e))"
    using assms(6,7) by (simp add: get_exchange_rate_def get_exchange_rate_body_def requests_get_def)
  then show ?thesis
    by (simp add: convert_currency_request [OF assms(1-5)] convert_except_runtime)
qed

theorem convert_currency_transport_error_witness:
  "convert_currency (\<lambda>_. Fail (Exc ConnectTimeout ''connect timeout=10''))
     (setupUi\<lparr>lineEdit := ''100'', FromBox := \<lparr>items = [''Choose'', ''EUR'', ''USD''], cur = 2\<rparr>,
              ToBox := \<lparr>items = [''Choose'', ''EUR'', ''USD''], cur = 1\<rparr>\<rparr>)
   = (clear_labels (setupUi\<lparr>lineEdit := ''100'', FromBox := \<lparr>items = [''Choose'', ''EUR'', ''USD''], cur = 2\<rparr>,
              ToBox := \<lparr>items = [''Choose'', ''EUR'', ''USD''], cur = 1\<rparr>\<rparr>))\<lparr>requested :=
          requested (setupUi\<lparr>lineEdit := ''100'', FromBox := \<lparr>items = [''Choose'', ''EUR'', ''USD''], cur = 2\<rparr>,
              ToBox := \<lparr>items = [''Choose'', ''EUR'', ''USD''], cur = 1\<rparr>\<rparr>) @ [rate_url ''USD''],
        ResultsDisplay := ''HTTP error: '' @ exc_str (Exc ConnectTimeout ''connect timeout=10'')\<rparr>"
  by (rule convert_currency_transport_error)
     (simp add: float_of_string_100 currentText_def setupUi_def placeholder_def isinstance_def)+

text \<open>
  C6. A reply whose \<open>result\<close> is not \<open>"success"\<close> is displayed as
  "Currency not available".
\<close>

theorem convert_currency_upstream_error:
  assumes "float_of_string (lineEdit s) = Inr a"
    and "currentText (FromBox s) = fr" and "currentText (ToBox s) = to"
    and "fr \<noteq> placeholder" and "to \<noteq> placeholder"
    and "net (rate_url fr) = Resp r" and "status_code r < 400" and "body r = JsonOk (PyDict kvs)"
    and "map_of kvs ''result'' \<noteq> Some (PyStr ''success'')"
  shows "convert_currency net s =
    (clear_labels s)\<lparr>requested := requested s @ [rate_url fr], ResultsDisplay := ''Currency not available''\<rparr>"
proof -
  have "fst (get_exchange_rate net fr to) = Inl (Exc RuntimeError ''Currency not available'')"
    using get_exchange_rate_body_dict [where net = net and f = fr and r = r and kvs = kvs and t = to,
        OF assms(6-8)] assms(9)
    by (simp add: get_exchange_rate_def isinstance_def)
  then show ?thesis
    by (simp add: convert_currency_request [OF assms(1-5)] convert_except_runtime)
qed

theorem convert_currency_upstream_error_witness:
  "convert_currency (\<lambda>u. Resp (ok_response u (PyDict [(''result'', PyStr ''error'')])))
     (setupUi\<lparr>lineEdit := ''100'', FromBox := \<lparr>items = [''Choose'', ''EUR'', ''USD''], cur = 2\<rparr>,
              ToBox := \<lparr>items = [''Choose'', ''EUR'', ''USD''], cur = 1\<rparr>\<rparr>)
   = (clear_labels (setupUi\<lparr>lineEdit := ''100'', FromBox := \<lparr>items = [''Choose'', ''EUR'', ''USD''], cur = 2\<rparr>,
              ToBox := \<lparr>items = [''Choose'', ''EUR'', ''USD''], cur = 1\<rparr>\<rparr>))\<lparr>requested :=
          requested (setupUi\<lparr>lineEdit := ''100'', FromBox := \<lparr>items = [''Choose'', ''EUR'', ''USD''], cur = 2\<rparr>,
              ToBox := \<lparr>items = [''Choose'', ''EUR'', ''USD''], cur = 1\<rparr>\<rparr>) @ [rate_url ''USD''],
        ResultsDisplay := ''Currency not available''\<rparr>"
  by (rule convert_currency_upstream_error [where kvs = "[(''result'', PyStr ''error'')]"])
     (simp add: float_of_string_100 currentText_def setupUi_def placeholder_def ok_response_def)+

text \<open>
  C7. A target currency missing from the rate table is displayed as
  "Data error: Currency X not supported.": the \<open>ValueError\<close> raised inside
  \<open>get_exchange_rate\<close> reaches the user as a \<open>RuntimeError\<close>, not as an invalid
  amount.
\<close>

theorem convert_currency_unsupported:
  assumes "float_of_string (lineEdit s) = Inr a"
    and "currentText (FromBox s) = fr" and "currentText (ToBox s) = to"
    and "fr \<noteq> placeholder" and "to \<noteq> placeholder"
    and "net (rate_url fr) = Resp r" and "status_code r < 400" and "body r = JsonOk (PyDict kvs)"
    and "map_of kvs ''result'' = Some (PyStr ''success'')"
    and "map_of kvs ''conversion_rates'' = Some (PyDict rates)"
    and "map_of rates to = None"
  shows "convert_currency net s =
    (clear_labels s)\<lparr>requested := requested s @ [rate_url fr],
       ResultsDisplay := ''Data error: Currency '' @ to @ '' not supported.''\<rparr>"
proof -
  have "get_exchange_rate_body net fr to = Inl (Exc ValueError (''Currency '' @ to @ '' not supported.''))"
    using get_exchange_rate_body_rates [where net = net and f = fr and r = r and kvs = kvs and
        rates = rates and t = to, OF assms(6-10)] assms(11) by simp
  then have "fst (get_exchange_rate net fr to) =
      Inl (Exc RuntimeError (''Data error: '' @ ''Currency '' @ to @ '' not supported.''))"
    by (simp add: get_exchange_rate_def isinstance_def)
  then show ?thesis
    by (simp add: convert_currency_request [OF assms(1-5)] convert_except_runtime)
qed

theorem convert_currency_unsupported_witness:
  "convert_currency (\<lambda>u. Resp (ok_response u (rates_reply [(''USD'', PyInt 1)])))
     (setupUi\<lparr>lineEdit := ''100'', FromBox := \<lparr>items = [''Choose'', ''EUR'', ''USD''], cur = 2\<rparr>,
              ToBox := \<lparr>items = [''Choose'', ''EUR'', ''USD''], cur = 1\<rparr>\<rparr>)
   = (clear_labels (setupUi\<lparr>lineEdit := ''100'', FromBox := \<lparr>items = [''Choose'', ''EUR'', ''USD''], cur = 2\<rparr>,
              ToBox := \<lparr>items = [''Choose'', ''EUR'', ''USD''], cur = 1\<rparr>\<rparr>))\<lparr>requested :=
          requested (setupUi\<lparr>lineEdit := ''100'', FromBox := \<lparr>items = [''Choose'', ''EUR'', ''USD''], cur = 2\<rparr>,
              ToBox := \<lparr>items = [''Choose'', ''EUR'', ''USD''], cur = 1\<rparr>\<rparr>) @ [rate_url ''USD''],
        ResultsDisplay := ''Data error: Currency '' @ ''EUR'' @ '' not supported.''\<rparr>"
  by (rule convert_currency_unsupported [where kvs = "[(''result'', PyStr ''success''),
        (''conversion_rates'', PyDict [(''USD'', PyInt 1)])]" and rates = "[(''USD'', PyInt 1)]"])
     (simp add: float_of_string_100 currentText_def setupUi_def placeholder_def ok_response_def
        rates_reply_def)+

lemma requested_convert_except [simp]: "requested (convert_except e s) = requested s"
  by (simp add: convert_except_def)

lemma requested_conversion_done [simp]: "requested (conversion_done c t s) = requested s"
  by (simp add: conversion_done_def)

lemma requested_convert_currency:
  "requested (convert_currency net s) = requested s @
     (if \<not> isl (float_of_string (lineEdit s)) \<and> currentText (FromBox s) \<noteq> placeholder
         \<and> currentText (ToBox s) \<noteq> placeholder
      then [rate_url (currentText (FromBox s))] else [])"
proof (cases "lineEdit s = []")
  case True
  then show ?thesis by (simp add: convert_currency_empty_amount float_of_string_Nil)
next
  case False
  show ?thesis
  proof (cases "float_of_string (lineEdit s)")
    case (Inl e)
    then show ?thesis using False by (simp add: convert_currency_parse_error)
  next
    case (Inr a)
    show ?thesis
    proof (cases "currentText (FromBox s) = placeholder \<or> currentText (ToBox s) = placeholder")
      case True
      then show ?thesis using Inr by (auto simp: convert_currency_placeholder)
    next
      case False
      then show ?thesis
        using convert_currency_request [OF Inr refl refl] Inr
        by (simp add: Let_def split: sum.splits)
    qed
  qed
qed

lemma visible_messages_clear [simp]: "visible_messages (clear_labels s) = []"
  by (simp add: visible_messages_def clear_labels_def)

lemma visible_messages_Nil_iff:
  "visible_messages s = [] \<longleftrightarrow> \<not> lvisible (amount_empty_error_label s) \<and>
     \<not> lvisible (conversion_successful s) \<and> \<not> lvisible (amount_invalid_error_label s) \<and>
     \<not> lvisible (currency_error_label s)"
  by (simp add: visible_messages_def)

lemma visible_messages_except:
  assumes "visible_messages s = []"
  shows "length (visible_messages (convert_except e s)) \<le> 1"
proof -
  from assms have "\<not> lvisible (amount_empty_error_label s) \<and> \<not> lvisible (conversion_successful s) \<and>
      \<not> lvisible (amount_invalid_error_label s) \<and> \<not> lvisible (currency_error_label s)"
    by (simp add: visible_messages_Nil_iff)
  then show ?thesis by (simp add: visible_messages_def convert_except_def)
qed

lemma visible_messages_done:
  assumes "visible_messages s = []"
  shows "length (visible_messages (conversion_done c t s)) \<le> 1"
proof -
  from assms have "\<not> lvisible (amount_empty_error_label s) \<and> \<not> lvisible (conversion_successful s) \<and>
      \<not> lvisible (amount_invalid_error_label s) \<and> \<not> lvisible (currency_error_label s)"
    by (simp add: visible_messages_Nil_iff)
  then show ?thesis by (simp add: visible_messages_def conversion_done_def)
qed

lemma visible_messages_convert_currency:
  "length (visible_messages (convert_currency net s)) \<le> 1"
proof (cases "lineEdit s = []")
  case True
  then show ?thesis
    by (simp add: convert_currency_empty_amount visible_messages_def clear_labels_def)
next
  case False
  show ?thesis
  proof (cases "float_of_string (lineEdit s)")
    case (Inl e)
    have "convert_currency net s = convert_except e (clear_labels s)"
      by (rule convert_currency_parse_error [OF False Inl])
    then show ?thesis using visible_messages_except [OF visible_messages_clear] by simp
  next
    case (Inr a)
    show ?thesis
    proof (cases "currentText (FromBox s) = placeholder \<or> currentText (ToBox s) = placeholder")
      case True
      then show ?thesis
        using Inr by (auto simp: convert_currency_placeholder visible_messages_def clear_labels_def)
    next
      case False
      have clr: "visible_messages ((clear_labels s)\<lparr>requested := x\<rparr>) = []" for x
        by (simp add: visible_messages_def clear_labels_def)
      from False show ?thesis
        using convert_currency_request [OF Inr refl refl, of net]
          visible_messages_except [OF clr] visible_messages_done [OF clr]
        by (simp add: Let_def split: sum.splits)
    qed
  qed
qed

text \<open>
  C11. A conversion makes at most one request: exactly one, for the rates of the source
  currency, when the amount parses and both currencies are chosen, and none otherwise
  (the empty-amount, invalid-amount and placeholder checks all come before the
  network).
\<close>

theorem convert_currency_requests:
  "requested (convert_currency net s) = requested s @
     (if \<not> isl (float_of_string (lineEdit s)) \<and> currentText (FromBox s) \<noteq> placeholder
         \<and> currentText (ToBox s) \<noteq> placeholder
      then [rate_url (currentText (FromBox s))] else [])"
  by (rule requested_convert_currency)

text \<open>
  C12. After any click on Convert at most one of the four message labels is visible.
  Two of them share a screen position (lines 25 and 35), so this is what keeps the
  success message and the currency error from being drawn over each other.
\<close>

theorem convert_currency_one_message:
  "length (visible_messages (convert_currency net s)) \<le> 1"
  by (rule visible_messages_convert_currency)

section \<open>Properties of the start-up\<close>

lemma items_fold_addItem [simp]: "items (fold addItem xs c) = items c @ xs"
  by (induction xs arbitrary: c) simp_all

lemma cur_fold_addItem: "cur c \<noteq> -1 \<Longrightarrow> cur (fold addItem xs c) = cur c"
  by (induction xs arbitrary: c) (simp_all add: addItem_def)

lemma fold_add_currency:
  "fold add_currency xs s = s\<lparr>FromBox := fold addItem xs (FromBox s), ToBox := fold addItem xs (ToBox s)\<rparr>"
  by (induction xs arbitrary: s) (simp_all add: add_currency_def)

lemma fetch_currencies_dict:
  assumes "net currencies_url = Resp r" and "status_code r < 400" and "body r = JsonOk (PyDict kvs)"
    and "map_of kvs ''result'' = Some (PyStr ''success'')"
    and "map_of kvs ''conversion_rates'' = Some (PyDict rates)"
  shows "fetch_currencies net = Inr (remdups (map fst rates))"
  using assms by (simp add: fetch_currencies_def requests_get_def response_json_def py_keys_def)

lemma fetch_currencies_distinct: "fetch_currencies net = Inr cs \<Longrightarrow> distinct cs"
  by (auto simp: fetch_currencies_def py_keys_def split: sum.splits if_splits pyval.splits http_outcome.splits)

lemma initialize_currencies_ok:
  assumes "fetch_currencies net = Inr cs"
  shows "initialize_currencies net s = s\<lparr>requested := requested s @ [currencies_url],
     FromBox := fold addItem (sort cs) (FromBox s), ToBox := fold addItem (sort cs) (ToBox s)\<rparr>"
  using assms by (simp add: initialize_currencies_def fold_add_currency)

lemma initialize_currencies_error:
  assumes "fetch_currencies net = Inl e"
  shows "initialize_currencies net s = s\<lparr>requested := requested s @ [currencies_url],
     ResultsDisplay := (if isinstance e RequestException then ''Error fetching currencies: ''
                        else ''Unexpected error: '') @ exc_str e\<rparr>"
  using assms by (simp add: initialize_currencies_def)

lemma app_init_fetched:
  assumes "fetch_currencies net = Inr cs"
  shows "FromBox (app_init net) = \<lparr>items = placeholder # sort cs, cur = 0\<rparr>
    \<and> ToBox (app_init net) = \<lparr>items = placeholder # sort cs, cur = 0\<rparr>
    \<and> lineEdit (app_init net) = [] \<and> ResultsDisplay (app_init net) = []
    \<and> visible_messages (app_init net) = [] \<and> requested (app_init net) = [currencies_url]"
proof -
  have c: "cur (fold addItem (sort cs) \<lparr>items = [placeholder], cur = 0\<rparr>) = 0"
    by (simp add: cur_fold_addItem)
  have e: "fold addItem (sort cs) \<lparr>items = [placeholder], cur = 0\<rparr> = \<lparr>items = placeholder # sort cs, cur = 0\<rparr>"
    using c items_fold_addItem [of "sort cs" "\<lparr>items = [placeholder], cur = 0\<rparr>"] by simp
  show ?thesis
    using assms e
    by (simp add: app_init_def initialize_currencies_ok init_state_def setupUi_def
        visible_messages_def hidden_label_def)
qed

lemma app_init_failed:
  assumes "fetch_currencies net = Inl e"
  shows "FromBox (app_init net) = \<lparr>items = [placeholder], cur = 0\<rparr>
    \<and> ToBox (app_init net) = \<lparr>items = [placeholder], cur = 0\<rparr>
    \<and> ResultsDisplay (app_init net) = (if isinstance e RequestException then ''Error fetching currencies: ''
                                       else ''Unexpected error: '') @ exc_str e
    \<and> visible_messages (app_init net) = [] \<and> requested (app_init net) = [currencies_url]"
  using assms
  by (simp add: app_init_def initialize_currencies_error init_state_def setupUi_def
      visible_messages_def hidden_label_def)

text \<open>C18. When the service answers the currency-list request with status below 400
  and \<open>{"result": "success", "conversion_rates": rates}\<close>, the window starts with both
  boxes holding \<open>"Choose"\<close> followed by the rate table's currency codes sorted and
  without duplicates, the placeholder selected, an empty amount and results display,
  no message shown, and one request made, for the currency list.\<close>

theorem app_init_success:
  assumes "net currencies_url = Resp r" and "status_code r < 400"
    and "body r = JsonOk (rates_reply rates)"
  shows "FromBox (app_init net) = \<lparr>items = placeholder # sort (remdups (map fst rates)), cur = 0\<rparr>
    \<and> ToBox (app_init net) = \<lparr>items = placeholder # sort (remdups (map fst rates)), cur = 0\<rparr>
    \<and> lineEdit (app_init net) = [] \<and> ResultsDisplay (app_init net) = []
    \<and> visible_messages (app_init net) = [] \<and> requested (app_init net) = [currencies_url]"
proof -
  have "fetch_currencies net = Inr (remdups (map fst rates))"
    using fetch_currencies_dict [where net = net and r = r and rates = rates
        and kvs = "[(''result'', PyStr ''success''), (''conversion_rates'', PyDict rates)]"] assms
    by (simp add: rates_reply_def)
  then show ?thesis by (rule app_init_fetched)
qed

theorem app_init_success_witness:
  "fixed_service [(''USD'', PyFloat (Fin 1)), (''EUR'', PyFloat (Fin (5/4)))] currencies_url = Resp (ok_response currencies_url (rates_reply [(''USD'', PyFloat (Fin 1)), (''EUR'', PyFloat (Fin (5/4)))]))
   \<and> status_code (ok_response currencies_url (rates_reply [(''USD'', PyFloat (Fin 1)), (''EUR'', PyFloat (Fin (5/4)))])) < 400
   \<and> body (ok_response currencies_url (rates_reply [(''USD'', PyFloat (Fin 1)), (''EUR'', PyFloat (Fin (5/4)))])) = JsonOk (rates_reply [(''USD'', PyFloat (Fin 1)), (''EUR'', PyFloat (Fin (5/4)))])
   \<and> FromBox (app_init (fixed_service [(''USD'', PyFloat (Fin 1)), (''EUR'', PyFloat (Fin (5/4)))])) = \<lparr>items = [placeholder, ''EUR'', ''USD''], cur = 0\<rparr>
   \<and> requested (app_init (fixed_service [(''USD'', PyFloat (Fin 1)), (''EUR'', PyFloat (Fin (5/4)))])) = [currencies_url]"
  using app_init_success [where net = "fixed_service [(''USD'', PyFloat (Fin 1)), (''EUR'', PyFloat (Fin (5/4)))]" and r = "ok_response currencies_url (rates_reply [(''USD'', PyFloat (Fin 1)), (''EUR'', PyFloat (Fin (5/4)))])"
      and rates = "[(''USD'', PyFloat (Fin 1)), (''EUR'', PyFloat (Fin (5/4)))]"]
  by (simp add: fixed_service_def ok_response_def)

lemma fetch_currencies_transport: "net currencies_url = Fail e \<Longrightarrow> fetch_currencies net = Inl e"
  by (simp add: fetch_currencies_def requests_get_def)

lemma fetch_currencies_not_success:
  assumes "net currencies_url = Resp r" and "status_code r < 400" and "body r = JsonOk (PyDict kvs)"
    and "map_of kvs ''result'' = Some v" and "v \<noteq> PyStr ''success''"
  shows "fetch_currencies net = Inl (Exc RuntimeError ''API error: Unable to fetch currency list.'')"
  using assms by (simp add: fetch_currencies_def requests_get_def response_json_def)

text \<open>C19. When the service answers the currency-list request with a JSON object whose
  \<open>"result"\<close> is not \<open>"success"\<close>, the \<open>RuntimeError\<close> the code raises is caught by
  the generic handler: the results display reads
  \<open>"Unexpected error: API error: Unable to fetch currency list."\<close>, and both boxes
  hold the placeholder only.\<close>

theorem app_init_upstream_error:
  assumes "net currencies_url = Resp r" and "status_code r < 400" and "body r = JsonOk (PyDict kvs)"
    and "map_of kvs ''result'' = Some v" and "v \<noteq> PyStr ''success''"
  shows "ResultsDisplay (app_init net) = ''Unexpected error: API error: Unable to fetch currency list.''
    \<and> items (FromBox (app_init net)) = [placeholder] \<and> items (ToBox (app_init net)) = [placeholder]"
  using app_init_failed [OF fetch_currencies_not_success [where net = net, OF assms]] by (simp add: isinstance_def)

theorem app_init_upstream_error_witness:
  "(\<lambda>_::string. Resp (ok_response currencies_url (PyDict [(''result'', PyStr ''error'')]))) currencies_url
     = Resp (ok_response currencies_url (PyDict [(''result'', PyStr ''error'')]))
   \<and> status_code (ok_response currencies_url (PyDict [(''result'', PyStr ''error'')])) < 400
   \<and> body (ok_response currencies_url (PyDict [(''result'', PyStr ''error'')])) = JsonOk (PyDict [(''result'', PyStr ''error'')])
   \<and> map_of [(''result'', PyStr ''error'')] ''result'' = Some (PyStr ''error'')
   \<and> PyStr ''error'' \<noteq> PyStr ''success''
   \<and> ResultsDisplay (app_init (\<lambda>_. Resp (ok_response currencies_url (PyDict [(''result'', PyStr ''error'')]))))
       = ''Unexpected error: API error: Unable to fetch currency list.''"
  using app_init_upstream_error [where net = "\<lambda>_. Resp (ok_response currencies_url (PyDict [(''result'', PyStr ''error'')]))"
      and r = "ok_response currencies_url (PyDict [(''result'', PyStr ''error'')])"
      and kvs = "[(''result'', PyStr ''error'')]" and v = "PyStr ''error''"]
  by (simp add: ok_response_def)

text \<open>C20. When the currency-list request fails in transport with a
  \<open>RequestException\<close> \<open>e\<close>, the results display reads
  \<open>"Error fetching currencies: "\<close> followed by \<open>str(e)\<close>, and both boxes hold the
  placeholder only.\<close>

theorem app_init_transport_error:
  assumes "net currencies_url = Fail e" and "is_request_exc e"
  shows "ResultsDisplay (app_init net) = ''Error fetching currencies: '' @ exc_str e
    \<and> items (FromBox (app_init net)) = [placeholder] \<and> items (ToBox (app_init net)) = [placeholder]"
  using app_init_failed [OF fetch_currencies_transport [where net = net, OF assms(1)]] assms(2)
  by (simp add: is_request_exc_def)

theorem app_init_transport_error_witness:
  "(\<lambda>_::string. Fail (Exc ReqConnectionError ''Max retries exceeded'')) currencies_url
     = Fail (Exc ReqConnectionError ''Max retries exceeded'')
   \<and> is_request_exc (Exc ReqConnectionError ''Max retries exceeded'')
   \<and> ResultsDisplay (app_init (\<lambda>_. Fail (Exc ReqConnectionError ''Max retries exceeded'')))
       = ''Error fetching currencies: Max retries exceeded''"
  using app_init_transport_error [where net = "\<lambda>_. Fail (Exc ReqConnectionError ''Max retries exceeded'')"
      and e = "Exc ReqConnectionError ''Max retries exceeded''"]
  by (simp add: is_request_exc_def isinstance_def)

end
