(* ===== verification/Session.thy ===== *)
theory Session
  imports Converter_App
begin

text \<open>
  The window over time. Qt delivers the user's events to the window made by
  \<open>__init__\<close> (lines 9 to 42 of \<open>src/CurrencyConverter.py\<close>): typing into the
  amount field, picking an item of a box, and clicking Convert, whose handler
  \<open>convert_currency\<close> is connected at line 42. \<open>session\<close> is the set of states these
  events can reach, an inductive relation; \<open>app_wf\<close> is its invariant, proved by
  rule induction, with its consequences for a successful click and for the URLs
  requested.
\<close>

section \<open>The session\<close>

text \<open>
  What can happen to the window: it is created (\<open>__init__\<close>, with whatever the
  service answers), the user types into the amount field or picks an item of a box
  (Qt only offers existing items), or clicks Convert (the signal connected at line 42).
  The service may answer differently at every step: the network is chosen per step.
\<close>

inductive session :: "app \<Rightarrow> bool" where
  start: "session (app_init net)"
| edit: "session s \<Longrightarrow> session (s\<lparr>lineEdit := t\<rparr>)"
| choose_from: "session s \<Longrightarrow> 0 \<le> i \<Longrightarrow> i < int (length (items (FromBox s))) \<Longrightarrow>
    session (s\<lparr>FromBox := setCurrentIndex i (FromBox s)\<rparr>)"
| choose_to: "session s \<Longrightarrow> 0 \<le> i \<Longrightarrow> i < int (length (items (ToBox s))) \<Longrightarrow>
    session (s\<lparr>ToBox := setCurrentIndex i (ToBox s)\<rparr>)"
| click: "session s \<Longrightarrow> session (convert_currency net s)"

text \<open>
  The invariant of a session: both boxes hold the same items, the placeholder
  followed by a sorted list without duplicates; each has a valid current item; at
  most one message label is visible; and every URL requested so far is the currency
  list or the rates of a currency of the box other than the placeholder.
\<close>

definition box_ok :: "combo \<Rightarrow> bool" where
  "box_ok c \<longleftrightarrow> (case items c of [] \<Rightarrow> False | x # cs \<Rightarrow> x = placeholder \<and> sorted cs \<and> distinct cs)
     \<and> 0 \<le> cur c \<and> cur c < int (length (items c))"

definition request_ok :: "string list \<Rightarrow> string \<Rightarrow> bool" where
  "request_ok cs u \<longleftrightarrow> u = currencies_url \<or> list_ex (\<lambda>c. c \<noteq> placeholder \<and> u = rate_url c) cs"

definition app_wf :: "app \<Rightarrow> bool" where
  "app_wf s \<longleftrightarrow> box_ok (FromBox s) \<and> box_ok (ToBox s) \<and> items (ToBox s) = items (FromBox s)
     \<and> length (visible_messages s) \<le> 1 \<and> list_all (request_ok (items (FromBox s))) (requested s)"

text \<open>The first steps of a session that converts: the window is created, the user picks
  the items \<open>i\<close> and \<open>j\<close> of the two boxes and types \<open>amount\<close>.\<close>

definition prepare :: "net \<Rightarrow> int \<Rightarrow> int \<Rightarrow> string \<Rightarrow> app" where
  "prepare net i j amount =
    (let s0 = app_init net;
         s1 = s0\<lparr>FromBox := setCurrentIndex i (FromBox s0)\<rparr>;
         s2 = s1\<lparr>ToBox := setCurrentIndex j (ToBox s1)\<rparr>
     in s2\<lparr>lineEdit := amount\<rparr>)"

text \<open>The same events as data, and the event loop as a function: \<open>__main__\<close> (lines 145
  to 149) makes the window, then \<open>app.exec()\<close> delivers the user's events one after the
  other. Qt offers only the items a box holds, so picking an index out of range is no
  event and changes nothing; a click carries the service's answers at that moment.\<close>

datatype event = Edit string | ChooseFrom int | ChooseTo int | Click net

definition step :: "event \<Rightarrow> app \<Rightarrow> app" where
  "step ev s = (case ev of
       Edit t \<Rightarrow> s\<lparr>lineEdit := t\<rparr>
     | ChooseFrom i \<Rightarrow> if 0 \<le> i \<and> i < int (length (items (FromBox s)))
                      then s\<lparr>FromBox := setCurrentIndex i (FromBox s)\<rparr> else s
     | ChooseTo i \<Rightarrow> if 0 \<le> i \<and> i < int (length (items (ToBox s)))
                    then s\<lparr>ToBox := setCurrentIndex i (ToBox s)\<rparr> else s
     | Click net \<Rightarrow> convert_currency net s)"

definition run :: "net \<Rightarrow> event list \<Rightarrow> app" where
  "run net evs = fold step evs (app_init net)"

section \<open>Properties of the session\<close>

lemma box_ok_setCurrentIndex:
  "box_ok c \<Longrightarrow> 0 \<le> i \<Longrightarrow> i < int (length (items c)) \<Longrightarrow> box_ok (setCurrentIndex i c)"
  by (simp add: box_ok_def setCurrentIndex_def)

lemma box_ok_setCurrentIndex_0: "box_ok c \<Longrightarrow> box_ok (setCurrentIndex 0 c)"
  by (auto simp: box_ok_def setCurrentIndex_def split: list.splits)

lemma box_ok_currentText: "box_ok c \<Longrightarrow> currentText c \<in> set (items c)"
  by (auto simp: box_ok_def currentText_def)

lemma box_ok_reset: "box_ok c \<Longrightarrow> currentText (setCurrentIndex 0 c) = placeholder"
  by (auto simp: box_ok_def currentText_setCurrentIndex_0 split: list.splits)

lemma convert_currency_boxes:
  "(FromBox (convert_currency net s) = FromBox s \<or> FromBox (convert_currency net s) = setCurrentIndex 0 (FromBox s))
   \<and> (ToBox (convert_currency net s) = ToBox s \<or> ToBox (convert_currency net s) = setCurrentIndex 0 (ToBox s))"
  by (auto simp: convert_currency_def convert_try_def convert_except_def conversion_done_def
      clear_labels_def Let_def split: sum.splits prod.splits)

lemma convert_currency_success_label:
  "lvisible (conversion_successful (convert_currency net s)) \<Longrightarrow>
     FromBox (convert_currency net s) = setCurrentIndex 0 (FromBox s)
     \<and> ToBox (convert_currency net s) = setCurrentIndex 0 (ToBox s) \<and> lineEdit (convert_currency net s) = []"
  by (auto simp: convert_currency_def convert_try_def convert_except_def conversion_done_def
      clear_labels_def Let_def split: sum.splits prod.splits if_splits)

lemma app_wf_init: "app_wf (app_init net)"
proof (cases "fetch_currencies net")
  case (Inl e)
  then show ?thesis
    by (simp add: app_init_def initialize_currencies_error app_wf_def box_ok_def init_state_def
        setupUi_def visible_messages_def hidden_label_def request_ok_def)
next
  case (Inr cs)
  have d: "distinct cs" by (rule fetch_currencies_distinct [OF Inr])
  have c: "cur (fold addItem (sort cs) \<lparr>items = [placeholder], cur = 0\<rparr>) = 0"
    by (simp add: cur_fold_addItem)
  show ?thesis
    using Inr d c
    by (simp add: app_init_def initialize_currencies_ok app_wf_def box_ok_def init_state_def
        setupUi_def visible_messages_def hidden_label_def request_ok_def)
qed

lemma app_wf_convert:
  assumes "app_wf s"
  shows "app_wf (convert_currency net s)"
proof -
  let ?t = "convert_currency net s"
  from assms have bf: "box_ok (FromBox s)" and bt: "box_ok (ToBox s)"
    and same: "items (ToBox s) = items (FromBox s)"
    and req: "list_all (request_ok (items (FromBox s))) (requested s)"
    by (simp_all add: app_wf_def)
  have boxes: "box_ok (FromBox ?t) \<and> box_ok (ToBox ?t)
      \<and> items (FromBox ?t) = items (FromBox s) \<and> items (ToBox ?t) = items (ToBox s)"
    using convert_currency_boxes [of net s] bf bt box_ok_setCurrentIndex_0 by auto
  have new: "list_all (request_ok (items (FromBox s)))
     (if \<not> isl (float_of_string (lineEdit s)) \<and> currentText (FromBox s) \<noteq> placeholder
         \<and> currentText (ToBox s) \<noteq> placeholder
      then [rate_url (currentText (FromBox s))] else [])"
    using box_ok_currentText [OF bf] by (auto simp: request_ok_def list_ex_iff)
  show ?thesis
    using boxes same req new visible_messages_convert_currency [of net s]
    by (simp add: app_wf_def requested_convert_currency)
qed

lemma session_wf: "session s \<Longrightarrow> app_wf s"
proof (induction rule: session.induct)
  case (start net)
  show ?case by (rule app_wf_init)
next
  case (edit s t)
  then show ?case by (simp add: app_wf_def visible_messages_def)
next
  case (choose_from s i)
  then show ?case by (simp add: app_wf_def box_ok_setCurrentIndex visible_messages_def)
next
  case (choose_to s i)
  then show ?case by (simp add: app_wf_def box_ok_setCurrentIndex visible_messages_def)
next
  case (click s net)
  from click.IH show ?case by (rule app_wf_convert)
qed

lemma session_prepare:
  assumes "0 \<le> i" "i < int (length (items (FromBox (app_init net))))"
    and "0 \<le> j" "j < int (length (items (ToBox (app_init net))))"
  shows "session (prepare net i j amount)"
proof -
  have "session ((app_init net)\<lparr>FromBox := setCurrentIndex i (FromBox (app_init net))\<rparr>)"
    using assms(1,2) by (rule session.choose_from [OF session.start])
  then have "session ((app_init net)\<lparr>FromBox := setCurrentIndex i (FromBox (app_init net)),
      ToBox := setCurrentIndex j (ToBox (app_init net))\<rparr>)"
    using session.choose_to [of _ j] assms(3,4) by fastforce
  from session.edit [OF this, of amount] show ?thesis by (simp add: prepare_def Let_def)
qed

lemma prepare_fixed_service:
  "FromBox (prepare (fixed_service rates) i j amount)
     = setCurrentIndex i \<lparr>items = placeholder # sort (remdups (map fst rates)), cur = 0\<rparr>
   \<and> ToBox (prepare (fixed_service rates) i j amount)
     = setCurrentIndex j \<lparr>items = placeholder # sort (remdups (map fst rates)), cur = 0\<rparr>
   \<and> lineEdit (prepare (fixed_service rates) i j amount) = amount
   \<and> requested (prepare (fixed_service rates) i j amount) = [currencies_url]"
  using app_init_fetched [OF fetch_currencies_fixed_service] by (simp add: prepare_def)

text \<open>A session that converts 100 USD to EUR at the rate 1.25.\<close>

lemma session_demo:
  "session (prepare (fixed_service [(''EUR'', PyFloat (Fin (5/4))), (''USD'', PyFloat (Fin 1))]) 2 1 ''100'')
   \<and> lvisible (conversion_successful (convert_currency (fixed_service [(''EUR'', PyFloat (Fin (5/4))), (''USD'', PyFloat (Fin 1))]) (prepare (fixed_service [(''EUR'', PyFloat (Fin (5/4))), (''USD'', PyFloat (Fin 1))]) 2 1 ''100'')))"
proof -
  have p: "FromBox (prepare (fixed_service [(''EUR'', PyFloat (Fin (5/4))), (''USD'', PyFloat (Fin 1))]) 2 1 ''100'') = \<lparr>items = [placeholder, ''EUR'', ''USD''], cur = 2\<rparr>"
    "ToBox (prepare (fixed_service [(''EUR'', PyFloat (Fin (5/4))), (''USD'', PyFloat (Fin 1))]) 2 1 ''100'') = \<lparr>items = [placeholder, ''EUR'', ''USD''], cur = 1\<rparr>"
    "lineEdit (prepare (fixed_service [(''EUR'', PyFloat (Fin (5/4))), (''USD'', PyFloat (Fin 1))]) 2 1 ''100'') = ''100''"
    using prepare_fixed_service [of "[(''EUR'', PyFloat (Fin (5/4))), (''USD'', PyFloat (Fin 1))]" 2 1 "''100''"] by (simp_all add: setCurrentIndex_def placeholder_def)
  have "session (prepare (fixed_service [(''EUR'', PyFloat (Fin (5/4))), (''USD'', PyFloat (Fin 1))]) 2 1 ''100'')"
    by (rule session_prepare) (simp_all add: app_init_fetched [OF fetch_currencies_fixed_service])
  moreover have "lvisible (conversion_successful (convert_currency (fixed_service [(''EUR'', PyFloat (Fin (5/4))), (''USD'', PyFloat (Fin 1))]) (prepare (fixed_service [(''EUR'', PyFloat (Fin (5/4))), (''USD'', PyFloat (Fin 1))]) 2 1 ''100'')))"
    by (subst convert_currency_request [where fr = "''USD''" and to = "''EUR''"])
      (simp_all add: p float_of_string_100 currentText_def placeholder_def get_exchange_rate_fixed_service
        py_mul_float_def conversion_done_def clear_labels_def Let_def)
  ultimately show ?thesis ..
qed

text \<open>C13. Every state a session reaches satisfies the invariant \<open>app_wf\<close>: both
  boxes hold \<open>"Choose"\<close> followed by the same sorted duplicate-free currency list, each
  with a valid current index, at most one message label is visible, and every URL
  requested is the currency list or the rates of a listed currency.\<close>

theorem session_invariant: "session s \<Longrightarrow> app_wf s"
  by (rule session_wf)

theorem session_invariant_witness:
  "session (app_init (\<lambda>_. Fail (Exc ConnectTimeout ''timed out''))) \<and> app_wf (app_init (\<lambda>_. Fail (Exc ConnectTimeout ''timed out'')))"
  using session_invariant [OF session.start [of "\<lambda>_. Fail (Exc ConnectTimeout ''timed out'')"]]
    session.start by simp

text \<open>C14. In a session, a click that shows the success label has reset both boxes to
  \<open>"Choose"\<close> and cleared the amount field.\<close>

theorem session_success_resets:
  assumes "session s" and "lvisible (conversion_successful (convert_currency net s))"
  shows "currentText (FromBox (convert_currency net s)) = placeholder
    \<and> currentText (ToBox (convert_currency net s)) = placeholder \<and> lineEdit (convert_currency net s) = []"
proof -
  from session_wf [OF assms(1)] have "box_ok (FromBox s)" and "box_ok (ToBox s)"
    by (simp_all add: app_wf_def)
  with convert_currency_success_label [OF assms(2)] show ?thesis
    by (simp add: box_ok_reset)
qed

theorem session_success_resets_witness:
  "session (prepare (fixed_service [(''EUR'', PyFloat (Fin (5/4))), (''USD'', PyFloat (Fin 1))]) 2 1 ''100'')
   \<and> lvisible (conversion_successful (convert_currency (fixed_service [(''EUR'', PyFloat (Fin (5/4))), (''USD'', PyFloat (Fin 1))]) (prepare (fixed_service [(''EUR'', PyFloat (Fin (5/4))), (''USD'', PyFloat (Fin 1))]) 2 1 ''100'')))
   \<and> currentText (FromBox (convert_currency (fixed_service [(''EUR'', PyFloat (Fin (5/4))), (''USD'', PyFloat (Fin 1))]) (prepare (fixed_service [(''EUR'', PyFloat (Fin (5/4))), (''USD'', PyFloat (Fin 1))]) 2 1 ''100''))) = placeholder
   \<and> currentText (ToBox (convert_currency (fixed_service [(''EUR'', PyFloat (Fin (5/4))), (''USD'', PyFloat (Fin 1))]) (prepare (fixed_service [(''EUR'', PyFloat (Fin (5/4))), (''USD'', PyFloat (Fin 1))]) 2 1 ''100''))) = placeholder \<and> lineEdit (convert_currency (fixed_service [(''EUR'', PyFloat (Fin (5/4))), (''USD'', PyFloat (Fin 1))]) (prepare (fixed_service [(''EUR'', PyFloat (Fin (5/4))), (''USD'', PyFloat (Fin 1))]) 2 1 ''100'')) = []"
  using session_success_resets [OF conjunct1 [OF session_demo] conjunct2 [OF session_demo]] session_demo
  by simp

section \<open>The event loop\<close>

lemma session_step: "session s \<Longrightarrow> session (step ev s)"
  by (cases ev) (auto simp: step_def intro: session.intros)

lemma session_fold_step: "session s \<Longrightarrow> session (fold step evs s)"
  by (induction evs arbitrary: s) (simp_all add: session_step)

lemma run_snoc: "run net (evs @ [ev]) = step ev (run net evs)"
  by (simp add: run_def)

lemma session_run: "session s \<Longrightarrow> \<exists>net evs. s = run net evs"
proof (induction rule: session.induct)
  case (start net)
  have "app_init net = run net []" by (simp add: run_def)
  then show ?case by blast
next
  case (edit s t)
  then obtain net evs where "s = run net evs" by blast
  then have "s\<lparr>lineEdit := t\<rparr> = run net (evs @ [Edit t])" by (simp add: run_snoc step_def)
  then show ?case by blast
next
  case (choose_from s i)
  then obtain net evs where "s = run net evs" by blast
  with choose_from.hyps(2,3)
  have "s\<lparr>FromBox := setCurrentIndex i (FromBox s)\<rparr> = run net (evs @ [ChooseFrom i])"
    by (simp add: run_snoc step_def)
  then show ?case by blast
next
  case (choose_to s i)
  then obtain net evs where "s = run net evs" by blast
  with choose_to.hyps(2,3)
  have "s\<lparr>ToBox := setCurrentIndex i (ToBox s)\<rparr> = run net (evs @ [ChooseTo i])"
    by (simp add: run_snoc step_def)
  then show ?case by blast
next
  case (click s net')
  then obtain net evs where "s = run net evs" by blast
  then have "convert_currency net' s = run net (evs @ [Click net'])" by (simp add: run_snoc step_def)
  then show ?case by blast
qed

text \<open>The inductive \<open>session\<close> and the event loop agree: a window state is
  reachable exactly when it is what the event loop computes from the start-up with
  some service and some sequence of events.\<close>

lemma session_iff_run: "session s \<longleftrightarrow> (\<exists>net evs. s = run net evs)"
proof
  assume "session s"
  then show "\<exists>net evs. s = run net evs" by (rule session_run)
next
  assume "\<exists>net evs. s = run net evs"
  then obtain net evs where "s = run net evs" by blast
  then show "session s"
    using session_fold_step [OF session.start [of net]] by (simp add: run_def)
qed

lemma fold_step_choose_edit:
  assumes "app_wf s" and "k < length (items (FromBox s))"
  shows "FromBox (fold step [ChooseFrom (int k), ChooseTo (int k), Edit t] s) = setCurrentIndex (int k) (FromBox s)
    \<and> ToBox (fold step [ChooseFrom (int k), ChooseTo (int k), Edit t] s) = setCurrentIndex (int k) (ToBox s)
    \<and> lineEdit (fold step [ChooseFrom (int k), ChooseTo (int k), Edit t] s) = t
    \<and> items (ToBox s) = items (FromBox s)"
  using assms by (simp add: step_def app_wf_def)

text \<open>C17. No reachable state blocks a conversion: from every state of a session whose
  boxes list a currency \<open>c\<close> that the service quotes, some sequence of events (pick
  \<open>c\<close> in both boxes, type \<open>100\<close>, click) ends with the success label and the result
  \<open>100 * rate\<close> in \<open>c\<close> on screen.\<close>

theorem session_can_convert:
  assumes "session s" and "c \<in> set (items (FromBox s))" and "c \<noteq> placeholder"
    and "map_of rates c = Some (PyFloat y)"
  shows "\<exists>evs. lvisible (conversion_successful (fold step evs s))
    \<and> ResultsDisplay (fold step evs s) = result_html (fmul (Fin 100) y) c"
proof -
  have wf: "app_wf s" using assms(1) by (rule session_wf)
  obtain k where k: "k < length (items (FromBox s))" "items (FromBox s) ! k = c"
    using assms(2) by (auto simp: in_set_conv_nth)
  define s1 where "s1 = fold step [ChooseFrom (int k), ChooseTo (int k), Edit ''100''] s"
  have f: "FromBox s1 = setCurrentIndex (int k) (FromBox s)" "ToBox s1 = setCurrentIndex (int k) (ToBox s)"
    "lineEdit s1 = ''100''" "items (ToBox s) = items (FromBox s)"
    using fold_step_choose_edit [OF wf k(1), of "''100''"] by (simp_all add: s1_def)
  have ct: "currentText (FromBox s1) = c" "currentText (ToBox s1) = c"
    using f k by (simp_all add: setCurrentIndex_def currentText_def)
  have "convert_currency (fixed_service rates) s1
      = conversion_done (fmul (Fin 100) y) c ((clear_labels s1)\<lparr>requested := requested s1 @ [rate_url c]\<rparr>)"
    by (subst convert_currency_request [OF _ ct assms(3) assms(3)])
       (simp_all add: f float_of_string_100 get_exchange_rate_fixed_service [OF assms(4)] py_mul_float_def Let_def)
  moreover have "fold step ([ChooseFrom (int k), ChooseTo (int k), Edit ''100''] @ [Click (fixed_service rates)]) s
      = convert_currency (fixed_service rates) s1"
    by (simp only: fold_append s1_def) (simp add: step_def)
  ultimately show ?thesis
    by (intro exI [of _ "[ChooseFrom (int k), ChooseTo (int k), Edit ''100'', Click (fixed_service rates)]"])
       (simp add: conversion_done_def show_label_def)
qed

theorem session_can_convert_witness:
  "session (app_init (fixed_service [(''EUR'', PyFloat (Fin (5/4))), (''USD'', PyFloat (Fin 1))])) \<and> ''EUR'' \<in> set (items (FromBox (app_init (fixed_service [(''EUR'', PyFloat (Fin (5/4))), (''USD'', PyFloat (Fin 1))]))))
   \<and> ''EUR'' \<noteq> placeholder \<and> map_of [(''EUR'', PyFloat (Fin (5/4))), (''USD'', PyFloat (Fin 1))] ''EUR'' = Some (PyFloat (Fin (5/4)))
   \<and> (\<exists>evs. lvisible (conversion_successful (fold step evs (app_init (fixed_service [(''EUR'', PyFloat (Fin (5/4))), (''USD'', PyFloat (Fin 1))]))))
      \<and> ResultsDisplay (fold step evs (app_init (fixed_service [(''EUR'', PyFloat (Fin (5/4))), (''USD'', PyFloat (Fin 1))]))) = result_html (fmul (Fin 100) (Fin (5/4))) ''EUR'')"
proof -
  have i: "''EUR'' \<in> set (items (FromBox (app_init (fixed_service [(''EUR'', PyFloat (Fin (5/4))), (''USD'', PyFloat (Fin 1))]))))"
    using app_init_fetched [OF fetch_currencies_fixed_service [of "[(''EUR'', PyFloat (Fin (5/4))), (''USD'', PyFloat (Fin 1))]"]] by simp
  have p: "''EUR'' \<noteq> placeholder" by (simp add: placeholder_def)
  have m: "map_of [(''EUR'', PyFloat (Fin (5/4))), (''USD'', PyFloat (Fin 1))] ''EUR'' = Some (PyFloat (Fin (5/4)))" by simp
  show ?thesis using session_can_convert [OF session.start i p m] session.start i p m by blast
qed

end
