(* ===== verification/Conversion_Spec.thy ===== *)
theory Conversion_Spec
  imports Converter_App
begin

text \<open>
  The contract of \<open>spec.md\<close> as abstract definitions, and the refinement lemmas
  that show \<open>src/CurrencyConverter.py\<close> implements it. The upstream API of section 6
  answers a request with a transport failure, an HTTP error status, or the JSON
  object \<open>{"result": r, "conversion_rates": rates}\<close> (\<open>api_reply\<close>); \<open>serve\<close> turns
  such an API into the network the code talks to. The Rate Provider's contract of
  section 4.1 is \<open>get_rate_spec\<close> and \<open>list_currencies_spec\<close>, returning one of the
  named error kinds of section 7 or a value; the Conversion Service of section 4.2 is
  the four-outcome function \<open>convert_spec\<close>, which also returns the provider calls it
  made (the call-count test double of section 8). \<open>present\<close> and \<open>present_init\<close>
  are how the reference shows an outcome on the window. The refinement lemmas state
  that each handler of the code equals the presentation of the abstract outcome.
\<close>

section \<open>The upstream API\<close>

datatype api_reply =
    Unreachable exc
  | HttpStatus int string
  | Api string "(string \<times> pyfloat) list"

text \<open>A reply the spec's interface allows: a transport failure is a \<open>requests\<close>
  exception, an error status is one \<open>raise_for_status\<close> rejects, and the rate table
  is a JSON object, whose keys are distinct.\<close>

fun api_wf :: "api_reply \<Rightarrow> bool" where
  "api_wf (Unreachable e) \<longleftrightarrow> is_request_exc e"
| "api_wf (HttpStatus c _) \<longleftrightarrow> 400 \<le> c \<and> c < 600"
| "api_wf (Api _ rates) \<longleftrightarrow> distinct (map fst rates)"

definition api_json :: "string \<Rightarrow> (string \<times> pyfloat) list \<Rightarrow> pyval" where
  "api_json r rates = PyDict [(''result'', PyStr r),
     (''conversion_rates'', PyDict (map (\<lambda>(k, v). (k, PyFloat v)) rates))]"

definition serve :: "(string \<Rightarrow> api_reply) \<Rightarrow> net" where
  "serve api url = (case api url of
       Unreachable e \<Rightarrow> Fail e
     | HttpStatus c rsn \<Rightarrow> Resp \<lparr>status_code = c, reason = rsn, resp_url = url, body = JsonBad []\<rparr>
     | Api r rates \<Rightarrow> Resp (ok_response url (api_json r rates)))"

section \<open>The Rate Provider's contract\<close>

datatype provider_error = TransportError string | UpstreamError | UnsupportedCurrencyError string

text \<open>The cause a transport error keeps: the exception's text, or for an error status
  the text \<open>requests\<close> gives it.\<close>

definition status_text :: "int \<Rightarrow> string \<Rightarrow> string \<Rightarrow> string" where
  "status_text c rsn url = show_nat (nat c) @ '' '' @ (if c < 500 then ''Client'' else ''Server'')
     @ '' Error: '' @ rsn @ '' for url: '' @ url"

fun get_rate_spec :: "string \<Rightarrow> api_reply \<Rightarrow> string \<Rightarrow> provider_error + pyfloat" where
  "get_rate_spec url (Unreachable e) to = Inl (TransportError (exc_str e))"
| "get_rate_spec url (HttpStatus c rsn) to = Inl (TransportError (status_text c rsn url))"
| "get_rate_spec url (Api r rates) to =
     (if r \<noteq> ''success'' then Inl UpstreamError
      else case map_of rates to of None \<Rightarrow> Inl (UnsupportedCurrencyError to) | Some v \<Rightarrow> Inr v)"

fun list_currencies_spec :: "api_reply \<Rightarrow> provider_error + string list" where
  "list_currencies_spec (Unreachable e) = Inl (TransportError (exc_str e))"
| "list_currencies_spec (HttpStatus c rsn) = Inl (TransportError (status_text c rsn currencies_url))"
| "list_currencies_spec (Api r rates) =
     (if r \<noteq> ''success'' then Inl UpstreamError else Inr (sort (map fst rates)))"

text \<open>The texts the reference shows for a provider error, after a rate request and
  after the currency-list request (which never reports an unsupported currency).\<close>

fun rate_error_text :: "provider_error \<Rightarrow> string" where
  "rate_error_text (TransportError m) = ''HTTP error: '' @ m"
| "rate_error_text UpstreamError = ''Currency not available''"
| "rate_error_text (UnsupportedCurrencyError c) = ''Data error: Currency '' @ c @ '' not supported.''"

fun list_error_text :: "provider_error \<Rightarrow> string" where
  "list_error_text (TransportError m) = ''Error fetching currencies: '' @ m"
| "list_error_text UpstreamError = ''Unexpected error: API error: Unable to fetch currency list.''"
| "list_error_text (UnsupportedCurrencyError c) = ''Unexpected error: '' @ c"

section \<open>The Conversion Service's contract\<close>

datatype validation_error = EmptyAmount | InvalidAmount | CurrencyNotSelected

datatype conv_outcome = Invalid validation_error | ProviderFailed provider_error | Converted pyfloat string

text \<open>Section 4.2: the checks in order, then one provider call. The second component
  lists the source currencies the provider was asked for.\<close>

definition convert_spec ::
  "(string \<Rightarrow> string \<Rightarrow> provider_error + pyfloat) \<Rightarrow> string \<Rightarrow> string \<Rightarrow> string \<Rightarrow> conv_outcome \<times> string list"
where
  "convert_spec get_rate amount from to =
    (if amount = [] then (Invalid EmptyAmount, [])
     else case float_of_string amount of
       Inl _ \<Rightarrow> (Invalid InvalidAmount, [])
     | Inr a \<Rightarrow> if from = placeholder \<or> to = placeholder then (Invalid CurrencyNotSelected, [])
                else ((case get_rate from to of
                         Inl e \<Rightarrow> ProviderFailed e
                       | Inr r \<Rightarrow> Converted (fmul a r) to), [from]))"

definition present :: "conv_outcome \<Rightarrow> app \<Rightarrow> app" where
  "present r s = (case r of
       Invalid EmptyAmount \<Rightarrow>
         s\<lparr>amount_empty_error_label := show_label (setText ''Please enter an amount.'' (amount_empty_error_label s))\<rparr>
     | Invalid InvalidAmount \<Rightarrow>
         s\<lparr>amount_invalid_error_label :=
            show_label (setText ''Invalid! Please enter a valid number.'' (amount_invalid_error_label s))\<rparr>
     | Invalid CurrencyNotSelected \<Rightarrow>
         s\<lparr>currency_error_label := show_label (setText ''Please select a currency.'' (currency_error_label s))\<rparr>
     | ProviderFailed e \<Rightarrow> s\<lparr>ResultsDisplay := rate_error_text e\<rparr>
     | Converted c to \<Rightarrow> conversion_done c to s)"

definition present_init :: "provider_error + string list \<Rightarrow> app \<Rightarrow> app" where
  "present_init r s = (case r of
       Inr cs \<Rightarrow> fold add_currency cs s
     | Inl e \<Rightarrow> s\<lparr>ResultsDisplay := list_error_text e\<rparr>)"

section \<open>Refinement\<close>

lemma map_of_api_rates:
  "map_of (map (\<lambda>(k, v). (k, PyFloat v)) rates) t = map_option PyFloat (map_of rates t)"
  by (induction rates) auto

lemma fst_comp_api: "fst \<circ> (\<lambda>(k, v). (k, PyFloat v)) = fst"
  by (auto simp: fun_eq_iff)

lemma py_contains_api:
  "py_contains (PyDict (map (\<lambda>(k, v). (k, PyFloat v)) rates)) t = Inr (map_of rates t \<noteq> None)"
proof -
  have "set (map fst (map (\<lambda>(k, v). (k, PyFloat v)) rates)) = fst ` set rates"
    by (induction rates) auto
  then show ?thesis by (simp add: py_contains_def map_of_eq_None_iff)
qed

lemma py_getitem_api:
  "map_of rates t = Some v \<Longrightarrow> py_getitem (PyDict (map (\<lambda>(k, v). (k, PyFloat v)) rates)) t = Inr (PyFloat v)"
  by (simp add: py_getitem_def map_of_api_rates)

lemmas serve_simps = serve_def requests_get_def ok_response_def response_json_def api_json_def
  raise_for_status_def status_text_def Let_def is_request_exc_def isinstance_def

lemma get_exchange_rate_serve_api:
  assumes "api (rate_url f) = Api r rates"
  shows "get_exchange_rate (serve api) f t =
    (map_sum (\<lambda>e. Exc RuntimeError (rate_error_text e)) PyFloat (get_rate_spec (rate_url f) (Api r rates) t),
     [rate_url f])"
  using assms by (cases "map_of rates t")
    (simp_all add: get_exchange_rate_def get_exchange_rate_body_def serve_simps py_contains_api
       py_getitem_api del: py_contains_dict)

lemma get_exchange_rate_serve:
  assumes "api_wf (api (rate_url f))"
  shows "get_exchange_rate (serve api) f t =
    (map_sum (\<lambda>e. Exc RuntimeError (rate_error_text e)) PyFloat (get_rate_spec (rate_url f) (api (rate_url f)) t),
     [rate_url f])"
proof (cases "api (rate_url f)")
  case (Api r rates)
  then show ?thesis by (simp add: get_exchange_rate_serve_api)
qed (use assms in \<open>simp_all add: get_exchange_rate_def get_exchange_rate_body_def serve_simps\<close>)

text \<open>C9. The Rate Provider refines \<open>getRate\<close> of section 4.1: against a service
  whose reply is one the spec allows, \<open>get_exchange_rate\<close> returns the rate the spec
  returns, or raises a \<open>RuntimeError\<close> whose text is the reference's text for the
  spec's error kind, after exactly one request, for the source currency.\<close>

theorem get_exchange_rate_refines:
  assumes "api_wf (api (rate_url f))"
  shows "get_exchange_rate (serve api) f t =
    (map_sum (\<lambda>e. Exc RuntimeError (rate_error_text e)) PyFloat (get_rate_spec (rate_url f) (api (rate_url f)) t),
     [rate_url f])"
proof (cases "api (rate_url f)")
  case (Api r rates)
  then show ?thesis by (simp add: get_exchange_rate_serve_api)
qed (use assms in \<open>simp_all add: get_exchange_rate_def get_exchange_rate_body_def serve_simps\<close>)

theorem get_exchange_rate_refines_witness:
  "api_wf ((\<lambda>_::string. Api ''success'' [(''EUR'', Fin (5/4))]) (rate_url ''USD''))
   \<and> get_exchange_rate (serve (\<lambda>_::string. Api ''success'' [(''EUR'', Fin (5/4))])) ''USD'' ''EUR'' =
     (map_sum (\<lambda>e. Exc RuntimeError (rate_error_text e)) PyFloat
        (get_rate_spec (rate_url ''USD'') ((\<lambda>_::string. Api ''success'' [(''EUR'', Fin (5/4))]) (rate_url ''USD'')) ''EUR''), [rate_url ''USD''])"
  using get_exchange_rate_refines [of "(\<lambda>_::string. Api ''success'' [(''EUR'', Fin (5/4))])" "''USD''" "''EUR''"] by simp

lemma convert_except_rate_error:
  "convert_except (Exc RuntimeError (rate_error_text e)) s = s\<lparr>ResultsDisplay := rate_error_text e\<rparr>"
  by (simp add: convert_except_def isinstance_def)

lemma convert_except_parse_error:
  "float_of_string t = Inl e \<Longrightarrow> convert_except e s = present (Invalid InvalidAmount) s"
  using float_of_string_raises [of t e] by (simp add: convert_except_def present_def isinstance_def)

text \<open>C8. The Convert handler refines the Conversion Service of section 4.2: against
  a service whose reply to the rate request is one the spec allows, a click leaves the
  window as the reference presents the abstract outcome of \<open>convert_spec\<close>, with the
  labels cleared first and one request recorded per provider call of the spec.\<close>

theorem convert_currency_refines:
  assumes "api_wf (api (rate_url (currentText (FromBox s))))"
  shows "convert_currency (serve api) s =
    (case convert_spec (\<lambda>f t. get_rate_spec (rate_url f) (api (rate_url f)) t)
            (lineEdit s) (currentText (FromBox s)) (currentText (ToBox s)) of
       (r, calls) \<Rightarrow> present r ((clear_labels s)\<lparr>requested := requested s @ map rate_url calls\<rparr>))"
proof (cases "lineEdit s = []")
  case True
  then show ?thesis by (simp add: convert_currency_def convert_spec_def present_def clear_labels_def)
next
  case ne: False
  show ?thesis
  proof (cases "float_of_string (lineEdit s)")
    case (Inl e)
    with ne show ?thesis
      by (simp add: convert_currency_parse_error convert_except_parse_error convert_spec_def present_def
          clear_labels_def)
  next
    case (Inr a)
    show ?thesis
    proof (cases "currentText (FromBox s) = placeholder \<or> currentText (ToBox s) = placeholder")
      case True
      with ne Inr show ?thesis
        by (auto simp: convert_currency_placeholder convert_spec_def present_def)
    next
      case False
      then have "currentText (FromBox s) \<noteq> placeholder" "currentText (ToBox s) \<noteq> placeholder" by simp_all
      with ne Inr assms show ?thesis
        by (subst convert_currency_request [OF Inr refl refl])
           (auto simp: get_exchange_rate_serve convert_spec_def present_def convert_except_rate_error
              split: sum.splits)
    qed
  qed
qed

theorem convert_currency_refines_witness:
  "api_wf ((\<lambda>_::string. Api ''success'' [(''EUR'', Fin (5/4))]) (rate_url (currentText (FromBox (setupUi\<lparr>lineEdit := ''100'', FromBox := \<lparr>items = [''Choose'', ''EUR'', ''USD''], cur = 2\<rparr>,
        ToBox := \<lparr>items = [''Choose'', ''EUR'', ''USD''], cur = 1\<rparr>\<rparr>)))))
   \<and> convert_currency (serve (\<lambda>_::string. Api ''success'' [(''EUR'', Fin (5/4))])) (setupUi\<lparr>lineEdit := ''100'', FromBox := \<lparr>items = [''Choose'', ''EUR'', ''USD''], cur = 2\<rparr>,
        ToBox := \<lparr>items = [''Choose'', ''EUR'', ''USD''], cur = 1\<rparr>\<rparr>) =
    (case convert_spec (\<lambda>f t. get_rate_spec (rate_url f) ((\<lambda>_::string. Api ''success'' [(''EUR'', Fin (5/4))]) (rate_url f)) t)
            (lineEdit (setupUi\<lparr>lineEdit := ''100'', FromBox := \<lparr>items = [''Choose'', ''EUR'', ''USD''], cur = 2\<rparr>,
        ToBox := \<lparr>items = [''Choose'', ''EUR'', ''USD''], cur = 1\<rparr>\<rparr>)) (currentText (FromBox (setupUi\<lparr>lineEdit := ''100'', FromBox := \<lparr>items = [''Choose'', ''EUR'', ''USD''], cur = 2\<rparr>,
        ToBox := \<lparr>items = [''Choose'', ''EUR'', ''USD''], cur = 1\<rparr>\<rparr>))) (currentText (ToBox (setupUi\<lparr>lineEdit := ''100'', FromBox := \<lparr>items = [''Choose'', ''EUR'', ''USD''], cur = 2\<rparr>,
        ToBox := \<lparr>items = [''Choose'', ''EUR'', ''USD''], cur = 1\<rparr>\<rparr>))) of
       (r, calls) \<Rightarrow> present r ((clear_labels (setupUi\<lparr>lineEdit := ''100'', FromBox := \<lparr>items = [''Choose'', ''EUR'', ''USD''], cur = 2\<rparr>,
        ToBox := \<lparr>items = [''Choose'', ''EUR'', ''USD''], cur = 1\<rparr>\<rparr>))\<lparr>requested := requested (setupUi\<lparr>lineEdit := ''100'', FromBox := \<lparr>items = [''Choose'', ''EUR'', ''USD''], cur = 2\<rparr>,
        ToBox := \<lparr>items = [''Choose'', ''EUR'', ''USD''], cur = 1\<rparr>\<rparr>) @ map rate_url calls\<rparr>))"
  using convert_currency_refines [of "(\<lambda>_::string. Api ''success'' [(''EUR'', Fin (5/4))])" "(setupUi\<lparr>lineEdit := ''100'', FromBox := \<lparr>items = [''Choose'', ''EUR'', ''USD''], cur = 2\<rparr>,
        ToBox := \<lparr>items = [''Choose'', ''EUR'', ''USD''], cur = 1\<rparr>\<rparr>)"] by simp

text \<open>C10. The start-up refines \<open>listSupportedCurrencies\<close> of section 4.1: against a
  service whose reply to the currency-list request is one the spec allows, the window
  starts as the reference presents the abstract result, the sorted currency codes in
  both boxes or the error text, after exactly one request.\<close>

theorem app_init_refines:
  assumes "api_wf (api currencies_url)"
  shows "app_init (serve api) =
    present_init (list_currencies_spec (api currencies_url)) (init_state\<lparr>requested := [currencies_url]\<rparr>)"
proof -
  have r0: "requested init_state = []" by (simp add: init_state_def setupUi_def)
  show ?thesis
  proof (cases "api currencies_url")
    case (Unreachable e)
    with assms r0 show ?thesis
      by (simp add: app_init_def initialize_currencies_def fetch_currencies_def present_init_def serve_simps)
  next
    case (HttpStatus c rsn)
    with assms r0 show ?thesis
      by (simp add: app_init_def initialize_currencies_def fetch_currencies_def present_init_def serve_simps)
  next
    case (Api r rates)
    with assms r0 show ?thesis
      by (simp add: app_init_def initialize_currencies_def fetch_currencies_def present_init_def serve_simps
          py_keys_def fst_comp_api distinct_remdups_id)
  qed
qed

theorem app_init_refines_witness:
  "api_wf ((\<lambda>_::string. Unreachable (Exc ConnectTimeout ''timed out'')) currencies_url)
   \<and> app_init (serve (\<lambda>_::string. Unreachable (Exc ConnectTimeout ''timed out''))) =
     present_init (list_currencies_spec ((\<lambda>_::string. Unreachable (Exc ConnectTimeout ''timed out'')) currencies_url)) (init_state\<lparr>requested := [currencies_url]\<rparr>)"
  using app_init_refines [of "(\<lambda>_::string. Unreachable (Exc ConnectTimeout ''timed out''))"] by (simp add: is_request_exc_def isinstance_def)

end
