(* ===== verification/Json_Decode.thy ===== *)
theory Json_Decode
  imports Http_Requests "HOL-Library.AList"
begin

text \<open>
  \<open>json.loads\<close>, which \<open>response.json()\<close> applies to the body text (lines 52 and 129
  of \<open>src/CurrencyConverter.py\<close>), as CPython 3.12 runs it: \<open>JSONDecoder.decode\<close>
  around the C scanner of \<open>Modules/_json.c\<close> (\<open>scan_once_unicode\<close>,
  \<open>_parse_object_unicode\<close>, \<open>_parse_array_unicode\<close>, \<open>scanstring_unicode\<close>,
  \<open>_match_number_unicode\<close>), with its error messages and positions. The scanner
  works on the suffix of the text still to be read; a position is kept as the length
  of that suffix until \<open>json_loads\<close> turns it into the index \<open>JSONDecodeError\<close>
  reports. The recursion of objects and arrays spends one unit of fuel per call, and
  \<open>json_loads\<close> gives it three per character, which is enough. A \<open>\uXXXX\<close> escape
  above U+00FF is outside what a \<^typ>\<open>string\<close> holds; the scanner stops there with
  \<open>Beyond\<close>, and no theorem is about such a text.
\<close>

section \<open>Results of the scanner\<close>

datatype json_error =
    Decode string nat  \<comment> \<open>\<open>JSONDecodeError(msg, doc, pos)\<close>, position as a suffix length\<close>
  | Raise exc          \<comment> \<open>another exception, raised through \<open>json.loads\<close>\<close>
  | Beyond nat         \<comment> \<open>a code point the model's strings do not hold\<close>
  | OutOfFuel

type_synonym 'a jres = "json_error + ('a \<times> string)"

definition is_json_ws :: "char \<Rightarrow> bool" where
  "is_json_ws c \<longleftrightarrow> c = CHR '' '' \<or> c = CHR 0x09 \<or> c = CHR 0x0A \<or> c = CHR 0x0D"

text \<open>\<open>WHITESPACE.match(s, end).end()\<close> and the \<open>IS_WHITESPACE\<close> loops of the scanner.\<close>

definition skip_ws :: "string \<Rightarrow> string" where
  "skip_ws r = dropWhile is_json_ws r"

definition delimiter_msg :: "char \<Rightarrow> string" where
  "delimiter_msg c = ''Expecting '' @ [CHR 0x27, c, CHR 0x27] @ '' delimiter''"

definition expecting_value :: "string \<Rightarrow> 'a jres" where
  "expecting_value r = Inl (Decode ''Expecting value'' (length r))"

section \<open>Strings: \<open>scanstring_unicode\<close>\<close>

definition hex_val :: "char \<Rightarrow> nat option" where
  "hex_val c = (let n = (of_char c :: nat) in
     if 48 \<le> n \<and> n \<le> 57 then Some (n - 48)
     else if 97 \<le> n \<and> n \<le> 102 then Some (n - 87)
     else if 65 \<le> n \<and> n \<le> 70 then Some (n - 55)
     else None)"

definition hex4 :: "string \<Rightarrow> nat option" where
  "hex4 h = (case those (map hex_val h) of
       Some [a, b, c, d] \<Rightarrow> Some (((a * 16 + b) * 16 + c) * 16 + d)
     | _ \<Rightarrow> None)"

text \<open>The one-character escapes \<open>\" \\ \/ \b \f \n \r \t\<close>.\<close>

definition simple_escape :: "char \<Rightarrow> char option" where
  "simple_escape c =
    (if c = CHR 0x22 \<or> c = CHR 0x5C \<or> c = CHR ''/'' then Some c
     else if c = CHR ''b'' then Some (CHR 0x08)
     else if c = CHR ''f'' then Some (CHR 0x0C)
     else if c = CHR ''n'' then Some (CHR 0x0A)
     else if c = CHR ''r'' then Some (CHR 0x0D)
     else if c = CHR ''t'' then Some (CHR 0x09)
     else None)"

definition unterminated :: "nat \<Rightarrow> json_error" where
  "unterminated b = Decode ''Unterminated string starting at'' b"

definition bad_uescape :: "nat \<Rightarrow> json_error" where
  "bad_uescape p = Decode (''Invalid '' @ [CHR 0x5C] @ ''uXXXX escape'') p"

text \<open>After a \<open>\u\<close> whose four digits give a code point above U+00FF: a high
  surrogate followed by a second \<open>\u\<close> escape has that escape's digits checked
  first.\<close>

definition beyond_escape :: "nat \<Rightarrow> string \<Rightarrow> json_error" where
  "beyond_escape c r =
    (if 55296 \<le> c \<and> c \<le> 56319 \<and> 6 < length r \<and> take 2 r = [CHR 0x5C, CHR ''u'']
          \<and> hex4 (take 4 (drop 2 r)) = None
     then bad_uescape (length r - 1)
     else Beyond c)"

text \<open>\<open>b\<close> is the position of the opening quote; the characters read so far are
  \<open>acc\<close>. With \<open>strict=True\<close> a control character below U+0020 is an error.\<close>

fun scanstring :: "nat \<Rightarrow> string \<Rightarrow> string \<Rightarrow> string jres" where
  "scanstring b acc [] = Inl (unterminated b)"
| "scanstring b acc (c # r) =
     (if c = CHR 0x22 then Inr (acc, r)
      else if c = CHR 0x5C then
        (case r of
           [] \<Rightarrow> Inl (unterminated b)
         | e # r' \<Rightarrow>
             if e = CHR ''u'' then
               (if length r' \<le> 4 then Inl (bad_uescape (length r))
                else case hex4 (take 4 r') of
                       None \<Rightarrow> Inl (bad_uescape (length r))
                     | Some cp \<Rightarrow>
                         if cp < 256 then scanstring b (acc @ [char_of cp]) (drop 4 r')
                         else Inl (beyond_escape cp (drop 4 r')))
             else (case simple_escape e of
                     None \<Rightarrow> Inl (Decode (''Invalid '' @ [CHR 0x5C] @ ''escape'') (Suc (length r)))
                   | Some c' \<Rightarrow> scanstring b (acc @ [c']) r'))
      else if (of_char c :: nat) < 32 then Inl (Decode ''Invalid control character at'' (Suc (length r)))
      else scanstring b (acc @ [c]) r)"

section \<open>Numbers: \<open>_match_number_unicode\<close>\<close>

text \<open>\<open>int(numstr)\<close> refuses more than \<open>sys.get_int_max_str_digits()\<close> digits,
  4300 by default.\<close>

definition int_max_str_digits :: nat where
  "int_max_str_digits = 4300"

definition int_limit_error :: "nat \<Rightarrow> exc" where
  "int_limit_error n = Exc ValueError (''Exceeds the limit ('' @ show_nat int_max_str_digits
     @ '' digits) for integer string conversion: value has '' @ show_nat n
     @ '' digits; use sys.set_int_max_str_digits() to increase the limit'')"

text \<open>The fraction \<open>.digits\<close>, read only when a digit follows the point.\<close>

definition scan_frac :: "string \<Rightarrow> string \<times> string" where
  "scan_frac r = (case r of
       p # d # r' \<Rightarrow>
         if p = CHR ''.'' \<and> is_digit d
         then (p # d # takeWhile is_digit r', dropWhile is_digit r')
         else ([], r)
     | _ \<Rightarrow> ([], r))"

text \<open>The exponent \<open>(e|E) [sign] digits\<close>; without a digit the scanner backtracks to
  the \<open>e\<close>.\<close>

definition scan_exp :: "string \<Rightarrow> string \<times> string" where
  "scan_exp r = (case r of
       e # r1 \<Rightarrow>
         if e = CHR ''e'' \<or> e = CHR ''E'' then
           (let (sg, r2) = (case r1 of
                              s # r' \<Rightarrow> if s = CHR ''-'' \<or> s = CHR ''+'' then ([s], r') else ([], r1)
                            | [] \<Rightarrow> ([], []));
                ds = takeWhile is_digit r2
            in if ds = [] then ([], r) else (e # sg @ ds, dropWhile is_digit r2))
         else ([], r)
     | [] \<Rightarrow> ([], []))"

definition match_number :: "string \<Rightarrow> pyval jres" where
  "match_number r =
    (let (neg, r1) = (case r of c # r' \<Rightarrow> if c = CHR ''-'' then (True, r') else (False, r) | [] \<Rightarrow> (False, []))
     in case r1 of
          [] \<Rightarrow> expecting_value r
        | c # r2 \<Rightarrow>
            if \<not> is_digit c then expecting_value r
            else
              (let ip = (if c = CHR ''0'' then [c] else c # takeWhile is_digit r2);
                   r3 = drop (length ip) r1;
                   (fp, r4) = scan_frac r3;
                   (ep, r5) = scan_exp r4
               in if fp = [] \<and> ep = [] then
                    (if int_max_str_digits < length ip then Inl (Raise (int_limit_error (length ip)))
                     else Inr (PyInt ((if neg then -1 else 1) * int (digits_value ip)), r5))
                  else
                    (case float_of_string ((if neg then [CHR ''-''] else []) @ ip @ fp @ ep) of
                       Inl e \<Rightarrow> Inl (Raise e)
                     | Inr x \<Rightarrow> Inr (PyFloat x, r5))))"

section \<open>Values, objects and arrays\<close>

text \<open>\<open>scan_once_unicode\<close> dispatches on the first character; \<open>parse_object\<close> and
  \<open>parse_array\<close> start after the opening bracket, and \<open>object_items\<close> and
  \<open>array_items\<close> are their loops. An object is built as \<open>dict\<close> builds it from its
  pairs: a repeated key keeps its first place and takes the last value.\<close>

function (sequential) scan_once :: "nat \<Rightarrow> string \<Rightarrow> pyval jres"
and parse_object :: "nat \<Rightarrow> string \<Rightarrow> pyval jres"
and object_items :: "nat \<Rightarrow> (string \<times> pyval) list \<Rightarrow> string \<Rightarrow> pyval jres"
and parse_array :: "nat \<Rightarrow> string \<Rightarrow> pyval jres"
and array_items :: "nat \<Rightarrow> pyval list \<Rightarrow> string \<Rightarrow> pyval jres" where
  "scan_once 0 r = Inl OutOfFuel"
| "scan_once (Suc n) r = (case r of
       [] \<Rightarrow> expecting_value r
     | c # r' \<Rightarrow>
         if c = CHR 0x22 then
           (case scanstring (length r) [] r' of Inl e \<Rightarrow> Inl e | Inr (t, r'') \<Rightarrow> Inr (PyStr t, r''))
         else if c = CHR ''{'' then parse_object n r'
         else if c = CHR ''['' then parse_array n r'
         else if take 4 r = ''null'' then Inr (PyNone, drop 4 r)
         else if take 4 r = ''true'' then Inr (PyBool True, drop 4 r)
         else if take 5 r = ''false'' then Inr (PyBool False, drop 5 r)
         else if take 3 r = ''NaN'' then Inr (PyFloat NaN, drop 3 r)
         else if take 8 r = ''Infinity'' then Inr (PyFloat PosInf, drop 8 r)
         else if take 9 r = ''-Infinity'' then Inr (PyFloat NegInf, drop 9 r)
         else match_number r)"
| "parse_object 0 r = Inl OutOfFuel"
| "parse_object (Suc n) r = (let r1 = skip_ws r in
     case r1 of
       c # r2 \<Rightarrow> if c = CHR ''}'' then Inr (PyDict [], r2) else object_items n [] r1
     | [] \<Rightarrow> object_items n [] r1)"
| "object_items 0 acc r = Inl OutOfFuel"
| "object_items (Suc n) acc r =
     (let no_name = Inl (Decode ''Expecting property name enclosed in double quotes'' (length r)) in
      case r of
        [] \<Rightarrow> no_name
      | c # r' \<Rightarrow>
          if c \<noteq> CHR 0x22 then no_name
          else case scanstring (length r) [] r' of
            Inl e \<Rightarrow> Inl e
          | Inr (key, r2) \<Rightarrow>
              (let r3 = skip_ws r2 in
               if take 1 r3 \<noteq> '':'' then Inl (Decode (delimiter_msg CHR '':'') (length r3))
               else case scan_once n (skip_ws (tl r3)) of
                 Inl e \<Rightarrow> Inl e
               | Inr (v, r4) \<Rightarrow>
                   (let acc' = AList.update key v acc; r5 = skip_ws r4 in
                    if take 1 r5 = ''}'' then Inr (PyDict acc', tl r5)
                    else if take 1 r5 = '','' then object_items n acc' (skip_ws (tl r5))
                    else Inl (Decode (delimiter_msg CHR '','') (length r5)))))"
| "parse_array 0 r = Inl OutOfFuel"
| "parse_array (Suc n) r = (let r1 = skip_ws r in
     if take 1 r1 = '']'' then Inr (PyList [], tl r1) else array_items n [] r1)"
| "array_items 0 acc r = Inl OutOfFuel"
| "array_items (Suc n) acc r =
     (case scan_once n r of
        Inl e \<Rightarrow> Inl e
      | Inr (v, r1) \<Rightarrow>
          (let r2 = skip_ws r1 in
           if take 1 r2 = '']'' then Inr (PyList (acc @ [v]), tl r2)
           else if take 1 r2 = '','' then array_items n (acc @ [v]) (skip_ws (tl r2))
           else Inl (Decode (delimiter_msg CHR '','') (length r2))))"
  by pat_completeness auto
termination by size_change

section \<open>\<open>json.loads\<close>\<close>

text \<open>\<open>JSONDecoder.decode\<close>: skip leading whitespace, scan one value, skip trailing
  whitespace, and refuse anything after it (\<open>"Extra data"\<close>). Positions become
  indices into the text.\<close>

definition json_fuel :: "string \<Rightarrow> nat" where
  "json_fuel s = 3 * length s + 1"

fun abs_pos :: "nat \<Rightarrow> json_error \<Rightarrow> json_error" where
  "abs_pos n (Decode m p) = Decode m (n - p)"
| "abs_pos n e = e"

definition json_loads :: "string \<Rightarrow> json_error + pyval" where
  "json_loads s =
    (case scan_once (json_fuel s) (skip_ws s) of
       Inl e \<Rightarrow> Inl (abs_pos (length s) e)
     | Inr (v, r) \<Rightarrow>
         (let r' = skip_ws r in
          if r' = [] then Inr v else Inl (Decode ''Extra data'' (length s - length r'))))"

text \<open>The text of \<open>JSONDecodeError\<close>: \<open>'%s: line %d column %d (char %d)'\<close>, the line
  counting the newlines before the position and the column counting from the last.\<close>

definition json_errmsg :: "string \<Rightarrow> string \<Rightarrow> nat \<Rightarrow> string" where
  "json_errmsg msg s pos =
    (let pre = take pos s;
         lineno = Suc (length (filter (\<lambda>c. c = CHR 0x0A) pre));
         colno = Suc (length (takeWhile (\<lambda>c. c \<noteq> CHR 0x0A) (rev pre)))
     in msg @ '': line '' @ show_nat lineno @ '' column '' @ show_nat colno @ '' (char '' @ show_nat pos @ '')'')"

text \<open>What \<open>response.json()\<close> makes of a body text, as \<^typ>\<open>json_body\<close> holds it:
  the decoded object, or the text of the \<open>JSONDecodeError\<close> that \<open>requests\<close> re-raises
  with \<open>json\<close>'s message. \<open>None\<close> is a text the response model cannot hold: a code
  point above U+00FF, or the \<open>ValueError\<close> of an integer longer than
  \<open>int_max_str_digits\<close>, which \<open>json.loads\<close> raises as it is.\<close>

definition body_of_text :: "string \<Rightarrow> json_body option" where
  "body_of_text s = (case json_loads s of
       Inr v \<Rightarrow> Some (JsonOk v)
     | Inl (Decode m p) \<Rightarrow> Some (JsonBad (json_errmsg m s p))
     | Inl _ \<Rightarrow> None)"

section \<open>Properties of the scanner\<close>

text \<open>Every successful step of the scanner consumes input, and three units of fuel per
  character are enough: \<open>json_loads\<close> never runs out of fuel.\<close>

lemma skip_ws_length [simp]: "length (skip_ws r) \<le> length r"
  by (simp add: skip_ws_def length_dropWhile_le)

lemma scanstring_length: "scanstring b acc r = Inr (t, r') \<Longrightarrow> length r' < length r"
proof (induction b acc r rule: scanstring.induct)
  case (1 b acc)
  then show ?case by simp
next
  case (2 b acc c r)
  show ?case
  proof (cases "c = CHR 0x22 \<or> c \<noteq> CHR 0x5C")
    case True
    with "2.prems" "2.IH"(3) show ?thesis
      by (cases "c = CHR 0x22") (auto split: if_splits)
  next
    case False
    then have q: "c \<noteq> CHR 0x22" and bs: "c = CHR 0x5C" by auto
    obtain e rest where r: "r = e # rest"
      using "2.prems" q bs by (cases r) (auto simp: unterminated_def)
    show ?thesis
    proof (cases "e = CHR ''u''")
      case True
      obtain cp where cp: "\<not> length rest \<le> 4" "hex4 (take 4 rest) = Some cp" "cp < 256"
        and rec: "scanstring b (acc @ [char_of cp]) (drop 4 rest) = Inr (t, r')"
        using "2.prems" q bs r True by (auto simp: beyond_escape_def split: if_splits option.splits)
      show ?thesis
        using "2.IH"(1) [OF q bs r True cp(1) cp(2) cp(3) rec] r by simp
    next
      case False
      obtain c' where c': "simple_escape e = Some c'"
        and rec: "scanstring b (acc @ [c']) rest = Inr (t, r')"
        using "2.prems" q bs r False by (auto split: option.splits)
      show ?thesis
        using "2.IH"(2) [OF q bs r False c' rec] r by simp
    qed
  qed
qed

lemma dropWhile_length_le: "length xs \<le> n \<Longrightarrow> length (dropWhile P xs) \<le> n"
  using length_dropWhile_le le_trans by blast

lemma scan_frac_length: "scan_frac r = (fp, r') \<Longrightarrow> length r' \<le> length r"
  by (auto simp: scan_frac_def intro!: dropWhile_length_le split: list.splits if_splits)

lemma scan_exp_length: "scan_exp r = (ep, r') \<Longrightarrow> length r' \<le> length r"
  by (auto simp: scan_exp_def Let_def intro!: dropWhile_length_le split: list.splits if_splits prod.splits)

lemma match_number_cases:
  obtains (no_digit) "match_number r = expecting_value r"
  | (number) neg c r2 fp r4 ep r5 where
      "(case r of c # r' \<Rightarrow> if c = CHR ''-'' then (True, r') else (False, r) | [] \<Rightarrow> (False, [])) = (neg, c # r2)"
      "is_digit c"
      "scan_frac (drop (length (if c = CHR ''0'' then [c] else c # takeWhile is_digit r2)) (c # r2)) = (fp, r4)"
      "scan_exp r4 = (ep, r5)"
      "match_number r =
        (let ip = (if c = CHR ''0'' then [c] else c # takeWhile is_digit r2) in
         if fp = [] \<and> ep = [] then
           (if int_max_str_digits < length ip then Inl (Raise (int_limit_error (length ip)))
            else Inr (PyInt ((if neg then -1 else 1) * int (digits_value ip)), r5))
         else
           (case float_of_string ((if neg then [CHR ''-''] else []) @ ip @ fp @ ep) of
              Inl e \<Rightarrow> Inl (Raise e)
            | Inr x \<Rightarrow> Inr (PyFloat x, r5)))"
proof -
  obtain neg r1 where s: "(case r of c # r' \<Rightarrow> if c = CHR ''-'' then (True, r') else (False, r) | [] \<Rightarrow> (False, [])) = (neg, r1)"
    by fastforce
  show ?thesis
  proof (cases "\<exists>c r2. r1 = c # r2 \<and> is_digit c")
    case False
    then have "match_number r = expecting_value r"
      using s by (cases r1) (auto simp: match_number_def)
    then show ?thesis by (rule no_digit)
  next
    case True
    then obtain c r2 where r1: "r1 = c # r2" and d: "is_digit c" by blast
    obtain fp r4 where f: "scan_frac (drop (length (if c = CHR ''0'' then [c] else c # takeWhile is_digit r2)) (c # r2)) = (fp, r4)"
      by fastforce
    obtain ep r5 where e: "scan_exp r4 = (ep, r5)" by fastforce
    show ?thesis
      by (rule number [OF s [unfolded r1] d f e]) (use s r1 d f e in \<open>simp add: match_number_def Let_def\<close>)
  qed
qed

lemma match_number_length:
  assumes "match_number r = Inr (v, r')"
  shows "length r' < length r"
proof (cases rule: match_number_cases [of r])
  case no_digit
  with assms show ?thesis by (simp add: expecting_value_def)
next
  case (number neg c r2 fp r4 ep r5)
  define ip where "ip = (if c = CHR ''0'' then [c] else c # takeWhile is_digit r2)"
  have ip: "0 < length ip \<and> length ip \<le> Suc (length r2)"
    by (auto simp: ip_def length_takeWhile_le)
  have r: "Suc (length r2) \<le> length r"
    using number(1) by (auto split: list.splits if_splits)
  have "r' = r5"
    using assms unfolding number(5) ip_def [symmetric]
    by (auto simp: Let_def split: if_splits sum.splits)
  moreover have "length r5 < length r"
    using scan_frac_length [OF number(3)] scan_exp_length [OF number(4)] ip r
    unfolding ip_def [symmetric] length_drop length_Cons by linarith
  ultimately show ?thesis by simp
qed

lemma match_number_fuel: "match_number r \<noteq> Inl OutOfFuel"
  by (cases rule: match_number_cases [of r]) (auto simp: expecting_value_def Let_def split: sum.splits)

lemma take1_eq: "take (Suc 0) r = [c] \<longleftrightarrow> (\<exists>r'. r = c # r')"
  by (cases r) auto

lemma skip_ws_less: "length y < length (skip_ws x) \<Longrightarrow> length y < length x"
  using skip_ws_length [of x] by linarith

lemma scan_length_all:
  "(\<forall>r v r'. scan_once n r = Inr (v, r') \<longrightarrow> length r' < length r)
   \<and> (\<forall>r v r'. parse_object n r = Inr (v, r') \<longrightarrow> length r' < length r)
   \<and> (\<forall>acc r v r'. object_items n acc r = Inr (v, r') \<longrightarrow> length r' < length r)
   \<and> (\<forall>r v r'. parse_array n r = Inr (v, r') \<longrightarrow> length r' < length r)
   \<and> (\<forall>xs r v r'. array_items n xs r = Inr (v, r') \<longrightarrow> length r' < length r)"
proof (induction n)
  case 0
  then show ?case by simp
next
  case (Suc n)
  then have IH1: "\<And>r v r'. scan_once n r = Inr (v, r') \<Longrightarrow> length r' < length r"
    and IH2: "\<And>r v r'. parse_object n r = Inr (v, r') \<Longrightarrow> length r' < length r"
    and IH3: "\<And>acc r v r'. object_items n acc r = Inr (v, r') \<Longrightarrow> length r' < length r"
    and IH4: "\<And>r v r'. parse_array n r = Inr (v, r') \<Longrightarrow> length r' < length r"
    and IH5: "\<And>xs r v r'. array_items n xs r = Inr (v, r') \<Longrightarrow> length r' < length r"
    by blast+
  have A: "scan_once (Suc n) r = Inr (v, r') \<Longrightarrow> length r' < length r" for r v r'
    by (auto simp: expecting_value_def dest: scanstring_length match_number_length IH2 IH4
        split: if_splits sum.splits prod.splits list.splits)
  have B: "parse_object (Suc n) r = Inr (v, r') \<Longrightarrow> length r' < length r" for r v r'
  proof -
    assume h: "parse_object (Suc n) r = Inr (v, r')"
    obtain r1 where r1: "skip_ws r = r1" by simp
    have l: "length r1 \<le> length r" using skip_ws_length [of r] by (simp add: r1)
    from h l show ?thesis
      by (auto simp: Let_def r1 dest!: IH3 split: if_splits list.splits)
  qed
  have C: "object_items (Suc n) acc r = Inr (v, r') \<Longrightarrow> length r' < length r" for acc r v r'
  proof -
    assume h: "object_items (Suc n) acc r = Inr (v, r')"
    obtain r0 where r: "r = CHR 0x22 # r0"
      using h by (cases r) (auto split: if_splits)
    obtain key r2 where ks: "scanstring (length r) [] r0 = Inr (key, r2)"
      using h r by (auto split: sum.splits)
    obtain r3 where r3: "skip_ws r2 = r3" by simp
    obtain r3' where c: "r3 = CHR '':'' # r3'"
      using h r ks r3 by (auto simp: take1_eq split: if_splits)
    obtain x r4 where s: "scan_once n (skip_ws r3') = Inr (x, r4)"
      using h r ks r3 c by (auto split: sum.splits)
    obtain r5 where r5: "skip_ws r4 = r5" by simp
    have l: "length r4 < length r"
      using skip_ws_less [OF IH1 [OF s]] scanstring_length [OF ks] skip_ws_length [of r2] r r3 c
      by simp
    have l5: "length r5 \<le> length r4" using skip_ws_length [of r4] r5 by simp
    from h r ks r3 c s r5 l l5 show ?thesis
      by (auto simp: Let_def take1_eq dest!: IH3 skip_ws_less split: if_splits)
  qed
  have D: "parse_array (Suc n) r = Inr (v, r') \<Longrightarrow> length r' < length r" for r v r'
  proof -
    assume h: "parse_array (Suc n) r = Inr (v, r')"
    obtain r1 where r1: "skip_ws r = r1" by simp
    have l: "length r1 \<le> length r" using skip_ws_length [of r] by (simp add: r1)
    from h l show ?thesis
      by (auto simp: Let_def r1 take1_eq dest!: IH5 split: if_splits list.splits)
  qed
  have E: "array_items (Suc n) xs r = Inr (v, r') \<Longrightarrow> length r' < length r" for xs r v r'
  proof -
    assume h: "array_items (Suc n) xs r = Inr (v, r')"
    obtain x r1 where s: "scan_once n r = Inr (x, r1)"
      using h by (auto split: sum.splits)
    obtain r2 where r2: "skip_ws r1 = r2" by simp
    have l: "length r2 < length r"
      using IH1 [OF s] skip_ws_length [of r1] r2 by simp
    from h s r2 l show ?thesis
      by (auto simp: Let_def take1_eq dest!: IH5 skip_ws_less split: if_splits)
  qed
  show ?case using A B C D E by blast
qed

lemma scan_once_length: "scan_once n r = Inr (v, r') \<Longrightarrow> length r' < length r"
  and object_items_length: "object_items n acc r = Inr (v, r') \<Longrightarrow> length r' < length r"
  and array_items_length: "array_items n xs r = Inr (v, r') \<Longrightarrow> length r' < length r"
  using scan_length_all [of n] by blast+

lemma scanstring_fuel: "scanstring b acc r \<noteq> Inl OutOfFuel"
proof (induction b acc r rule: scanstring.induct)
  case (1 b acc)
  then show ?case by (simp add: unterminated_def)
next
  case (2 b acc c r)
  show ?case
  proof (cases "c = CHR 0x22 \<or> c \<noteq> CHR 0x5C")
    case True
    with "2.IH"(3) show ?thesis by (cases "c = CHR 0x22") auto
  next
    case False
    then have q: "c \<noteq> CHR 0x22" and bs: "c = CHR 0x5C" by auto
    show ?thesis
    proof (cases r)
      case Nil
      with q bs show ?thesis by (simp add: unterminated_def)
    next
      case (Cons e rest)
      show ?thesis
      proof (cases "e = CHR ''u''")
        case True
        with q bs Cons "2.IH"(1) show ?thesis
          by (auto simp: bad_uescape_def beyond_escape_def split: option.splits)
      next
        case False
        with q bs Cons "2.IH"(2) show ?thesis
          by (auto split: option.splits)
      qed
    qed
  qed
qed

lemma scan_fuel_all:
  "(\<forall>r. 3 * length r < n \<longrightarrow> scan_once n r \<noteq> Inl OutOfFuel)
   \<and> (\<forall>r. 3 * length r + 2 < n \<longrightarrow> parse_object n r \<noteq> Inl OutOfFuel)
   \<and> (\<forall>acc r. 3 * length r + 1 < n \<longrightarrow> object_items n acc r \<noteq> Inl OutOfFuel)
   \<and> (\<forall>r. 3 * length r + 2 < n \<longrightarrow> parse_array n r \<noteq> Inl OutOfFuel)
   \<and> (\<forall>xs r. 3 * length r + 1 < n \<longrightarrow> array_items n xs r \<noteq> Inl OutOfFuel)"
proof (induction n)
  case 0
  then show ?case by simp
next
  case (Suc n)
  then have IH1: "\<And>r. 3 * length r < n \<Longrightarrow> scan_once n r \<noteq> Inl OutOfFuel"
    and IH2: "\<And>r. 3 * length r + 2 < n \<Longrightarrow> parse_object n r \<noteq> Inl OutOfFuel"
    and IH3: "\<And>acc r. 3 * length r + 1 < n \<Longrightarrow> object_items n acc r \<noteq> Inl OutOfFuel"
    and IH4: "\<And>r. 3 * length r + 2 < n \<Longrightarrow> parse_array n r \<noteq> Inl OutOfFuel"
    and IH5: "\<And>xs r. 3 * length r + 1 < n \<Longrightarrow> array_items n xs r \<noteq> Inl OutOfFuel"
    by blast+
  have A: "3 * length r < Suc n \<Longrightarrow> scan_once (Suc n) r \<noteq> Inl OutOfFuel" for r
  proof (cases r)
    case Nil
    then show ?thesis by (simp add: expecting_value_def)
  next
    case (Cons c r')
    assume l: "3 * length r < Suc n"
    with Cons have "3 * length r' + 2 < n" by simp
    with Cons show ?thesis
      using IH2 IH4 scanstring_fuel [of "length r" "[]" r'] match_number_fuel [of r]
      by (auto split: sum.splits)
  qed
  have B: "3 * length r + 2 < Suc n \<Longrightarrow> parse_object (Suc n) r \<noteq> Inl OutOfFuel" for r
  proof -
    assume l: "3 * length r + 2 < Suc n"
    obtain r1 where r1: "skip_ws r = r1" by simp
    have "3 * length r1 + 1 < n" using l skip_ws_length [of r] r1 by simp
    then show ?thesis using IH3 by (auto simp: Let_def r1 split: list.splits)
  qed
  have C: "3 * length r + 1 < Suc n \<Longrightarrow> object_items (Suc n) acc r \<noteq> Inl OutOfFuel" for acc r
  proof -
    assume l: "3 * length r + 1 < Suc n"
    show ?thesis
    proof (cases "\<exists>r0. r = CHR 0x22 # r0")
      case False
      then show ?thesis by (cases r) auto
    next
      case True
      then obtain r0 where r: "r = CHR 0x22 # r0" by blast
      show ?thesis
      proof (cases "scanstring (length r) [] r0")
        case (Inl e)
        then show ?thesis using r scanstring_fuel [of "length r" "[]" r0] by auto
      next
        case (Inr p)
        then obtain key r2 where ks: "scanstring (length r) [] r0 = Inr (key, r2)" by (cases p) auto
        obtain r3 where r3: "skip_ws r2 = r3" by simp
        have l3: "length r3 < length r"
          using scanstring_length [OF ks] skip_ws_length [of r2] r3 r by simp
        show ?thesis
        proof (cases "\<exists>r3'. r3 = CHR '':'' # r3'")
          case False
          then show ?thesis using r ks r3 by (auto simp: Let_def take1_eq)
        next
          case True
          then obtain r3' where c: "r3 = CHR '':'' # r3'" by blast
          have "length r3 = Suc (length r3')" using c by simp
          then have f1: "3 * length (skip_ws r3') < n"
            using l l3 skip_ws_length [of r3'] by linarith
          have f2: "3 * length (skip_ws r6) + 1 < n"
            if "scan_once n (skip_ws r3') = Inr (x, r4)" and "skip_ws r4 = CHR '','' # r6" for x r4 r6
          proof -
            have "length r4 < length (skip_ws r3')" by (rule scan_once_length [OF that(1)])
            moreover have "length r6 < length r4"
              using skip_ws_length [of r4] that(2) by simp
            moreover have "length (skip_ws r6) \<le> length r6" by (rule skip_ws_length)
            moreover have "length (skip_ws r3') \<le> length r3'" by (rule skip_ws_length)
            moreover have "length r3 = Suc (length r3')" using c by simp
            ultimately show ?thesis using l l3 by linarith
          qed
          have f3: "object_items n acc' (skip_ws r6) \<noteq> Inl OutOfFuel"
            if "scan_once n (skip_ws r3') = Inr (x, r4)" and "skip_ws r4 = CHR '','' # r6" for x r4 r6 acc'
            using IH3 f2 [OF that] by blast
          show ?thesis
            using r ks r3 c IH1 [OF f1] f3
            by (auto simp: Let_def take1_eq split: sum.splits)
        qed
      qed
    qed
  qed
  have D: "3 * length r + 2 < Suc n \<Longrightarrow> parse_array (Suc n) r \<noteq> Inl OutOfFuel" for r
  proof -
    assume l: "3 * length r + 2 < Suc n"
    obtain r1 where r1: "skip_ws r = r1" by simp
    have "3 * length r1 + 1 < n" using l skip_ws_length [of r] r1 by simp
    then show ?thesis using IH5 by (auto simp: Let_def r1)
  qed
  have E: "3 * length r + 1 < Suc n \<Longrightarrow> array_items (Suc n) xs r \<noteq> Inl OutOfFuel" for xs r
  proof -
    assume l: "3 * length r + 1 < Suc n"
    have f2: "3 * length (skip_ws r3) + 1 < n"
      if "scan_once n r = Inr (x, r1)" and "skip_ws r1 = CHR '','' # r3" for x r1 r3
    proof -
      have "length r1 < length r" by (rule scan_once_length [OF that(1)])
      moreover have "length r3 < length r1"
        using skip_ws_length [of r1] that(2) by simp
      moreover have "length (skip_ws r3) \<le> length r3" by (rule skip_ws_length)
      ultimately show ?thesis using l by linarith
    qed
    have f3: "array_items n xs' (skip_ws r3) \<noteq> Inl OutOfFuel"
      if "scan_once n r = Inr (x, r1)" and "skip_ws r1 = CHR '','' # r3" for x r1 r3 xs'
      using IH5 f2 [OF that] by blast
    have "3 * length r < n" using l by simp
    then show ?thesis
      using IH1 f3 by (auto simp: Let_def take1_eq split: sum.splits)
  qed
  show ?case using A B C D E by blast
qed

lemma abs_pos_OutOfFuel [simp]: "abs_pos n e = OutOfFuel \<longleftrightarrow> e = OutOfFuel"
  by (cases e) auto

lemma json_loads_fuel: "json_loads s \<noteq> Inl OutOfFuel"
proof -
  have "3 * length (skip_ws s) < json_fuel s"
    using skip_ws_length [of s] unfolding json_fuel_def by linarith
  then have "scan_once (json_fuel s) (skip_ws s) \<noteq> Inl OutOfFuel"
    using scan_fuel_all [of "json_fuel s"] by blast
  then show ?thesis
    by (auto simp: json_loads_def Let_def split: sum.splits)
qed

end
