(* ===== verification/Http_Transfer.thy ===== *)
theory Http_Transfer
  imports Json_Decode "HOL-Library.Stream"
begin

text \<open>
  The time a request takes. Both requests of \<open>src/CurrencyConverter.py\<close> (lines 50 and
  127) pass \<open>timeout=10\<close> to \<open>requests.get\<close>. In \<open>requests\<close> that number bounds each
  wait on the socket, for the connection and then between two pieces of the body,
  not the whole call. The body arrives as a stream of packets, each after a gap in
  seconds; \<open>read_body\<close> is the receiving loop, a \<open>partial_function (option)\<close> whose
  \<open>None\<close> is a call that never returns. It returns when a gap exceeds the timeout
  (raising \<open>ReadTimeout\<close>) or the body ends, and only then.

  A server is a \<open>wire_reply\<close> per URL: a refused connection, or a status line and a
  body arriving as timed packets. \<open>wire_get\<close> is \<open>requests.get(url, timeout=10)\<close>
  against it: it blocks when the body never ends, and otherwise gives the response the
  program's \<open>raise_for_status\<close> and \<open>response.json()\<close> then read, the body decoded
  by \<open>json_loads\<close>. The result is a \<open>wait\<close>: \<open>Blocks\<close> is a call that never
  returns, \<open>Outside\<close> a body the response model cannot hold.
\<close>

datatype packet = Byte char | Eof

definition http_timeout :: nat where
  "http_timeout = 10"

text \<open>The message of the \<open>ReadTimeout\<close> raised by \<open>urllib3\<close> under \<open>requests\<close>.\<close>

definition read_timeout_msg :: "nat \<Rightarrow> string" where
  "read_timeout_msg t = ''HTTPSConnectionPool(host='' @ [CHR 0x27] @ ''v6.exchangerate-api.com'' @ [CHR 0x27]
     @ '', port=443): Read timed out. (read timeout='' @ show_nat t @ '')''"

partial_function (option) read_body :: "nat \<Rightarrow> string \<Rightarrow> (nat \<times> packet) stream \<Rightarrow> (exc + string) option" where
  "read_body t acc xs = (case shd xs of
       (gap, p) \<Rightarrow>
         if t < gap then Some (Inl (Exc ReadTimeout (read_timeout_msg t)))
         else (case p of
                 Eof \<Rightarrow> Some (Inr acc)
               | Byte c \<Rightarrow> read_body t (acc @ [c]) (stl xs)))"

text \<open>The loop stops at packet \<open>n\<close> when the wait before it exceeds the timeout or it
  ends the body.\<close>

definition stops_at :: "nat \<Rightarrow> (nat \<times> packet) stream \<Rightarrow> nat \<Rightarrow> bool" where
  "stops_at t xs n \<longleftrightarrow> t < fst (xs !! n) \<or> snd (xs !! n) = Eof"

datatype wire_reply = Refused exc | Served int string "(nat \<times> packet) stream"

datatype 'a wait = Returns 'a | Blocks | Outside

text \<open>The body of an error status is never decoded: \<open>raise_for_status()\<close> raises
  before \<open>response.json()\<close> is reached.\<close>

definition wire_get :: "(string \<Rightarrow> wire_reply) \<Rightarrow> string \<Rightarrow> http_outcome wait" where
  "wire_get w url = (case w url of
       Refused e \<Rightarrow> Returns (Fail e)
     | Served c rsn xs \<Rightarrow>
         (case read_body http_timeout [] xs of
            None \<Rightarrow> Blocks
          | Some (Inl e) \<Rightarrow> Returns (Fail e)
          | Some (Inr text) \<Rightarrow>
              (let r = \<lparr>status_code = c, reason = rsn, resp_url = url, body = JsonBad []\<rparr> in
               if raise_for_status r \<noteq> Inr () then Returns (Resp r)
               else case body_of_text text of
                      None \<Rightarrow> Outside
                    | Some b \<Rightarrow> Returns (Resp (r\<lparr>body := b\<rparr>)))))"

section \<open>Properties\<close>

lemma read_body_returns:
  "stops_at t xs n \<Longrightarrow> \<exists>r. read_body t acc xs = Some r \<and> (\<forall>e. r = Inl e \<longrightarrow> exc_type e = ReadTimeout)"
proof (induction n arbitrary: acc xs)
  case 0
  then show ?case
    by (cases "shd xs") (auto simp: stops_at_def read_body.simps split: packet.splits)
next
  case (Suc n)
  obtain gap p where h: "shd xs = (gap, p)" by (cases "shd xs")
  show ?case
  proof (cases "t < gap \<or> p = Eof")
    case True
    then show ?thesis by (auto simp: read_body.simps h split: packet.splits)
  next
    case False
    then obtain c where c: "p = Byte c" and g: "\<not> t < gap" by (cases p) auto
    from Suc.prems have "stops_at t (stl xs) n" by (simp add: stops_at_def)
    from Suc.IH [OF this, of "acc @ [c]"] show ?thesis
      by (subst read_body.simps) (simp add: h c g)
  qed
qed

lemma read_body_stops:
  assumes "read_body t acc xs = Some r"
  shows "\<exists>n. stops_at t xs n"
proof (rule read_body.raw_induct [where P = "\<lambda>t acc xs r. \<exists>n. stops_at t xs n", OF _ assms])
  fix f t acc xs r
  assume IH: "\<And>t acc xs r. f t acc xs = Some r \<Longrightarrow> \<exists>n. stops_at t xs n"
    and eq: "(case shd xs of (gap, p) \<Rightarrow>
         if t < gap then Some (Inl (Exc ReadTimeout (read_timeout_msg t)))
         else (case p of Eof \<Rightarrow> Some (Inr acc) | Byte c \<Rightarrow> f t (acc @ [c]) (stl xs))) = Some r"
  obtain gap p where h: "shd xs = (gap, p)" by (cases "shd xs")
  show "\<exists>n. stops_at t xs n"
  proof (cases "t < gap \<or> p = Eof")
    case True
    then have "stops_at t xs 0" using h by (auto simp: stops_at_def)
    then show ?thesis by blast
  next
    case False
    then obtain c where c: "p = Byte c" and g: "\<not> t < gap" by (cases p) auto
    with eq h have "f t (acc @ [c]) (stl xs) = Some r" by simp
    then obtain n where "stops_at t (stl xs) n" using IH by blast
    then have "stops_at t xs (Suc n)" by (simp add: stops_at_def)
    then show ?thesis by blast
  qed
qed

text \<open>The receiving loop of \<open>requests.get(url, timeout=10)\<close> terminates exactly when some packet
  stops it: a wait longer than the timeout, which raises \<open>ReadTimeout\<close>, or the end of
  the body.\<close>

lemma read_body_terminates_iff:
  "(\<exists>r. read_body http_timeout acc xs = Some r) \<longleftrightarrow> (\<exists>n. stops_at http_timeout xs n)"
  using read_body_returns read_body_stops by blast

text \<open>The timeout does not bound the call: a server that sends one byte every 9
  seconds, for ever, keeps \<open>requests.get(url, timeout=10)\<close> from returning, although
  no single wait reaches the 10 seconds.\<close>

lemma read_body_trickle: "read_body http_timeout acc (sconst (9, Byte c)) = None"
proof (rule ccontr)
  assume "read_body http_timeout acc (sconst (9, Byte c)) \<noteq> None"
  then obtain r where "read_body http_timeout acc (sconst (9, Byte c)) = Some r" by blast
  then obtain n where "stops_at http_timeout (sconst (9, Byte c)) n" by (blast dest: read_body_stops)
  then show False by (simp add: stops_at_def http_timeout_def)
qed

lemma wire_get_blocks_iff:
  "w url = Served c rsn xs \<Longrightarrow> wire_get w url = Blocks \<longleftrightarrow> read_body http_timeout [] xs = None"
  by (auto simp: wire_get_def Let_def split: option.splits sum.splits)

lemma wire_get_decode_error:
  assumes "w url = Served c rsn xs" and "c < 400"
    and "read_body http_timeout [] xs = Some (Inr t)" and "json_loads t = Inl (Decode m p)"
  shows "wire_get w url =
    Returns (Resp \<lparr>status_code = c, reason = rsn, resp_url = url, body = JsonBad (json_errmsg m t p)\<rparr>)"
  using assms by (simp add: wire_get_def body_of_text_def)

end
