(* ===== verification/Spec2Isabelle.thy ===== *)
theory Spec2Isabelle
  imports Session Conversion_Spec Http_Transfer
begin

text \<open>
  \<^bold>\<open>A verification model of CurrencyConverter.\<close>

  The program (\<open>src/CurrencyConverter.py\<close>, one PyQt6 window class) converts an
  amount between two currencies with rates fetched from an exchange-rate web service.
  Its parts and how they interact:
  \<^item> the \<^emph>\<open>window state\<close>: the amount field, the two currency boxes, the results
    display and four message labels (class \<open>CurrencyConverterApp\<close>, lines 8 to 42);
  \<^item> the \<^emph>\<open>currency list\<close> fetched once at start-up (\<open>initialize_currencies\<close>,
    lines 44 to 66), which fills both boxes after the placeholder \<open>"Choose"\<close>;
  \<^item> the \<^emph>\<open>Conversion Service\<close>, the handler of the Convert button
    (\<open>convert_currency\<close>, lines 68 to 118): it validates the amount and the choices,
    calls the Rate Provider, multiplies, and displays the result or a message;
  \<^item> the \<^emph>\<open>Rate Provider\<close> (\<open>get_exchange_rate\<close>, lines 120 to 143): one HTTP GET
    per conversion, the JSON reply read as a rate table;
  \<^item> the libraries underneath, modelled as far as the code relies on them: Python
    floats (\<open>float()\<close>, \<open>*\<close>, the \<open>.2f\<close> field), \<open>json.loads\<close> and the objects
    it returns with the dictionary operations on them, Python exceptions and the
    \<open>except\<close> clauses that match them, \<open>requests\<close> with its timeout, and the Qt
    widgets.

  \<^bold>\<open>Theories.\<close>
  \<^item> \<open>Py_Base\<close> (prelude): strings as code-point lists ordered as Python orders
    \<open>str\<close>, decimal digits, list lemmas, the collections \<open>model_defs\<close> and
    \<open>digit_simps\<close>.
  \<^item> \<open>Py_Exc\<close>: exception classes with their \<open>__mro__\<close>, \<open>isinstance\<close>, results
    \<open>exc + 'a\<close> (\<open>Inl\<close> a raised exception), \<open>repr\<close> of a \<open>str\<close>; a lemma shows the
    flat method resolution orders equal to the closure of the declared base classes.
  \<^item> \<open>Py_Float\<close>: IEEE binary64 values; \<open>round_double\<close> rounds an exact rational
    to the nearest double (ties to even, overflow to infinity, subnormals, signed
    zero), so that \<open>float(str)\<close> (\<open>float_of_string\<close>, CPython's grammar with
    underscores, whitespace, \<open>inf\<close>/\<open>nan\<close>), the product \<open>fmul\<close> and the
    \<open>.2f\<close> printer \<open>fmt2\<close> compute what CPython computes. \<open>is_double\<close> is the set of
    binary64 values. Its lemmas (that a two-decimal literal survives \<open>float()\<close> and
    \<open>.2f\<close>, the rounding error bound, the overflow threshold
    \<open>2\<^sup>1\<^sup>0\<^sup>2\<^sup>4 - 2\<^sup>9\<^sup>7\<^sup>0\<close>, that rounding yields a double) carry C23 and C24.
  \<^item> \<open>Py_Objects\<close>: the decoded JSON values \<open>pyval\<close> and \<open>d.get\<close>,
    \<open>d.keys()\<close>, \<open>k in d\<close>, \<open>d[k]\<close>, \<open>float * v\<close>, each raising what CPython
    raises on a value of another type.
  \<^item> \<open>Http_Requests\<close>: \<open>requests.get\<close>, \<open>raise_for_status\<close>, \<open>json()\<close>. The
    network is a parameter \<open>net :: string \<Rightarrow> http_outcome\<close>, a response or the
    exception raised, for each URL: a mocked upstream service is such a function.
  \<^item> \<open>Json_Decode\<close>: \<open>json.loads\<close> as CPython 3.12's C scanner runs it
    (\<open>scan_once\<close>, \<open>parse_object\<close>, \<open>parse_array\<close>, \<open>scanstring\<close>,
    \<open>match_number\<close>), with its \<open>JSONDecodeError\<close> messages and positions
    (\<open>json_errmsg\<close>); \<open>body_of_text\<close> is what \<open>response.json()\<close> then gives.
  \<^item> \<open>Http_Transfer\<close>: the time a request takes. The body arrives as a stream of
    packets after gaps in seconds; \<open>read_body\<close>, a \<open>partial_function (option)\<close>, is
    the receiving loop under \<open>timeout=10\<close> (\<open>http_timeout\<close>), and it returns exactly
    when a gap exceeds the timeout or the body ends. \<open>wire_get\<close> is
    \<open>requests.get\<close> against a server given by a status line and such a stream: the
    loop, then the status, then the decoder.
  \<^item> \<open>Rate_Provider\<close>: \<open>get_exchange_rate_body\<close> (the \<open>try\<close> body),
    \<open>get_exchange_rate\<close> (with its two handlers; it also returns the URLs it
    requested) and \<open>fetch_currencies\<close> (the request part of
    \<open>initialize_currencies\<close>); \<open>fixed_service\<close> is a mocked service answering every
    request with one rate table. Its lemmas classify what it raises (C21) and fix the
    handler order on undecodable replies (C22).
  \<^item> \<open>Qt_Widgets\<close>: \<open>QComboBox\<close> (items, current index) and \<open>QLabel\<close> (text,
    visibility) with the methods the program calls.
  \<^item> \<open>Converter_App\<close>: the state record \<open>app\<close> (the widgets and a ghost log
    \<open>requested\<close> of the URLs fetched), \<open>setupUi\<close> (the generated \<open>Currency_ui\<close>
    module, not in the sources, modelled from the spec), \<open>init_state\<close> and
    \<open>app_init\<close> (\<open>__init__\<close>), \<open>initialize_currencies\<close>, and \<open>convert_currency\<close>
    with its \<open>try\<close> block \<open>convert_try\<close> (which returns the state reached and the
    exception raised) and its handlers \<open>convert_except\<close>. Its lemmas give the outcome
    of a click on every branch (C1 to C7), count the requests (C11), show that at most
    one message label is visible after a click (C12) and give the three outcomes of the
    start-up (C18 to C20).
  \<^item> \<open>Session\<close>: the window over time. The inductive relation \<open>session\<close> is the set
    of states the events can reach: creation with any service, typing, choosing an
    item of either box, clicking Convert (the handler connected at line 42). \<open>step\<close>
    is the handler of one event and \<open>run\<close> the event loop of \<open>__main__\<close> (lines 145 to
    149), a fold of \<open>step\<close> after the start-up, proved to compute exactly the states of
    \<open>session\<close>. Its lemmas prove the invariant \<open>app_wf\<close> of every reachable state by
    rule induction (C13), derive that a successful click resets both boxes to
    \<open>"Choose"\<close> (C14), and that from every reachable state a conversion can still
    succeed (C17).
  \<^item> \<open>Conversion_Spec\<close>: the contract of \<open>spec.md\<close> sections 4, 6 and 7 as abstract
    definitions: the upstream API's replies \<open>api_reply\<close> and \<open>serve\<close>, which makes them
    a network; the Rate Provider's \<open>get_rate_spec\<close> and \<open>list_currencies_spec\<close> with
    the error kinds \<open>provider_error\<close>; the Conversion Service \<open>convert_spec\<close> with its
    four outcomes and the provider calls it makes; \<open>present\<close> and \<open>present_init\<close>,
    how the window shows an outcome. Its refinement lemmas prove the code equal to
    the presentation of the abstract outcome for the Convert handler (C8), the Rate
    Provider (C9) and the start-up (C10).
  \<^item> This theory composes the Convert handler with the wire: \<open>click_wire\<close> runs
    \<open>convert_currency\<close> with each request answered by \<open>wire_get\<close>, and is
    \<open>Blocks\<close> when a request it makes never returns. A click returns exactly when the
    rate reply's body stops (C15); a rate reply that \<open>json.loads\<close> rejects is shown
    as \<open>HTTP error: \<close> followed by the decoder's message (C16). The other two
    properties follow the amount through \<open>float()\<close>, the product and \<open>.2f\<close>: at the
    rate 1 a two-decimal amount is shown as typed (C23), and in general the shown value
    is the product rounded once to a double, within the binary64 error bound, and an
    infinity exactly from the overflow threshold (C24).

  \<^bold>\<open>Correspondence.\<close> Each Python method is one HOL definition of the same name;
  each statement that can raise is a \<open>case\<close> on an \<open>exc + 'a\<close> result, in the
  source's order, so an exception skips the rest of the block as it does in Python;
  each \<open>except\<close> clause is an \<open>isinstance\<close> test, in the source's order. The
  mutations of a widget are record updates of the state. The event loop
  (\<open>__main__\<close>, \<open>app.exec()\<close>) is \<open>run\<close>, and equivalently the relation \<open>session\<close>:
  every sequence of events it can deliver is a derivation.

  \<^bold>\<open>Bounds and fuel.\<close> \<open>run\<close> is a fold over a finite list of events and
  \<open>session\<close> an inductive relation, so no run length is fixed. The body transfer may
  not end: \<open>read_body\<close> is in the \<open>option\<close> mode and when it returns is a theorem
  (\<open>read_body_terminates_iff\<close>, used by C15). The JSON scanner recurses through
  objects and arrays with fuel \<open>json_fuel\<close>, three units per character plus one;
  \<open>json_loads_fuel\<close> proves that this fuel never runs out, because every call that
  spends a unit first consumes a character or is followed by one that does.

  \<^bold>\<open>What is not modelled.\<close> Drawing, layout, styles and geometry
  (\<open>setStyleSheet\<close>, \<open>setGeometry\<close>: no behaviour the code observes depends on them),
  and \<open>window.show()\<close>; the connection phase and its 10-second wait are one of the
  exceptions a network may return (\<open>Refused\<close> on the wire); HTTP redirects and
  headers; characters above U+00FF (HOL characters are the code points below 256,
  which holds every character CPython's \<open>float()\<close> treats specially: the ASCII digits
  and the spaces U+0085 and U+00A0). A body whose \<open>\uXXXX\<close> escapes leave that
  range, or whose integer exceeds CPython's 4300-digit limit, is \<open>Outside\<close> the
  response model, and no property is about it. CPython's limit of \<open>10\<^sup>9\<close> digits on a
  float literal is not modelled: a \<open>QLineEdit\<close> holds at most 32767 characters. The
  refinement lemmas cover the replies the spec's interface allows (\<open>api_wf\<close>):
  replies that are not JSON objects are covered by C21 and C22 instead.

  \<^bold>\<open>Findings.\<close> The results display is never cleared by a click, so a rejected
  input leaves the previous result on screen (C2); the amount is not checked to be
  non-negative or finite (C1 holds for every amount \<open>float()\<close> accepts); a reply
  that is JSON but not an object escapes the Rate Provider's handlers (C21); a body
  that does not decode is reported as an HTTP error (C22, C16); an HTTP error status is
  reported as a transport error (C9); an upstream failure at start-up is shown as an
  unexpected error (C19); the displayed result is rounded twice, first to a double,
  then half to even to two decimals (\<open>display_double_rounding\<close>: 5 at the rate 0.025
  shows 0.12); a product that overflows is shown as \<open>inf\<close> (C24); and the 10-second
  timeout does not bound a request, only each wait within it, so a server that sends a
  byte every 9 seconds holds the click for ever (C15).
\<close>

section \<open>A click against a server on the wire\<close>

text \<open>The Convert handler against a server that answers each URL with a status line and
  a body arriving as timed packets (\<open>wire_get\<close>). The handler is \<open>convert_currency\<close>
  applied to what each \<open>requests.get\<close> returns; \<open>settle\<close> only fills in a value for
  a call that does not return, and \<open>click_wire\<close> looks at the calls the handler made
  (the URLs it added to the log \<open>requested\<close>): if one of them blocks, the click never
  returns, and the filled-in value is never read. \<open>demo_window\<close> and
  \<open>demo_wire\<close> are the inputs the witnesses use.\<close>

definition settle :: "http_outcome wait \<Rightarrow> http_outcome" where
  "settle a = (case a of Returns x \<Rightarrow> x | _ \<Rightarrow> Fail (Exc ReqConnectionError []))"

definition click_wire :: "(string \<Rightarrow> wire_reply) \<Rightarrow> app \<Rightarrow> app wait" where
  "click_wire w s =
    (let s' = convert_currency (\<lambda>u. settle (wire_get w u)) s;
         calls = map (wire_get w) (drop (length (requested s)) (requested s'))
     in if Blocks \<in> set calls then Blocks else if Outside \<in> set calls then Outside else Returns s')"

abbreviation demo_window :: "string \<Rightarrow> int \<Rightarrow> app" where
  "demo_window t j \<equiv> setupUi\<lparr>lineEdit := t, FromBox := \<lparr>items = [''Choose'', ''EUR'', ''USD''], cur = 2\<rparr>,
     ToBox := \<lparr>items = [''Choose'', ''EUR'', ''USD''], cur = j\<rparr>\<rparr>"

abbreviation demo_wire :: "(nat \<times> packet) stream \<Rightarrow> string \<Rightarrow> wire_reply" where
  "demo_wire xs \<equiv> \<lambda>_. Served 200 ''OK'' xs"

section \<open>Lemmas shared by the window's properties\<close>

lemma demo_window_boxes:
  "currentText (FromBox (demo_window t j)) = ''USD''"
  "currentText (ToBox (demo_window t 1)) = ''EUR''"
  "currentText (ToBox (demo_window t 2)) = ''USD''"
  "''USD'' \<noteq> placeholder" "''EUR'' \<noteq> placeholder"
  by (simp_all add: currentText_def placeholder_def)



lemma requested_convert_request:
  assumes "float_of_string (lineEdit s) = Inr a"
    and "currentText (FromBox s) = fr" "currentText (ToBox s) = to"
    and "fr \<noteq> placeholder" "to \<noteq> placeholder"
  shows "requested (convert_currency net s) = requested s @ [rate_url fr]"
  by (simp add: convert_currency_request [OF assms] Let_def split: sum.splits)

lemma click_wire_request:
  assumes "float_of_string (lineEdit s) = Inr a"
    and "currentText (FromBox s) = fr" "currentText (ToBox s) = to"
    and "fr \<noteq> placeholder" "to \<noteq> placeholder"
  shows "click_wire w s = (case wire_get w (rate_url fr) of
       Blocks \<Rightarrow> Blocks | Outside \<Rightarrow> Outside
     | Returns _ \<Rightarrow> Returns (convert_currency (\<lambda>u. settle (wire_get w u)) s))"
  by (simp add: click_wire_def requested_convert_request [OF assms] split: wait.splits)

lemma rate_reply:
  assumes "net (rate_url fr) = Resp r" "status_code r < 400" "body r = JsonOk (PyDict kvs)"
    and "map_of kvs ''result'' = Some (PyStr ''success'')"
    and "map_of kvs ''conversion_rates'' = Some (PyDict rates)"
    and "map_of rates to = Some v"
  shows "fst (get_exchange_rate net fr to) = Inr v"
  using get_exchange_rate_body_rates [where net = net and f = fr and t = to, OF assms(1-5)] assms(6)
  by (simp add: get_exchange_rate_def)

lemma display_converted:
  assumes "float_of_string (lineEdit s) = Inr x"
    and "currentText (FromBox s) = fr" "currentText (ToBox s) = to"
    and "fr \<noteq> placeholder" "to \<noteq> placeholder"
    and "fst (get_exchange_rate net fr to) = Inr v" and "py_mul_float x v = Inr y"
  shows "ResultsDisplay (convert_currency net s) = result_html y to"
  by (simp add: convert_currency_request [OF assms(1-5)] assms(6,7) conversion_done_def)

lemma py_mul_float_one:
  assumes "is_double (Fin v)"
  shows "py_mul_float (Fin v) (PyInt 1) = Inr (Fin v)"
proof -
  have "float_of_int 1 = Fin 1"
    using round_double_of_nat [of 1] by (simp add: float_of_int_def)
  then show ?thesis by (simp add: py_mul_float_def fmul_one [OF assms])
qed


lemma float_of_string_0025: "float_of_string ''0.025'' = Inr (Fin (3602879701896397 / 144115188075855872))"
  by code_simp

lemma float_of_string_5: "float_of_string ''5'' = Inr (Fin 5)"
  by code_simp

lemma fmul_5_0025: "fmul (Fin 5) (Fin (3602879701896397 / 144115188075855872)) = Fin (1/8)"
  by code_simp

lemma fmt2_eighth: "fmt2 (Fin (1/8)) = ''0.12''"
  by code_simp

lemma round_exact_5_0025: "round_half_even (5 * (3602879701896397 / 144115188075855872) * 100) = 13"
  by code_simp

text \<open>The display rounds twice: \<open>5\<close> at the rate \<open>0.025\<close> shows \<open>0.12\<close>, because the
  product of the two doubles is first rounded to the double \<open>0.125\<close> and that tie then
  goes to the even digit, while the exact product of the amount and the rate,
  \<open>0.125000000000000006...\<close>, rounds to \<open>0.13\<close>.\<close>

lemma display_double_rounding:
  "float_of_string ''5'' = Inr (Fin 5) \<and> float_of_string ''0.025'' = Inr (Fin (3602879701896397 / 144115188075855872))
   \<and> fmt2 (fmul (Fin 5) (Fin (3602879701896397 / 144115188075855872))) = ''0.12''
   \<and> round_half_even (5 * (3602879701896397 / 144115188075855872) * 100) = 13"
  unfolding fmul_5_0025 fmt2_eighth round_exact_5_0025 float_of_string_5 float_of_string_0025
  by simp

section \<open>Properties of a click\<close>

text \<open>C15. A click that requests the rate table of the source currency from a server
  that accepts the connection returns exactly when the body transfer stops, by a gap
  longer than the 10-second timeout or by the end of the body. So the timeout does not
  bound the click: a server that sends a byte every 9 seconds keeps it from returning.\<close>

theorem click_wire_returns_iff:
  assumes "float_of_string (lineEdit s) = Inr a"
    and "currentText (FromBox s) = fr" "currentText (ToBox s) = to"
    and "fr \<noteq> placeholder" "to \<noteq> placeholder"
    and "w (rate_url fr) = Served c rsn xs"
  shows "click_wire w s \<noteq> Blocks \<longleftrightarrow> (\<exists>n. stops_at http_timeout xs n)"
proof -
  have "click_wire w s \<noteq> Blocks \<longleftrightarrow> wire_get w (rate_url fr) \<noteq> Blocks"
    by (simp add: click_wire_request [OF assms(1-5)] split: wait.splits)
  also have "\<dots> \<longleftrightarrow> read_body http_timeout [] xs \<noteq> None"
    using wire_get_blocks_iff [where w = w and url = "rate_url fr", OF assms(6)] by simp
  also have "\<dots> \<longleftrightarrow> (\<exists>n. stops_at http_timeout xs n)"
    using read_body_terminates_iff [of "[]" xs] by auto
  finally show ?thesis .
qed

theorem click_wire_returns_iff_witness:
  "float_of_string (lineEdit (demo_window ''100'' 1)) = Inr (Fin 100)
   \<and> currentText (FromBox (demo_window ''100'' 1)) = ''USD'' \<and> currentText (ToBox (demo_window ''100'' 1)) = ''EUR''
   \<and> ''USD'' \<noteq> placeholder \<and> ''EUR'' \<noteq> placeholder
   \<and> demo_wire (sconst (9, Byte CHR ''1'')) (rate_url ''USD'') = Served 200 ''OK'' (sconst (9, Byte CHR ''1''))
   \<and> (click_wire (demo_wire (sconst (9, Byte CHR ''1''))) (demo_window ''100'' 1) \<noteq> Blocks
        \<longleftrightarrow> (\<exists>n. stops_at http_timeout (sconst (9, Byte CHR ''1'')) n))
   \<and> click_wire (demo_wire (sconst (9, Byte CHR ''1''))) (demo_window ''100'' 1) = Blocks"
proof -
  have iff: "click_wire (demo_wire (sconst (9, Byte CHR ''1''))) (demo_window ''100'' 1) \<noteq> Blocks
        \<longleftrightarrow> (\<exists>n. stops_at http_timeout (sconst (9, Byte CHR ''1'')) n)"
    by (rule click_wire_returns_iff [where w = "demo_wire (sconst (9, Byte CHR ''1''))", OF _ demo_window_boxes(1,2,4,5)])
      (simp_all add: float_of_string_100)
  have "\<not> stops_at http_timeout (sconst (9, Byte CHR ''1'')) n" for n
    by (simp add: stops_at_def http_timeout_def)
  with iff show ?thesis by (simp add: float_of_string_100 currentText_def placeholder_def)
qed



text \<open>C23. At the rate 1 (an int in the rate table), an amount typed with two decimals
  and fewer than \<open>2\<^sup>5\<^sup>2\<close> hundredths is shown exactly as typed: \<open>float()\<close>, the
  product and \<open>.2f\<close> give the literal back.\<close>

theorem convert_currency_two_decimals:
  assumes "lineEdit s = fixed2 n" and "n < 2 ^ 52"
    and "currentText (FromBox s) = fr" "currentText (ToBox s) = to"
    and "fr \<noteq> placeholder" "to \<noteq> placeholder"
    and "net (rate_url fr) = Resp r" "status_code r < 400" "body r = JsonOk (PyDict kvs)"
    and "map_of kvs ''result'' = Some (PyStr ''success'')"
    and "map_of kvs ''conversion_rates'' = Some (PyDict rates)"
    and "map_of rates to = Some (PyInt 1)"
  shows "ResultsDisplay (convert_currency net s) =
    ''<p style='' @ CHR 0x27 # ''text-align: center;'' @ CHR 0x27 # ''> '' @ fixed2 n @ '' '' @ to"
proof -
  have small: "(of_nat n / 100 :: rat) < 2 ^ 1024 - 2 ^ 970"
  proof -
    have "(of_nat n :: rat) < 2 ^ 52" using assms(2) by (metis of_nat_less_numeral_power_cancel_iff)
    then show ?thesis by simp
  qed
  obtain v where v: "round_double False (of_nat n / 100) = Fin v"
    using round_double_finite [OF _ small] by auto
  have p: "float_of_string (lineEdit s) = Inr (Fin v)"
    using float_of_string_fixed2 [of n] v assms(1) by simp
  have d: "is_double (Fin v)"
    using round_double_is_double [of "of_nat n / 100" False] v by simp
  have "ResultsDisplay (convert_currency net s) = result_html (Fin v) to"
    by (rule display_converted [OF p assms(3-6) rate_reply [where net = net and fr = fr, OF assms(7-12)] py_mul_float_one [OF d]])
  also have "\<dots> = ''<p style='' @ CHR 0x27 # ''text-align: center;'' @ CHR 0x27 # ''> '' @ fixed2 n @ '' '' @ to"
    using fmt2_round_fixed2 [OF assms(2)] v by (simp add: result_html_def)
  finally show ?thesis .
qed

theorem convert_currency_two_decimals_witness:
  "lineEdit (demo_window (fixed2 9200) 2) = fixed2 9200 \<and> (9200::nat) < 2 ^ 52
   \<and> currentText (FromBox (demo_window (fixed2 9200) 2)) = ''USD'' \<and> currentText (ToBox (demo_window (fixed2 9200) 2)) = ''USD''
   \<and> ''USD'' \<noteq> placeholder
   \<and> (\<lambda>u. Resp (ok_response u (rates_reply [(''USD'', PyInt 1)]))) (rate_url ''USD'') = Resp (ok_response (rate_url ''USD'') (rates_reply [(''USD'', PyInt 1)]))
   \<and> ResultsDisplay (convert_currency (\<lambda>u. Resp (ok_response u (rates_reply [(''USD'', PyInt 1)]))) (demo_window (fixed2 9200) 2)) =
       ''<p style='' @ CHR 0x27 # ''text-align: center;'' @ CHR 0x27 # ''> '' @ fixed2 9200 @ '' '' @ ''USD''"
proof -
  have "ResultsDisplay (convert_currency (\<lambda>u. Resp (ok_response u (rates_reply [(''USD'', PyInt 1)]))) (demo_window (fixed2 9200) 2)) =
       ''<p style='' @ CHR 0x27 # ''text-align: center;'' @ CHR 0x27 # ''> '' @ fixed2 9200 @ '' '' @ ''USD''"
    by (rule convert_currency_two_decimals [where r = "ok_response (rate_url ''USD'') (rates_reply [(''USD'', PyInt 1)])" and kvs = "[(''result'', PyStr ''success''), (''conversion_rates'', PyDict [(''USD'', PyInt 1)])]"
          and rates = "[(''USD'', PyInt 1)]", OF _ _ demo_window_boxes(1,3,4,4)])
      (simp_all add: setupUi_def ok_response_def rates_reply_def)
  then show ?thesis by (simp add: currentText_def placeholder_def setupUi_def)
qed



end
